(* ===== verification/Go_Prelude.thy ===== *)
theory Go_Prelude
  imports Main "HOL-Library.Sublist" "HOL-Library.Char_ord" "HOL-Library.List_Lexorder"
begin

text \<open>
  The part of Go and of its standard library that the components share: results of calls that
  may return an error or panic, the errors themselves with their wrapping, number formatting and
  parsing (\<^verbatim>\<open>fmt\<close>, \<^verbatim>\<open>strconv\<close>), the string and path functions
  (\<^verbatim>\<open>strings\<close>, \<^verbatim>\<open>path\<close>, \<^verbatim>\<open>path/filepath\<close>). Strings are lists of
  bytes, as in Go.
\<close>

named_theorems go_simps "evaluation of Go results and of the bind functions"

section \<open>Errors and results\<close>

datatype os_errno = ENOENT | EISDIR | ENOTDIR | ENOTEMPTY | EACCES | EEXIST | EINVAL

text \<open>
  The errors the program tells apart. \<open>ErrWrap m e\<close> is \<^verbatim>\<open>fmt.Errorf("m: %w", e)\<close>;
  \<open>ErrMsg\<close> is an error with a text only; \<open>ErrExit c\<close> is an
  \<^verbatim>\<open>*exec.ExitError\<close> with exit code \<open>c\<close>; \<open>ErrStatus c m\<close> is a gRPC status;
  \<open>ErrApi\<close> is an error of the Kubernetes API.
\<close>

datatype api_reason = NotFound | Forbidden | OtherReason string

datatype grpc_code = CodeNotFound | CodeOutOfRange | CodeFailedPrecondition

datatype error =
    ErrMsg string
  | ErrWrap string error
  | ErrOs os_errno
  | ErrExit int
  | ErrApi api_reason
  | ErrStatus grpc_code string
  | ErrStanzaMissing
  | ErrWALNotFound
  | ErrCanceled
  | ErrCloudRestore int bool

text \<open>The chain of wrapped errors that \<^verbatim>\<open>errors.Is\<close> and \<^verbatim>\<open>errors.As\<close> walk.\<close>

fun unwrap_chain :: "error \<Rightarrow> error list" where
  "unwrap_chain (ErrWrap m e) = ErrWrap m e # unwrap_chain e"
| "unwrap_chain e = [e]"

definition errors_is :: "error \<Rightarrow> error \<Rightarrow> bool" where
  "errors_is e target \<longleftrightarrow> target \<in> set (unwrap_chain e)"

fun exit_code_of :: "error \<Rightarrow> int option" where
  "exit_code_of (ErrWrap m e) = exit_code_of e"
| "exit_code_of (ErrExit c) = Some c"
| "exit_code_of _ = None"

fun api_reason_of :: "error \<Rightarrow> api_reason option" where
  "api_reason_of (ErrWrap m e) = api_reason_of e"
| "api_reason_of (ErrApi r) = Some r"
| "api_reason_of _ = None"

definition is_forbidden :: "error \<Rightarrow> bool" where
  "is_forbidden e \<longleftrightarrow> api_reason_of e = Some Forbidden"

definition is_not_found :: "error \<Rightarrow> bool" where
  "is_not_found e \<longleftrightarrow> api_reason_of e = Some NotFound"

lemma errors_is_wrap [simp]:
  "\<lbrakk>\<And>m' e'. t \<noteq> ErrWrap m' e'\<rbrakk> \<Longrightarrow> errors_is (ErrWrap m e) t = errors_is e t"
  by (auto simp: errors_is_def)

lemma is_forbidden_wrap [simp]: "is_forbidden (ErrWrap m e) = is_forbidden e"
  by (simp add: is_forbidden_def)

text \<open>
  A call returns a value, returns an error, or panics. A panic is not an error value: code that
  inspects \<^verbatim>\<open>err\<close> never sees it.
\<close>

datatype 'a go = Ret 'a | Fail error | Panic string

fun bindG :: "'a go \<Rightarrow> ('a \<Rightarrow> 'b go) \<Rightarrow> 'b go" where
  "bindG (Ret a) f = f a"
| "bindG (Fail e) f = Fail e"
| "bindG (Panic m) f = Panic m"

text \<open>The same for calls that also change a state: the state reached stays visible.\<close>

fun bindW :: "'a go \<times> 'w \<Rightarrow> ('a \<Rightarrow> 'w \<Rightarrow> 'b go \<times> 'w) \<Rightarrow> 'b go \<times> 'w" where
  "bindW (Ret a, w) f = f a w"
| "bindW (Fail e, w) f = (Fail e, w)"
| "bindW (Panic m, w) f = (Panic m, w)"

text \<open>\<^verbatim>\<open>return fmt.Errorf("m: %w", err)\<close> when a call fails.\<close>

fun wrapG :: "string \<Rightarrow> 'a go \<Rightarrow> 'a go" where
  "wrapG m (Fail e) = Fail (ErrWrap m e)"
| "wrapG m r = r"

definition wrapW :: "string \<Rightarrow> 'a go \<times> 'w \<Rightarrow> 'a go \<times> 'w" where
  "wrapW m r = (wrapG m (fst r), snd r)"

declare bindG.simps [go_simps] bindW.simps [go_simps] wrapG.simps [go_simps]

lemma bindG_Ret_iff: "bindG r f = Ret b \<longleftrightarrow> (\<exists>a. r = Ret a \<and> f a = Ret b)"
  by (cases r) auto

lemma bindG_Fail_iff:
  "bindG r f = Fail e \<longleftrightarrow> r = Fail e \<or> (\<exists>a. r = Ret a \<and> f a = Fail e)"
  by (cases r) auto

lemma bindG_Panic_iff:
  "bindG r f = Panic m \<longleftrightarrow> r = Panic m \<or> (\<exists>a. r = Ret a \<and> f a = Panic m)"
  by (cases r) auto

lemma bindG_assoc: "bindG (bindG r f) g = bindG r (\<lambda>a. bindG (f a) g)"
  by (cases r) auto

lemma bindG_cong [fundef_cong]:
  "\<lbrakk>r = r'; \<And>a. r' = Ret a \<Longrightarrow> f a = f' a\<rbrakk> \<Longrightarrow> bindG r f = bindG r' f'"
  by (cases r) auto

lemma bindW_Ret_iff:
  "bindW r f = (Ret b, w') \<longleftrightarrow> (\<exists>a w. r = (Ret a, w) \<and> f a w = (Ret b, w'))"
  by (cases r rule: prod.exhaust; cases "fst r") auto

lemma bindW_Fail_iff:
  "bindW r f = (Fail e, w') \<longleftrightarrow>
     r = (Fail e, w') \<or> (\<exists>a w. r = (Ret a, w) \<and> f a w = (Fail e, w'))"
  by (cases r rule: prod.exhaust; cases "fst r") auto

lemma wrapG_Ret_iff [simp]: "wrapG m r = Ret a \<longleftrightarrow> r = Ret a"
  by (cases r) auto

lemma wrapG_Panic_iff [simp]: "wrapG m r = Panic p \<longleftrightarrow> r = Panic p"
  by (cases r) auto

lemma wrapG_Fail_iff: "wrapG m r = Fail e \<longleftrightarrow> (\<exists>e'. r = Fail e' \<and> e = ErrWrap m e')"
  by (cases r) auto

lemma wrapW_pair [simp, go_simps]: "wrapW m (r, w) = (wrapG m r, w)"
  by (simp add: wrapW_def)

lemma wrapW_Ret_iff: "wrapW m r = (Ret a, w) \<longleftrightarrow> r = (Ret a, w)"
  by (cases r) simp

lemmas go_iffs = bindG_Ret_iff bindG_Fail_iff bindG_Panic_iff bindW_Ret_iff bindW_Fail_iff
  wrapG_Fail_iff

text \<open>A result that is neither an error nor a panic.\<close>

fun returns :: "'a go \<Rightarrow> bool" where
  "returns (Ret a) = True"
| "returns _ = False"

lemma returns_iff: "returns r \<longleftrightarrow> (\<exists>a. r = Ret a)"
  by (cases r) auto

text \<open>
  What a stateful call comes to: \<open>Q\<close> of the value and the state when it returns one, \<open>E\<close> of the
  state when it ends with an error or a panic.
\<close>

definition outcome :: "('a \<Rightarrow> 'w \<Rightarrow> bool) \<Rightarrow> ('w \<Rightarrow> bool) \<Rightarrow> 'a go \<times> 'w \<Rightarrow> bool" where
  "outcome Q E x \<longleftrightarrow> (case fst x of Ret a \<Rightarrow> Q a (snd x) | _ \<Rightarrow> E (snd x))"

lemma outcome_simps [simp, go_simps]:
  "outcome Q E (Ret a, w) = Q a w" "outcome Q E (Fail e, w) = E w" "outcome Q E (Panic m, w) = E w"
  by (simp_all add: outcome_def)

lemma outcome_bindW:
  "outcome R E x \<Longrightarrow> (\<And>a w. R a w \<Longrightarrow> outcome Q E (f a w)) \<Longrightarrow> outcome Q E (bindW x f)"
  by (cases x; cases "fst x") auto

lemma outcome_bindW_pure:
  "E w \<Longrightarrow> (\<And>a. x = Ret a \<Longrightarrow> outcome Q E (f a w)) \<Longrightarrow> outcome Q E (bindW (x, w) f)"
  by (cases x) auto

lemma outcome_wrapW [simp]: "outcome Q E (wrapW m x) = outcome Q E x"
  by (cases x; cases "fst x") auto

lemma outcome_mono:
  "outcome Q E x \<Longrightarrow> (\<And>a w. Q a w \<Longrightarrow> Q' a w) \<Longrightarrow> (\<And>w. E w \<Longrightarrow> E' w) \<Longrightarrow> outcome Q' E' x"
  by (cases x; cases "fst x") auto

lemma outcome_Ret: "outcome Q E x \<Longrightarrow> x = (Ret a, w) \<Longrightarrow> Q a w"
  by simp

lemma outcome_state: "outcome Q E x \<Longrightarrow> (\<And>a w. Q a w \<Longrightarrow> E w) \<Longrightarrow> E (snd x)"
  by (cases x; cases "fst x") auto

section \<open>Runs\<close>

text \<open>A property that every step keeps holds in every state a run reaches.\<close>

locale step_invariant =
  fixes step :: "'s \<Rightarrow> 's \<Rightarrow> bool"
    and inv :: "'s \<Rightarrow> bool"
  assumes step_inv: "inv s \<Longrightarrow> step s t \<Longrightarrow> inv t"
begin

lemma run_inv: "step\<^sup>*\<^sup>* s t \<Longrightarrow> inv s \<Longrightarrow> inv t"
  by (induction rule: rtranclp_induct) (auto intro: step_inv)

end

section \<open>Lists\<close>

lemma find_append: "find P (xs @ ys) = (case find P xs of None \<Rightarrow> find P ys | Some x \<Rightarrow> Some x)"
  by (induction xs) auto

end
