(* ===== verification/Go_Strings.thy ===== *)
theory Go_Strings
  imports Go_Prelude
begin

text \<open>
  Strings of the Go standard library: decimal and hexadecimal formatting (\<^verbatim>\<open>%d\<close>,
  \<^verbatim>\<open>%08X\<close>), \<^verbatim>\<open>strconv.ParseInt\<close>, \<^verbatim>\<open>strings.Split\<close>,
  \<^verbatim>\<open>strings.HasSuffix\<close>, \<^verbatim>\<open>strings.TrimSuffix\<close>, \<^verbatim>\<open>path.Base\<close>,
  \<^verbatim>\<open>path.Dir\<close>, \<^verbatim>\<open>path.Join\<close> and \<^verbatim>\<open>path.Clean\<close>.
\<close>

section \<open>Numbers as text\<close>

definition digit_char :: "nat \<Rightarrow> char" where
  "digit_char d = ''0123456789ABCDEF'' ! d"

definition digit_val :: "char \<Rightarrow> nat option" where
  "digit_val c =
     (let n = (of_char c :: nat) in
      if 48 \<le> n \<and> n \<le> 57 then Some (n - 48)
      else if 65 \<le> n \<and> n \<le> 90 then Some (n - 55)
      else if 97 \<le> n \<and> n \<le> 122 then Some (n - 87)
      else None)"

lemma digit_val_digit_char: "d < 16 \<Longrightarrow> digit_val (digit_char d) = Some d"
  by (auto simp: digit_char_def digit_val_def numeral_eq_Suc less_Suc_eq)

lemma digit_char_inject: "d < 16 \<Longrightarrow> e < 16 \<Longrightarrow> digit_char d = digit_char e \<longleftrightarrow> d = e"
  by (metis digit_val_digit_char option.inject)

text \<open>\<open>fmt_nat b n\<close> prints \<open>n\<close> in base \<open>b\<close> (at most 16, upper case) without padding.\<close>

function fmt_nat :: "nat \<Rightarrow> nat \<Rightarrow> string" where
  "fmt_nat b n =
     (if b < 2 \<or> n < b then [digit_char n] else fmt_nat b (n div b) @ [digit_char (n mod b)])"
  by pat_completeness auto
termination
  by (relation "measure snd") (auto simp: div_less_dividend)

declare fmt_nat.simps [simp del]

definition itoa :: "int \<Rightarrow> string" where
  "itoa i = (if i < 0 then CHR ''-'' # fmt_nat 10 (nat (- i)) else fmt_nat 10 (nat i))"

text \<open>
  \<^verbatim>\<open>%08X\<close> of a signed integer: the sign counts towards the width, and zeros are put
  between the sign and the digits.
\<close>

definition pad_zero :: "nat \<Rightarrow> string \<Rightarrow> string" where
  "pad_zero w s = replicate (w - length s) (CHR ''0'') @ s"

definition fmt_08X :: "int \<Rightarrow> string" where
  "fmt_08X i =
     (if i < 0 then CHR ''-'' # pad_zero 7 (fmt_nat 16 (nat (- i)))
      else pad_zero 8 (fmt_nat 16 (nat i)))"

text \<open>\<^verbatim>\<open>strconv.ParseInt(s, base, bitSize)\<close> for a base from 2 to 36: \<open>None\<close> is an error.\<close>

fun parse_digits :: "nat \<Rightarrow> nat \<Rightarrow> string \<Rightarrow> nat option" where
  "parse_digits b acc [] = Some acc"
| "parse_digits b acc (c # cs) =
     (case digit_val c of
        None \<Rightarrow> None
      | Some d \<Rightarrow> if d < b then parse_digits b (acc * b + d) cs else None)"

definition ParseInt :: "string \<Rightarrow> nat \<Rightarrow> nat \<Rightarrow> int option" where
  "ParseInt s b bits =
     (let neg = (s \<noteq> [] \<and> hd s = CHR ''-'');
          body = (if s \<noteq> [] \<and> (hd s = CHR ''-'' \<or> hd s = CHR ''+'') then tl s else s)
      in if body = [] then None
         else case parse_digits b 0 body of
                None \<Rightarrow> None
              | Some n \<Rightarrow>
                  let v = (if neg then - int n else int n) in
                  if - (2 ^ (bits - 1)) \<le> v \<and> v < 2 ^ (bits - 1) then Some v else None)"

lemma parse_digits_append:
  "parse_digits b acc (xs @ ys) =
     (case parse_digits b acc xs of None \<Rightarrow> None | Some a \<Rightarrow> parse_digits b a ys)"
  by (induction xs arbitrary: acc) (auto split: option.splits)

lemma parse_fmt_nat:
  assumes "2 \<le> b" "b \<le> 16"
  shows "parse_digits b 0 (fmt_nat b n) = Some n"
proof (induction n rule: less_induct)
  case (less n)
  show ?case
  proof (cases "n < b")
    case True
    with assms show ?thesis by (simp add: fmt_nat.simps digit_val_digit_char)
  next
    case False
    with assms less.IH [of "n div b"]
    have "parse_digits b 0 (fmt_nat b (n div b)) = Some (n div b)" by simp
    moreover have "digit_val (digit_char (n mod b)) = Some (n mod b)"
      using assms by (intro digit_val_digit_char) (meson less_le_trans mod_less_divisor not_less
          order_less_le_trans zero_less_numeral le_less_trans le0 less_numeral_extra)
    ultimately show ?thesis
      using assms False by (subst fmt_nat.simps) (simp add: parse_digits_append)
  qed
qed

lemma parse_digits_zeros: "0 < b \<Longrightarrow> parse_digits b 0 (replicate k (CHR ''0'') @ s) = parse_digits b 0 s"
  by (induction k) (auto simp: digit_val_def)

lemma fmt_nat_not_Nil [simp]: "fmt_nat b n \<noteq> []"
  by (subst fmt_nat.simps) simp

lemma fmt_nat_inject: "2 \<le> b \<Longrightarrow> b \<le> 16 \<Longrightarrow> fmt_nat b m = fmt_nat b n \<longleftrightarrow> m = n"
  by (metis parse_fmt_nat option.inject)

lemma fmt_nat_digits:
  assumes "2 \<le> b" "b \<le> 16" "c \<in> set (fmt_nat b n)"
  shows "\<exists>d<b. c = digit_char d"
  using assms(3)
proof (induction n rule: less_induct)
  case (less n)
  show ?case
  proof (cases "n < b")
    case True
    with less.prems show ?thesis by (auto simp: fmt_nat.simps)
  next
    case False
    then have "set (fmt_nat b n) = set (fmt_nat b (n div b)) \<union> {digit_char (n mod b)}"
      using assms by (subst fmt_nat.simps) auto
    moreover have "n mod b < b" using assms by simp
    moreover have "n div b < n" using assms False by simp
    ultimately show ?thesis using less by auto
  qed
qed

lemma fmt_nat_length:
  assumes "2 \<le> b" "n < b ^ Suc k"
  shows "length (fmt_nat b n) \<le> Suc k"
  using assms(2)
proof (induction k arbitrary: n)
  case 0
  with assms(1) show ?case by (simp add: fmt_nat.simps)
next
  case (Suc k)
  show ?case
  proof (cases "n < b")
    case True
    then show ?thesis by (simp add: fmt_nat.simps)
  next
    case False
    from Suc.prems assms(1) have "n div b < b ^ Suc k"
      by (simp add: less_mult_imp_div_less mult.commute)
    then have "length (fmt_nat b (n div b)) \<le> Suc k" by (rule Suc.IH)
    with False assms(1) show ?thesis by (subst fmt_nat.simps) simp
  qed
qed

lemma length_fmt_08X: "0 \<le> i \<Longrightarrow> i < 2 ^ 32 \<Longrightarrow> length (fmt_08X i) = 8"
  using fmt_nat_length [of 16 "nat i" 7] by (simp add: fmt_08X_def pad_zero_def)

lemma fmt_08X_digits:
  assumes "0 \<le> i" "c \<in> set (fmt_08X i)"
  shows "\<exists>d<16. c = digit_char d"
proof -
  from assms have "c = CHR ''0'' \<or> c \<in> set (fmt_nat 16 (nat i))"
    by (auto simp: fmt_08X_def pad_zero_def split: if_splits)
  then show ?thesis
  proof
    assume "c = CHR ''0''"
    then have "c = digit_char 0" by (simp add: digit_char_def)
    then show ?thesis by (intro exI [of _ 0]) simp
  next
    assume "c \<in> set (fmt_nat 16 (nat i))"
    then show ?thesis using fmt_nat_digits [of 16 c "nat i"] by simp
  qed
qed

lemma hd_fmt_08X_no_sign:
  assumes "0 \<le> i"
  shows "hd (fmt_08X i) \<noteq> CHR ''-''" "hd (fmt_08X i) \<noteq> CHR ''+''"
proof -
  have ne: "fmt_08X i \<noteq> []" using assms by (simp add: fmt_08X_def pad_zero_def)
  then obtain d where "d < 16" and hd: "hd (fmt_08X i) = digit_char d"
    using fmt_08X_digits [OF assms, of "hd (fmt_08X i)"] by auto
  then have v: "digit_val (hd (fmt_08X i)) \<noteq> None" by (simp add: digit_val_digit_char)
  have "digit_val (CHR ''-'') = None" "digit_val (CHR ''+'') = None"
    by (simp_all add: digit_val_def)
  with v show "hd (fmt_08X i) \<noteq> CHR ''-''" "hd (fmt_08X i) \<noteq> CHR ''+''" by metis+
qed

text \<open>Formatting and parsing a 32-bit non-negative number are inverse to each other.\<close>

lemma ParseInt_fmt_08X:
  assumes "0 \<le> i" "i < 2 ^ 31"
  shows "ParseInt (fmt_08X i) 16 32 = Some i"
proof -
  have ne: "fmt_08X i \<noteq> []" using assms by (simp add: fmt_08X_def pad_zero_def)
  have p: "parse_digits 16 0 (fmt_08X i) = Some (nat i)"
    using assms by (simp add: fmt_08X_def pad_zero_def parse_digits_zeros parse_fmt_nat)
  show ?thesis
    using assms p ne hd_fmt_08X_no_sign [OF assms(1)] by (simp add: ParseInt_def Let_def)
qed

lemma fmt_nat_no_char: "digit_val c = None \<Longrightarrow> c \<notin> set (fmt_nat 10 n)"
  using fmt_nat_digits [of 10 c n] digit_val_digit_char by force

section \<open>Functions on strings\<close>

definition HasSuffix :: "string \<Rightarrow> string \<Rightarrow> bool" where
  "HasSuffix s suf \<longleftrightarrow> length suf \<le> length s \<and> drop (length s - length suf) s = suf"

definition TrimSuffix :: "string \<Rightarrow> string \<Rightarrow> string" where
  "TrimSuffix s suf = (if HasSuffix s suf then take (length s - length suf) s else s)"

lemma HasSuffix_iff: "HasSuffix s suf \<longleftrightarrow> suffix suf s"
  by (auto simp: HasSuffix_def suffix_def) (metis append_take_drop_id)

lemma TrimSuffix_append [simp]: "TrimSuffix (s @ suf) suf = s"
  by (simp add: TrimSuffix_def HasSuffix_def)

text \<open>\<^verbatim>\<open>strings.Split\<close> with a separator of one byte.\<close>

fun split_on :: "char \<Rightarrow> string \<Rightarrow> string list" where
  "split_on c [] = [[]]"
| "split_on c (x # xs) =
     (if x = c then [] # split_on c xs
      else (case split_on c xs of [] \<Rightarrow> [[x]] | y # ys \<Rightarrow> (x # y) # ys))"

fun join_on :: "char \<Rightarrow> string list \<Rightarrow> string" where
  "join_on c [] = []"
| "join_on c [x] = x"
| "join_on c (x # y # ys) = x @ c # join_on c (y # ys)"

lemma split_on_not_Nil [simp]: "split_on c s \<noteq> []"
  by (cases s) (auto split: list.splits)

lemma split_on_no_sep: "c \<notin> set s \<Longrightarrow> split_on c s = [s]"
  by (induction s) auto

lemma split_on_append_sep:
  "c \<notin> set n \<Longrightarrow> split_on c (s @ c # n) = split_on c s @ [n]"
  by (induction s) (auto simp: split_on_no_sep split: list.splits)

lemma hd_split_on: "hd (split_on c s) = takeWhile (\<lambda>x. x \<noteq> c) s"
proof (induction s)
  case (Cons a s)
  obtain y ys where "split_on c s = y # ys" by (cases "split_on c s") auto
  with Cons show ?case by simp
qed simp

lemma join_on_snoc: "join_on c (xs @ [n]) = (if xs = [] then n else join_on c xs @ c # n)"
  by (induction c xs rule: join_on.induct) auto

section \<open>Paths\<close>

abbreviation slash :: char where "slash \<equiv> CHR ''/''"

definition after_last_slash :: "string \<Rightarrow> string" where
  "after_last_slash s = rev (takeWhile (\<lambda>c. c \<noteq> slash) (rev s))"

definition upto_last_slash :: "string \<Rightarrow> string" where
  "upto_last_slash s = rev (dropWhile (\<lambda>c. c \<noteq> slash) (rev s))"

definition path_base :: "string \<Rightarrow> string" where
  "path_base s =
     (if s = [] then ''.''
      else let t = rev (dropWhile (\<lambda>c. c = slash) (rev s))
           in if t = [] then ''/'' else after_last_slash t)"

text \<open>
  \<^verbatim>\<open>path.Clean\<close>: the elements are pushed on a stack; empty elements and \<open>.\<close> are
  dropped, \<open>..\<close> pops an element (at the root it is dropped, at the start of a relative
  path it is kept).
\<close>

definition clean_step :: "bool \<Rightarrow> string list \<Rightarrow> string \<Rightarrow> string list" where
  "clean_step rooted st x =
     (if x = [] \<or> x = ''.'' then st
      else if x = ''..'' then
        (if st \<noteq> [] \<and> last st \<noteq> ''..'' then butlast st
         else if rooted then st else st @ [''..''])
      else st @ [x])"

definition path_clean :: "string \<Rightarrow> string" where
  "path_clean s =
     (let rooted = (s \<noteq> [] \<and> hd s = slash);
          body = join_on slash (foldl (clean_step rooted) [] (split_on slash s))
      in if rooted then slash # body else if body = [] then ''.'' else body)"

definition path_join :: "string list \<Rightarrow> string" where
  "path_join xs =
     (let ys = filter (\<lambda>x. x \<noteq> []) xs
      in if ys = [] then [] else path_clean (join_on slash ys))"

definition path_dir :: "string \<Rightarrow> string" where
  "path_dir s = path_clean (upto_last_slash s)"

text \<open>A plain file name: one path element that \<^verbatim>\<open>path.Clean\<close> keeps.\<close>

definition plain_name :: "string \<Rightarrow> bool" where
  "plain_name n \<longleftrightarrow> n \<noteq> [] \<and> n \<noteq> ''.'' \<and> n \<noteq> ''..'' \<and> slash \<notin> set n"

lemma takeWhile_no_slash:
  assumes "slash \<notin> set n"
  shows "takeWhile (\<lambda>c. c \<noteq> slash) (rev n @ slash # s) = rev n"
    and "takeWhile (\<lambda>c. c \<noteq> slash) (rev n) = rev n"
    and "dropWhile (\<lambda>c. c \<noteq> slash) (rev n @ slash # s) = slash # s"
proof -
  have all: "c \<noteq> slash" if "c \<in> set (rev n)" for c using that assms by auto
  show "takeWhile (\<lambda>c. c \<noteq> slash) (rev n @ slash # s) = rev n"
    using all by (subst takeWhile_append2) auto
  show "takeWhile (\<lambda>c. c \<noteq> slash) (rev n) = rev n"
    using all by (subst takeWhile_eq_all_conv) auto
  show "dropWhile (\<lambda>c. c \<noteq> slash) (rev n @ slash # s) = slash # s"
    using all by (subst dropWhile_append2) auto
qed

lemma after_last_slash_append: "slash \<notin> set n \<Longrightarrow> after_last_slash (s @ slash # n) = n"
  by (simp add: after_last_slash_def takeWhile_no_slash)

lemma after_last_slash_plain: "slash \<notin> set n \<Longrightarrow> after_last_slash n = n"
  by (simp add: after_last_slash_def takeWhile_no_slash)

lemma upto_last_slash_append: "slash \<notin> set n \<Longrightarrow> upto_last_slash (s @ slash # n) = s @ [slash]"
  by (simp add: upto_last_slash_def takeWhile_no_slash)

lemma plain_no_trailing: "plain_name n \<Longrightarrow> dropWhile (\<lambda>c. c = slash) (rev (s @ n)) = rev (s @ n)"
  by (cases n rule: rev_cases) (auto simp: plain_name_def)

lemma path_base_append: "plain_name n \<Longrightarrow> path_base (s @ slash # n) = n"
  using plain_no_trailing [of n "s @ [slash]"]
  by (simp add: path_base_def Let_def after_last_slash_append plain_name_def)

lemma path_base_plain: "plain_name n \<Longrightarrow> path_base n = n"
  using plain_no_trailing [of n "[]"]
  by (simp add: path_base_def Let_def after_last_slash_plain plain_name_def)

text \<open>Joining a directory with a plain name keeps the name as the last element.\<close>

definition join_prefix :: "string \<Rightarrow> string" where
  "join_prefix d =
     (if d = [] then []
      else let rooted = (hd d = slash);
               st = foldl (clean_step rooted) [] (split_on slash d);
               body = join_on slash st
           in (if rooted then [slash] else []) @ (if st = [] then [] else body @ [slash]))"

lemma path_join_plain:
  assumes "plain_name n"
  shows "path_join [d, n] = join_prefix d @ n"
proof (cases "d = []")
  case True
  from assms have "hd n \<noteq> slash" by (cases n) (auto simp: plain_name_def)
  with True assms show ?thesis
    by (auto simp: path_join_def path_clean_def join_prefix_def Let_def split_on_no_sep
        clean_step_def plain_name_def)
next
  case False
  then obtain x xs where d: "d = x # xs" by (cases d) auto
  from assms show ?thesis
    by (simp add: path_join_def path_clean_def join_prefix_def Let_def d
        split_on_append_sep [of slash n "x # xs", simplified] clean_step_def join_on_snoc plain_name_def)
qed

lemma join_prefix_cases: "join_prefix d = [] \<or> (\<exists>p. join_prefix d = p @ [slash])"
  by (auto simp: join_prefix_def Let_def)

lemma path_base_join: "plain_name n \<Longrightarrow> path_base (path_join [d, n]) = n"
  using join_prefix_cases [of d]
  by (auto simp: path_join_plain path_base_plain path_base_append)

lemma path_join_inject:
  "plain_name m \<Longrightarrow> plain_name n \<Longrightarrow> path_join [d, m] = path_join [d, n] \<longleftrightarrow> m = n"
  by (simp add: path_join_plain)

text \<open>Cleaning a cleaned path changes nothing.\<close>

definition stack_ok :: "bool \<Rightarrow> string list \<Rightarrow> bool" where
  "stack_ok rooted st \<longleftrightarrow> (\<forall>x \<in> set st. x \<noteq> [] \<and> x \<noteq> ''.'' \<and> slash \<notin> set x)
     \<and> (\<exists>k ys. st = replicate k ''..'' @ ys \<and> ''..'' \<notin> set ys \<and> (rooted \<longrightarrow> k = 0))"

lemma stack_ok_Nil: "stack_ok r []"
  by (auto simp: stack_ok_def)

lemma two_dots_ok:
  "x \<in> set (replicate n ''..'' @ []) \<Longrightarrow> x \<noteq> [] \<and> x \<noteq> ''.'' \<and> slash \<notin> set x"
  by (auto simp: in_set_replicate)

lemma stack_ok_step:
  assumes "stack_ok r st" "slash \<notin> set x"
  shows "stack_ok r (clean_step r st x)"
proof -
  from assms(1) obtain k ys where k: "st = replicate k ''..'' @ ys" "''..'' \<notin> set ys" "r \<longrightarrow> k = 0"
    and all: "\<forall>x \<in> set st. x \<noteq> [] \<and> x \<noteq> ''.'' \<and> slash \<notin> set x"
    by (auto simp: stack_ok_def)
  consider "x = [] \<or> x = ''.''" | "x = ''..''" | "x \<noteq> []" "x \<noteq> ''.''" "x \<noteq> ''..''" by blast
  then show ?thesis
  proof cases
    case 2
    show ?thesis
    proof (cases "ys = []")
      case True
      then have st: "st = replicate k ''..''" using k(1) by simp
      show ?thesis
      proof (cases r)
        case True
        then have "st = []" using st k(3) by simp
        then show ?thesis using 2 True by (simp add: clean_step_def stack_ok_Nil)
      next
        case False
        then have "clean_step r st x = replicate k ''..'' @ [''..'']"
          using 2 st by (cases k) (simp_all add: clean_step_def)
        then have "clean_step r st x = replicate (Suc k) ''..'' @ []"
          by (simp add: replicate_append_same)
        with False show ?thesis unfolding stack_ok_def by (metis two_dots_ok empty_iff list.set(1))
      qed
    next
      case False
      then have "last st \<noteq> ''..''" using k by (metis last_appendR last_in_set)
      then have "clean_step r st x = replicate k ''..'' @ butlast ys"
        using 2 False k by (simp add: clean_step_def butlast_append)
      then show ?thesis using all k False
        by (auto simp: stack_ok_def dest: in_set_butlastD)
    qed
  next
    case 3
    have eq: "clean_step r st x = replicate k ''..'' @ (ys @ [x])" using k(1) 3 by (simp add: clean_step_def)
    have el: "\<forall>y \<in> set (clean_step r st x). y \<noteq> [] \<and> y \<noteq> ''.'' \<and> slash \<notin> set y"
      using all 3 assms(2) by (simp add: clean_step_def)
    have "''..'' \<notin> set (ys @ [x])" using k(2) 3(3) by simp
    with eq k(3) have "\<exists>k ys. clean_step r st x = replicate k ''..'' @ ys \<and> ''..'' \<notin> set ys \<and> (r \<longrightarrow> k = 0)"
      by (intro exI [of _ k] exI [of _ "ys @ [x]"]) simp
    with el show ?thesis by (simp only: stack_ok_def simp_thms)
  qed (use assms(1) in \<open>simp add: clean_step_def\<close>)
qed

lemma stack_ok_foldl:
  "stack_ok r st \<Longrightarrow> \<forall>x \<in> set xs. slash \<notin> set x \<Longrightarrow> stack_ok r (foldl (clean_step r) st xs)"
  by (induction xs arbitrary: st) (simp_all add: stack_ok_step)

lemma split_on_elems: "x \<in> set (split_on c s) \<Longrightarrow> c \<notin> set x"
  by (induction s arbitrary: x) (auto split: if_splits list.splits)

lemma split_on_join_on:
  "xs \<noteq> [] \<Longrightarrow> \<forall>x \<in> set xs. c \<notin> set x \<Longrightarrow> split_on c (join_on c xs) = xs"
proof (induction xs rule: rev_induct)
  case (snoc x xs)
  then show ?case
    by (cases "xs = []") (auto simp: join_on_snoc split_on_no_sep split_on_append_sep)
qed simp

lemma foldl_clean_stack:
  assumes "stack_ok r st" shows "foldl (clean_step r) [] st = st"
proof -
  have "foldl (clean_step r) [] (take n st) = take n st" if "n \<le> length st" for n
    using that
  proof (induction n)
    case (Suc n)
    then have t: "take (Suc n) st = take n st @ [st ! n]" by (simp add: take_Suc_conv_app_nth)
    from assms obtain k ys where k: "st = replicate k ''..'' @ ys" "''..'' \<notin> set ys" "r \<longrightarrow> k = 0"
      and all: "\<forall>x \<in> set st. x \<noteq> [] \<and> x \<noteq> ''.'' \<and> slash \<notin> set x"
      by (auto simp: stack_ok_def)
    have x: "st ! n \<noteq> []" "st ! n \<noteq> ''.''" using all Suc.prems by auto
    have "clean_step r (take n st) (st ! n) = take n st @ [st ! n]"
    proof (cases "st ! n = ''..''")
      case True
      have "n < k"
      proof (rule ccontr)
        assume "\<not> n < k"
        then have "st ! n = ys ! (n - k)" "n - k < length ys" using k(1) Suc.prems by (auto simp: nth_append)
        with True k(2) show False by (metis nth_mem)
      qed
      then have "take n st = replicate n ''..''" "\<not> r" using k by auto
      then show ?thesis using True by (cases n) (auto simp: clean_step_def)
    qed (use x in \<open>simp add: clean_step_def\<close>)
    then show ?case using Suc t by simp
  qed simp
  from this [of "length st"] show ?thesis by simp
qed

lemma path_clean_idem [simp]: "path_clean (path_clean s) = path_clean s"
proof -
  define r where "r \<longleftrightarrow> s \<noteq> [] \<and> hd s = slash"
  define st where "st = foldl (clean_step r) [] (split_on slash s)"
  have ok: "stack_ok r st" unfolding st_def
    using split_on_elems by (intro stack_ok_foldl stack_ok_Nil) blast
  then have el: "\<forall>x \<in> set st. slash \<notin> set x \<and> x \<noteq> []" by (auto simp: stack_ok_def)
  have s: "path_clean s = (if r then slash # join_on slash st
      else if join_on slash st = [] then ''.'' else join_on slash st)"
    by (simp add: path_clean_def Let_def r_def st_def)
  show ?thesis
  proof (cases "st = []")
    case True
    then show ?thesis unfolding s by (cases r) (simp_all add: path_clean_def clean_step_def)
  next
    case False
    then obtain x xs where xs: "st = x # xs" by (cases st) auto
    with el obtain c cs where c: "x = c # cs" "c \<noteq> slash" by (cases x) auto
    have j: "\<exists>t. join_on slash st = c # t" using xs c by (cases xs) auto
    have sp: "split_on slash (join_on slash st) = st" using False el by (intro split_on_join_on) auto
    show ?thesis
    proof (cases r)
      case True
      then have "path_clean s = slash # join_on slash st" by (simp add: s)
      moreover have "foldl (clean_step True) [] (split_on slash (slash # join_on slash st)) = st"
        using sp foldl_clean_stack [OF ok] True by (simp add: clean_step_def)
      ultimately show ?thesis by (simp add: path_clean_def)
    next
      case False
      with j have "path_clean s = join_on slash st" by (auto simp: s)
      moreover have "foldl (clean_step False) [] (split_on slash (join_on slash st)) = st"
        using sp foldl_clean_stack [OF ok] False by simp
      ultimately show ?thesis using j c by (auto simp: path_clean_def Let_def)
    qed
  qed
qed

lemma path_clean_join [simp]: "xs \<noteq> [] \<Longrightarrow> hd xs \<noteq> [] \<Longrightarrow> path_clean (path_join xs) = path_join xs"
  by (cases xs) (auto simp: path_join_def)

lemma path_clean_trailing: "s \<noteq> [] \<Longrightarrow> path_clean (s @ [slash]) = path_clean s"
  using split_on_append_sep [of slash "[]" s]
  by (simp add: path_clean_def Let_def clean_step_def)

lemma join_prefix_clean:
  assumes "d \<noteq> []"
  obtains "join_prefix d = path_clean d @ [slash]" "path_clean d \<noteq> []"
  | "path_clean d = [slash]" "join_prefix d = [slash]"
  | "path_clean d = ''.''" "join_prefix d = []"
proof -
  define r where "r \<longleftrightarrow> hd d = slash"
  define st where "st = foldl (clean_step r) [] (split_on slash d)"
  have "stack_ok r st" unfolding st_def
    using split_on_elems by (intro stack_ok_foldl stack_ok_Nil) blast
  then have ne: "join_on slash st \<noteq> []" if "st \<noteq> []"
    using that by (cases st; cases "tl st") (auto simp: stack_ok_def)
  have p: "join_prefix d = (if r then [slash] else []) @ (if st = [] then [] else join_on slash st @ [slash])"
    using assms by (simp add: join_prefix_def Let_def r_def st_def)
  have c: "path_clean d = (if r then slash # join_on slash st
      else if join_on slash st = [] then ''.'' else join_on slash st)"
    using assms by (simp add: path_clean_def Let_def r_def st_def)
  show ?thesis
  proof (cases "st = []")
    case True
    then show ?thesis using that(2,3) by (cases r) (simp_all add: p c)
  next
    case False
    then show ?thesis using that(1) ne by (simp add: p c)
  qed
qed

lemma path_dir_join:
  assumes "plain_name n" "d \<noteq> []"
  shows "path_dir (path_join [d, n]) = path_clean d"
proof -
  have n: "slash \<notin> set n" using assms(1) by (simp add: plain_name_def)
  have "upto_last_slash n = []" using takeWhile_no_slash(2) [OF n] n
    by (auto simp: upto_last_slash_def dropWhile_eq_Nil_conv)
  moreover have "path_clean [] = ''.''" "path_clean [slash] = [slash]"
    by (simp_all add: path_clean_def clean_step_def)
  ultimately show ?thesis
    using upto_last_slash_append [OF n, of "[]"] upto_last_slash_append [OF n, of "path_clean d"]
    by (cases rule: join_prefix_clean [OF assms(2)])
      (simp_all add: path_dir_def path_join_plain [OF assms(1)] path_clean_trailing)
qed

lemma path_join_neq_dir:
  assumes "plain_name n" "d \<noteq> []"
  shows "path_join [d, n] \<noteq> path_clean d"
  using assms(1)
  by (cases rule: join_prefix_clean [OF assms(2)])
    (auto simp: path_join_plain [OF assms(1)] plain_name_def)

end
