(* ===== verification/Go_Json.thy ===== *)
theory Go_Json
  imports Go_Strings
begin

text \<open>
  \<^verbatim>\<open>encoding/json\<close> as far as the program uses it: values of JSON, and how
  \<^verbatim>\<open>json.Unmarshal\<close> stores them into strings, integers, maps, slices and structs. Storing
  \<open>null\<close> leaves the target as it is; a key of an object selects the field whose tag it equals,
  or else the first field whose tag it equals up to the case of letters; unknown keys are
  ignored; a value of the wrong kind is an error (\<open>None\<close>).
  A number is kept as its literal text.
\<close>

datatype json =
    JNull
  | JBool bool
  | JNum string
  | JStr string
  | JArr "json list"
  | JObj "(string \<times> json) list"

fun store_string :: "json \<Rightarrow> string \<Rightarrow> string option" where
  "store_string (JStr s) old = Some s"
| "store_string JNull old = Some old"
| "store_string _ old = None"

fun store_int :: "json \<Rightarrow> int \<Rightarrow> int option" where
  "store_int (JNum lit) old = ParseInt lit 10 64"
| "store_int JNull old = Some old"
| "store_int _ old = None"

text \<open>A slice of values of one type; \<open>zero\<close> is the zero value of the element type.\<close>

fun store_elems :: "(json \<Rightarrow> 'a \<Rightarrow> 'a option) \<Rightarrow> 'a \<Rightarrow> json list \<Rightarrow> 'a list option" where
  "store_elems f zero [] = Some []"
| "store_elems f zero (j # js) =
     (case f j zero of None \<Rightarrow> None
      | Some a \<Rightarrow> (case store_elems f zero js of None \<Rightarrow> None | Some as \<Rightarrow> Some (a # as)))"

fun store_list :: "(json \<Rightarrow> 'a \<Rightarrow> 'a option) \<Rightarrow> 'a \<Rightarrow> json \<Rightarrow> 'a list \<Rightarrow> 'a list option" where
  "store_list f zero (JArr js) old = store_elems f zero js"
| "store_list f zero JNull old = Some []"
| "store_list f zero _ old = None"

text \<open>A map from strings to strings: an entry replaces an earlier one with its key.\<close>

fun put_entry :: "string \<Rightarrow> 'v \<Rightarrow> (string \<times> 'v) list \<Rightarrow> (string \<times> 'v) list" where
  "put_entry k v [] = [(k, v)]"
| "put_entry k v ((k', v') # es) = (if k = k' then (k, v) # es else (k', v') # put_entry k v es)"

fun store_entries :: "(string \<times> json) list \<Rightarrow> (string \<times> string) list \<Rightarrow> (string \<times> string) list option" where
  "store_entries [] m = Some m"
| "store_entries ((k, j) # es) m =
     (case store_string j '''' of None \<Rightarrow> None | Some v \<Rightarrow> store_entries es (put_entry k v m))"

fun store_map :: "json \<Rightarrow> (string \<times> string) list \<Rightarrow> (string \<times> string) list option" where
  "store_map (JObj es) old = store_entries es old"
| "store_map JNull old = Some []"
| "store_map _ old = None"

definition fold_char :: "char \<Rightarrow> char" where
  "fold_char c =
     (let n = (of_char c :: nat) in if 65 \<le> n \<and> n \<le> 90 then char_of (n + 32) else c)"

definition field_for :: "string list \<Rightarrow> string \<Rightarrow> string option" where
  "field_for tags key =
     (if key \<in> set tags then Some key
      else find (\<lambda>t. map fold_char t = map fold_char key) tags)"

text \<open>A struct: \<open>set_field tag value s\<close> stores a value into the field with that tag.\<close>

fun store_fields ::
  "string list \<Rightarrow> (string \<Rightarrow> json \<Rightarrow> 's \<Rightarrow> 's option) \<Rightarrow> (string \<times> json) list \<Rightarrow> 's \<Rightarrow> 's option" where
  "store_fields tags set_field [] s = Some s"
| "store_fields tags set_field ((k, j) # es) s =
     (case field_for tags k of
        None \<Rightarrow> store_fields tags set_field es s
      | Some t \<Rightarrow> (case set_field t j s of None \<Rightarrow> None
                   | Some s' \<Rightarrow> store_fields tags set_field es s'))"

fun store_struct ::
  "string list \<Rightarrow> (string \<Rightarrow> json \<Rightarrow> 's \<Rightarrow> 's option) \<Rightarrow> json \<Rightarrow> 's \<Rightarrow> 's option" where
  "store_struct tags set_field (JObj es) s = store_fields tags set_field es s"
| "store_struct tags set_field JNull s = Some s"
| "store_struct tags set_field _ s = None"

lemma field_for_tag: "k \<in> set tags \<Longrightarrow> field_for tags k = Some k"
  by (simp add: field_for_def)

lemma store_elems_map:
  assumes "\<And>a. a \<in> set as \<Longrightarrow> f (enc a) zero = Some a"
  shows "store_elems f zero (map enc as) = Some as"
  using assms by (induction as) simp_all

lemma put_entry_snoc: "k \<notin> fst ` set m \<Longrightarrow> put_entry k v m = m @ [(k, v)]"
  by (induction m) auto

lemma store_entries_map:
  assumes "distinct (map fst (m @ es))"
  shows "store_entries (map (\<lambda>(k, v). (k, JStr v)) es) m = Some (m @ es)"
  using assms
proof (induction es arbitrary: m)
  case (Cons e es)
  obtain k v where e: "e = (k, v)" by (cases e)
  with Cons.prems have "put_entry k v m = m @ [(k, v)]" by (intro put_entry_snoc) auto
  moreover have "distinct (map fst ((m @ [(k, v)]) @ es))" using Cons.prems e by simp
  ultimately show ?case using Cons.IH [of "m @ [(k, v)]"] e by simp
qed simp

lemma itoa_no_plus: "itoa i \<noteq> [] \<and> hd (itoa i) \<noteq> CHR ''+'' \<and> (hd (itoa i) = CHR ''-'' \<longleftrightarrow> i < 0)"
proof -
  have "digit_val c \<noteq> None" if c: "c \<in> set (fmt_nat 10 n)" for c n
  proof -
    obtain d where "d < 10" "c = digit_char d" using fmt_nat_digits [of 10 c n] c by auto
    then show ?thesis using digit_val_digit_char [of d] by simp
  qed
  moreover have "digit_val (CHR ''-'') = None" "digit_val (CHR ''+'') = None"
    by (simp_all add: digit_val_def)
  ultimately have "hd (fmt_nat 10 n) \<noteq> CHR ''-''" "hd (fmt_nat 10 n) \<noteq> CHR ''+''" for n
    using hd_in_set [of "fmt_nat 10 n"] by (metis fmt_nat_not_Nil)+
  then show ?thesis by (simp add: itoa_def)
qed

lemma ParseInt_itoa: "- (2 ^ 63) \<le> i \<Longrightarrow> i < 2 ^ 63 \<Longrightarrow> ParseInt (itoa i) 10 64 = Some i"
  using itoa_no_plus [of i] by (auto simp: ParseInt_def Let_def itoa_def parse_fmt_nat)

end
