(* ===== verification/Catalog.thy ===== *)
theory Catalog
  imports Go_Json
begin

text \<open>
  The backup catalog (\<^verbatim>\<open>internal/pgbackrest/catalog/catalog.go\<close>): what
  \<^verbatim>\<open>pgbackrest info\<close> reports, how it is decoded, and the choice of the backup a recovery
  starts from. The searches run over the list from its end; \<open>newest_match\<close> states what they
  promise. LSN comparison and target time parsing belong to the machinery library and are
  parameters.
\<close>

section \<open>Data\<close>

record PgbackrestBackupLSN =
  lsn_Start :: string
  lsn_Stop :: string

record PgbackrestBackupDatabase =
  db_ID :: int
  db_RepoKey :: int
  db_SystemID :: int
  db_Version :: string

record PgbackrestWALArchive =
  wa_ID :: string
  wa_Min :: string
  wa_Max :: string
  wa_Database :: PgbackrestBackupDatabase

record PgbackrestBackupWALArchive =
  bw_Start :: string
  bw_Stop :: string

record PgbackrestBackupTime =
  time_Start :: int
  time_Stop :: int

record PgbackrestBackup =
  bk_Annotations :: "(string \<times> string) list"
  bk_Time :: PgbackrestBackupTime
  bk_WAL :: PgbackrestBackupWALArchive
  bk_LSN :: PgbackrestBackupLSN
  bk_ID :: string
  bk_Prior :: string
  bk_Type :: string

record PgbackrestStanzaStatus =
  st_Code :: int
  st_Message :: string

record Catalog =
  cat_Archive :: "PgbackrestWALArchive list"
  cat_Backups :: "PgbackrestBackup list"
  cat_Stanza :: string
  cat_Databases :: "PgbackrestBackupDatabase list"
  cat_Encryption :: string
  cat_Status :: PgbackrestStanzaStatus

definition LatestTimelineID :: int where "LatestTimelineID = -1"

definition BackupNameAnnotation :: string where "BackupNameAnnotation = ''cnpg-backup-name''"

definition StanzaStatusCodeMissing :: int where "StanzaStatusCodeMissing = 1"

section \<open>Decoding\<close>

definition zero_lsn :: PgbackrestBackupLSN where
  "zero_lsn = \<lparr>lsn_Start = '''', lsn_Stop = ''''\<rparr>"
definition zero_db :: PgbackrestBackupDatabase where
  "zero_db = \<lparr>db_ID = 0, db_RepoKey = 0, db_SystemID = 0, db_Version = ''''\<rparr>"
definition zero_wa :: PgbackrestWALArchive where
  "zero_wa = \<lparr>wa_ID = '''', wa_Min = '''', wa_Max = '''', wa_Database = zero_db\<rparr>"
definition zero_bw :: PgbackrestBackupWALArchive where
  "zero_bw = \<lparr>bw_Start = '''', bw_Stop = ''''\<rparr>"
definition zero_time :: PgbackrestBackupTime where
  "zero_time = \<lparr>time_Start = 0, time_Stop = 0\<rparr>"
definition zero_backup :: PgbackrestBackup where
  "zero_backup =
     \<lparr>bk_Annotations = [], bk_Time = zero_time, bk_WAL = zero_bw, bk_LSN = zero_lsn,
      bk_ID = '''', bk_Prior = '''', bk_Type = ''''\<rparr>"
definition zero_status :: PgbackrestStanzaStatus where
  "zero_status = \<lparr>st_Code = 0, st_Message = ''''\<rparr>"
definition zero_catalog :: Catalog where
  "zero_catalog =
     \<lparr>cat_Archive = [], cat_Backups = [], cat_Stanza = '''', cat_Databases = [],
      cat_Encryption = '''', cat_Status = zero_status\<rparr>"

text \<open>One function per struct: its tags, in the order of the fields, and what each stores.\<close>

definition store_lsn :: "json \<Rightarrow> PgbackrestBackupLSN \<Rightarrow> PgbackrestBackupLSN option" where
  "store_lsn = store_struct [''start'', ''stop''] (\<lambda>t j s.
     if t = ''start'' then map_option (\<lambda>v. s\<lparr>lsn_Start := v\<rparr>) (store_string j (lsn_Start s))
     else map_option (\<lambda>v. s\<lparr>lsn_Stop := v\<rparr>) (store_string j (lsn_Stop s)))"

definition store_db :: "json \<Rightarrow> PgbackrestBackupDatabase \<Rightarrow> PgbackrestBackupDatabase option" where
  "store_db = store_struct [''id'', ''repo_key'', ''system-id'', ''version''] (\<lambda>t j s.
     if t = ''id'' then map_option (\<lambda>v. s\<lparr>db_ID := v\<rparr>) (store_int j (db_ID s))
     else if t = ''repo_key'' then map_option (\<lambda>v. s\<lparr>db_RepoKey := v\<rparr>) (store_int j (db_RepoKey s))
     else if t = ''system-id'' then map_option (\<lambda>v. s\<lparr>db_SystemID := v\<rparr>) (store_int j (db_SystemID s))
     else map_option (\<lambda>v. s\<lparr>db_Version := v\<rparr>) (store_string j (db_Version s)))"

definition store_wa :: "json \<Rightarrow> PgbackrestWALArchive \<Rightarrow> PgbackrestWALArchive option" where
  "store_wa = store_struct [''id'', ''min'', ''max'', ''database''] (\<lambda>t j s.
     if t = ''id'' then map_option (\<lambda>v. s\<lparr>wa_ID := v\<rparr>) (store_string j (wa_ID s))
     else if t = ''min'' then map_option (\<lambda>v. s\<lparr>wa_Min := v\<rparr>) (store_string j (wa_Min s))
     else if t = ''max'' then map_option (\<lambda>v. s\<lparr>wa_Max := v\<rparr>) (store_string j (wa_Max s))
     else map_option (\<lambda>v. s\<lparr>wa_Database := v\<rparr>) (store_db j (wa_Database s)))"

definition store_bw :: "json \<Rightarrow> PgbackrestBackupWALArchive \<Rightarrow> PgbackrestBackupWALArchive option" where
  "store_bw = store_struct [''start'', ''stop''] (\<lambda>t j s.
     if t = ''start'' then map_option (\<lambda>v. s\<lparr>bw_Start := v\<rparr>) (store_string j (bw_Start s))
     else map_option (\<lambda>v. s\<lparr>bw_Stop := v\<rparr>) (store_string j (bw_Stop s)))"

definition store_time :: "json \<Rightarrow> PgbackrestBackupTime \<Rightarrow> PgbackrestBackupTime option" where
  "store_time = store_struct [''start'', ''stop''] (\<lambda>t j s.
     if t = ''start'' then map_option (\<lambda>v. s\<lparr>time_Start := v\<rparr>) (store_int j (time_Start s))
     else map_option (\<lambda>v. s\<lparr>time_Stop := v\<rparr>) (store_int j (time_Stop s)))"

definition store_backup :: "json \<Rightarrow> PgbackrestBackup \<Rightarrow> PgbackrestBackup option" where
  "store_backup = store_struct
     [''annotation'', ''timestamp'', ''archive'', ''lsn'', ''label'', ''prior'', ''type''] (\<lambda>t j s.
     if t = ''annotation'' then map_option (\<lambda>v. s\<lparr>bk_Annotations := v\<rparr>) (store_map j (bk_Annotations s))
     else if t = ''timestamp'' then map_option (\<lambda>v. s\<lparr>bk_Time := v\<rparr>) (store_time j (bk_Time s))
     else if t = ''archive'' then map_option (\<lambda>v. s\<lparr>bk_WAL := v\<rparr>) (store_bw j (bk_WAL s))
     else if t = ''lsn'' then map_option (\<lambda>v. s\<lparr>bk_LSN := v\<rparr>) (store_lsn j (bk_LSN s))
     else if t = ''label'' then map_option (\<lambda>v. s\<lparr>bk_ID := v\<rparr>) (store_string j (bk_ID s))
     else if t = ''prior'' then map_option (\<lambda>v. s\<lparr>bk_Prior := v\<rparr>) (store_string j (bk_Prior s))
     else map_option (\<lambda>v. s\<lparr>bk_Type := v\<rparr>) (store_string j (bk_Type s)))"

definition store_status :: "json \<Rightarrow> PgbackrestStanzaStatus \<Rightarrow> PgbackrestStanzaStatus option" where
  "store_status = store_struct [''code'', ''message''] (\<lambda>t j s.
     if t = ''code'' then map_option (\<lambda>v. s\<lparr>st_Code := v\<rparr>) (store_int j (st_Code s))
     else map_option (\<lambda>v. s\<lparr>st_Message := v\<rparr>) (store_string j (st_Message s)))"

definition store_catalog :: "json \<Rightarrow> Catalog \<Rightarrow> Catalog option" where
  "store_catalog = store_struct
     [''archive'', ''backup'', ''name'', ''db'', ''cipher'', ''status''] (\<lambda>t j s.
     if t = ''archive'' then map_option (\<lambda>v. s\<lparr>cat_Archive := v\<rparr>) (store_list store_wa zero_wa j (cat_Archive s))
     else if t = ''backup'' then map_option (\<lambda>v. s\<lparr>cat_Backups := v\<rparr>) (store_list store_backup zero_backup j (cat_Backups s))
     else if t = ''name'' then map_option (\<lambda>v. s\<lparr>cat_Stanza := v\<rparr>) (store_string j (cat_Stanza s))
     else if t = ''db'' then map_option (\<lambda>v. s\<lparr>cat_Databases := v\<rparr>) (store_list store_db zero_db j (cat_Databases s))
     else if t = ''cipher'' then map_option (\<lambda>v. s\<lparr>cat_Encryption := v\<rparr>) (store_string j (cat_Encryption s))
     else map_option (\<lambda>v. s\<lparr>cat_Status := v\<rparr>) (store_status j (cat_Status s)))"

text \<open>
  \<open>parse_json\<close> is the lexical part of \<^verbatim>\<open>json.Unmarshal\<close>: the value a text denotes, or
  \<open>None\<close> for a syntax error.
\<close>

definition NewCatalogFromPgbackrestInfo :: "(string \<Rightarrow> json option) \<Rightarrow> string \<Rightarrow> Catalog go" where
  "NewCatalogFromPgbackrestInfo parse_json rawJSON =
     (case parse_json rawJSON of
        None \<Rightarrow> Fail (ErrMsg ''json: syntax error'')
      | Some j \<Rightarrow>
          (case store_list store_catalog zero_catalog j [] of
             None \<Rightarrow> Fail (ErrMsg ''json: cannot unmarshal'')
           | Some result \<Rightarrow>
               if length result \<noteq> 1
               then Fail (ErrMsg (''expected one catalog, got '' @ itoa (int (length result))))
               else Ret (result ! 0)))"

definition NewSingleBackupCatalogFromPgbackrestInfo :: "(string \<Rightarrow> json option) \<Rightarrow> string \<Rightarrow> Catalog go" where
  "NewSingleBackupCatalogFromPgbackrestInfo parse_json rawJSON =
     NewCatalogFromPgbackrestInfo parse_json rawJSON"

section \<open>Queries\<close>

text \<open>Times are nanoseconds since the epoch.\<close>

definition time_Unix :: "int \<Rightarrow> int" where
  "time_Unix sec = sec * 1000000000"

definition isBackupDone :: "PgbackrestBackup \<Rightarrow> bool" where
  "isBackupDone b \<longleftrightarrow> time_Start (bk_Time b) \<noteq> 0 \<and> time_Stop (bk_Time b) \<noteq> 0"

text \<open>Slicing \<^verbatim>\<open>[:8]\<close> panics when the name is shorter than 8 bytes.\<close>

definition timeline_of :: "string \<Rightarrow> int go" where
  "timeline_of wal =
     (if length wal < 8 then Panic ''slice bounds out of range''
      else case ParseInt (take 8 wal) 16 64 of
             None \<Rightarrow> Fail (ErrMsg ''strconv.ParseInt'')
           | Some t \<Rightarrow> Ret t)"

definition startTimeline :: "PgbackrestBackup \<Rightarrow> int go" where
  "startTimeline b = timeline_of (bw_Start (bk_WAL b))"

definition stopTimeline :: "PgbackrestBackup \<Rightarrow> int go" where
  "stopTimeline b = timeline_of (bw_Stop (bk_WAL b))"

text \<open>\<^verbatim>\<open>for i := len(catalog.Backups) - 1; i >= 0; i--\<close> runs over the reversed list.\<close>

fun latest_loop :: "PgbackrestBackup list \<Rightarrow> PgbackrestBackup option" where
  "latest_loop [] = None"
| "latest_loop (b # bs) = (if isBackupDone b then Some b else latest_loop bs)"

definition LatestBackupInfo :: "Catalog \<Rightarrow> PgbackrestBackup option" where
  "LatestBackupInfo catalog =
     (if length (cat_Backups catalog) = 0 then None else latest_loop (rev (cat_Backups catalog)))"

definition GetLastSuccessfulBackupTime :: "Catalog \<Rightarrow> int option" where
  "GetLastSuccessfulBackupTime catalog =
     (case LatestBackupInfo catalog of
        None \<Rightarrow> None
      | Some b \<Rightarrow> Some (time_Unix (time_Stop (bk_Time b))))"

definition GetBackupIDs :: "Catalog \<Rightarrow> string list" where
  "GetBackupIDs catalog = map bk_ID (cat_Backups catalog)"

fun first_point_loop :: "PgbackrestBackup list \<Rightarrow> int option" where
  "first_point_loop [] = None"
| "first_point_loop (b # bs) =
     (if \<not> isBackupDone b then first_point_loop bs
      else Some (time_Unix (time_Stop (bk_Time b))))"

definition FirstRecoverabilityPoint :: "Catalog \<Rightarrow> int option" where
  "FirstRecoverabilityPoint catalog =
     (if length (cat_Backups catalog) = 0 then None else first_point_loop (cat_Backups catalog))"

definition GetFirstRecoverabilityPoint :: "Catalog \<Rightarrow> int option" where
  "GetFirstRecoverabilityPoint catalog = FirstRecoverabilityPoint catalog"

definition GetBackupMethod :: "Catalog \<Rightarrow> string" where
  "GetBackupMethod catalog = ''pgbackrest''"

definition StanzaMissing :: "Catalog \<Rightarrow> bool" where
  "StanzaMissing catalog \<longleftrightarrow> st_Code (cat_Status catalog) = StanzaStatusCodeMissing"

fun annotated_loop :: "string \<Rightarrow> PgbackrestBackup list \<Rightarrow> string" where
  "annotated_loop name [] = ''''"
| "annotated_loop name (b # bs) =
     (if (case map_of (bk_Annotations b) BackupNameAnnotation of None \<Rightarrow> '''' | Some v \<Rightarrow> v) = name
      then bk_ID b else annotated_loop name bs)"

definition GetBackupIDFromAnnotatedName :: "Catalog \<Rightarrow> string \<Rightarrow> string" where
  "GetBackupIDFromAnnotatedName catalog backupName = annotated_loop backupName (rev (cat_Backups catalog))"

section \<open>The backup a recovery starts from\<close>

record recoveryTarget =
  rt_BackupID :: string
  rt_TargetTime :: string
  rt_TargetLSN :: string
  rt_TargetTLI :: string

text \<open>
  The types of the machinery library: parsing gives a value or the text of the error;
  \<open>LSN_Less a b\<close> is \<^verbatim>\<open>LSN(a).Less(LSN(b))\<close>.
\<close>

record machinery =
  LSN_Parse :: "string \<Rightarrow> string + int"
  LSN_Less :: "string \<Rightarrow> string \<Rightarrow> bool"
  ParseTargetTime :: "string \<Rightarrow> string + int"

definition spans_timeline :: "int \<Rightarrow> int \<Rightarrow> bool" where
  "spans_timeline startTimeline' targetTimeline \<longleftrightarrow>
     startTimeline' \<le> targetTimeline \<or> targetTimeline = LatestTimelineID"

fun closest_lsn_loop ::
  "(string \<Rightarrow> string \<Rightarrow> bool) \<Rightarrow> string \<Rightarrow> int \<Rightarrow> PgbackrestBackup list \<Rightarrow> PgbackrestBackup option go" where
  "closest_lsn_loop lt targetLSN targetTimeline [] = Ret None"
| "closest_lsn_loop lt targetLSN targetTimeline (b # bs) =
     (case startTimeline b of
        Panic m \<Rightarrow> Panic m
      | Fail e \<Rightarrow> closest_lsn_loop lt targetLSN targetTimeline bs
      | Ret st \<Rightarrow>
          if \<not> isBackupDone b then closest_lsn_loop lt targetLSN targetTimeline bs
          else if spans_timeline st targetTimeline \<and> lt (lsn_Stop (bk_LSN b)) targetLSN
          then Ret (Some b)
          else closest_lsn_loop lt targetLSN targetTimeline bs)"

definition findClosestBackupFromTargetLSN ::
  "machinery \<Rightarrow> Catalog \<Rightarrow> string \<Rightarrow> int \<Rightarrow> PgbackrestBackup option go" where
  "findClosestBackupFromTargetLSN mach catalog targetLSN targetTimeline =
     (case LSN_Parse mach targetLSN of
        Inl err \<Rightarrow> Fail (ErrMsg (''while parsing recovery target targetLSN: '' @ err))
      | Inr _ \<Rightarrow> closest_lsn_loop (LSN_Less mach) targetLSN targetTimeline (rev (cat_Backups catalog)))"

fun closest_time_loop :: "int \<Rightarrow> int \<Rightarrow> PgbackrestBackup list \<Rightarrow> PgbackrestBackup option go" where
  "closest_time_loop targetTime targetTimeline [] = Ret None"
| "closest_time_loop targetTime targetTimeline (b # bs) =
     (case startTimeline b of
        Panic m \<Rightarrow> Panic m
      | Fail e \<Rightarrow> closest_time_loop targetTime targetTimeline bs
      | Ret st \<Rightarrow>
          if \<not> isBackupDone b then closest_time_loop targetTime targetTimeline bs
          else if spans_timeline st targetTimeline \<and> \<not> time_Unix (time_Stop (bk_Time b)) > targetTime
          then Ret (Some b)
          else closest_time_loop targetTime targetTimeline bs)"

definition findClosestBackupFromTargetTime ::
  "machinery \<Rightarrow> Catalog \<Rightarrow> string \<Rightarrow> int \<Rightarrow> PgbackrestBackup option go" where
  "findClosestBackupFromTargetTime mach catalog targetTimeString targetTimeline =
     (case ParseTargetTime mach targetTimeString of
        Inl err \<Rightarrow> Fail (ErrMsg (''while parsing recovery target targetTime: '' @ err))
      | Inr targetTime \<Rightarrow> closest_time_loop targetTime targetTimeline (rev (cat_Backups catalog)))"

fun latest_timeline_loop :: "int \<Rightarrow> PgbackrestBackup list \<Rightarrow> PgbackrestBackup option go" where
  "latest_timeline_loop targetTimeline [] = Ret None"
| "latest_timeline_loop targetTimeline (b # bs) =
     (case startTimeline b of
        Panic m \<Rightarrow> Panic m
      | Fail e \<Rightarrow> latest_timeline_loop targetTimeline bs
      | Ret st \<Rightarrow>
          if \<not> isBackupDone b then latest_timeline_loop targetTimeline bs
          else if spans_timeline st targetTimeline then Ret (Some b)
          else latest_timeline_loop targetTimeline bs)"

definition findLatestBackupFromTimeline :: "Catalog \<Rightarrow> int \<Rightarrow> PgbackrestBackup option go" where
  "findLatestBackupFromTimeline catalog targetTimeline =
     latest_timeline_loop targetTimeline (rev (cat_Backups catalog))"

fun find_id_loop :: "string \<Rightarrow> PgbackrestBackup list \<Rightarrow> PgbackrestBackup option go" where
  "find_id_loop backupID [] = Fail (ErrMsg (''no backup found with ID '' @ backupID))"
| "find_id_loop backupID (b # bs) =
     (if \<not> isBackupDone b then find_id_loop backupID bs
      else if bk_ID b = backupID then Ret (Some b)
      else find_id_loop backupID bs)"

definition findBackupFromID :: "Catalog \<Rightarrow> string \<Rightarrow> PgbackrestBackup option go" where
  "findBackupFromID catalog backupID =
     (if backupID = '''' then Fail (ErrMsg ''no backupID provided'')
      else find_id_loop backupID (cat_Backups catalog))"

definition target_timeline :: "string \<Rightarrow> int" where
  "target_timeline tli = (case ParseInt tli 10 64 of None \<Rightarrow> -1 | Some t \<Rightarrow> t)"

definition FindBackupInfo ::
  "machinery \<Rightarrow> Catalog \<Rightarrow> recoveryTarget \<Rightarrow> PgbackrestBackup option go" where
  "FindBackupInfo mach catalog target =
     (if rt_BackupID target \<noteq> '''' then findBackupFromID catalog (rt_BackupID target)
      else
        let targetTimeline = target_timeline (rt_TargetTLI target) in
        if rt_TargetTime target \<noteq> ''''
        then findClosestBackupFromTargetTime mach catalog (rt_TargetTime target) targetTimeline
        else if rt_TargetLSN target \<noteq> ''''
        then findClosestBackupFromTargetLSN mach catalog (rt_TargetLSN target) targetTimeline
        else findLatestBackupFromTimeline catalog targetTimeline)"

section \<open>What the searches from the end promise\<close>

text \<open>
  A search over a catalog list that is safe to run on lists of \<open>readable\<close> backups returns the
  last backup of the list that is \<open>wanted\<close>.
\<close>

locale newest_match =
  fixes finder :: "PgbackrestBackup list \<Rightarrow> PgbackrestBackup option go"
    and readable :: "PgbackrestBackup \<Rightarrow> bool"
    and wanted :: "PgbackrestBackup \<Rightarrow> bool"
  assumes finder_find: "\<forall>b \<in> set bs. readable b \<Longrightarrow> finder bs = Ret (find wanted (rev bs))"
begin

lemma returns_newest:
  assumes "\<forall>b \<in> set bs. readable b" "finder bs = Ret (Some b)"
  shows "\<exists>older newer. bs = older @ b # newer \<and> wanted b \<and> (\<forall>x \<in> set newer. \<not> wanted x)"
proof -
  from assms finder_find [of bs] have "find wanted (rev bs) = Some b" by simp
  then obtain i where i: "i < length (rev bs)" "wanted (rev bs ! i)" "b = rev bs ! i"
    "\<forall>j < i. \<not> wanted (rev bs ! j)"
    by (auto simp: find_Some_iff)
  let ?k = "length bs - Suc i"
  have k: "?k < length bs" "bs ! ?k = b" using i by (auto simp: rev_nth)
  have "\<not> wanted x" if "x \<in> set (drop (Suc ?k) bs)" for x
  proof -
    from that obtain j where j: "j < length bs - Suc ?k" "x = bs ! (Suc ?k + j)"
      by (auto simp: in_set_conv_nth)
    then have "x = rev bs ! (i - Suc j)" using i(1) by (simp add: rev_nth algebra_simps Suc_diff_Suc)
    moreover have "i - Suc j < i" using j i(1) by simp
    ultimately show ?thesis using i(4) by blast
  qed
  moreover have "bs = take ?k bs @ b # drop (Suc ?k) bs"
    using k by (metis id_take_nth_drop)
  ultimately show ?thesis using i by blast
qed

lemma none_iff:
  assumes "\<forall>b \<in> set bs. readable b"
  shows "finder bs = Ret None \<longleftrightarrow> (\<forall>b \<in> set bs. \<not> wanted b)"
  using finder_find [OF assms] by (auto simp: find_None_iff)

lemma finds:
  assumes "\<forall>b \<in> set bs. readable b" "b \<in> set bs" "wanted b"
  shows "\<exists>b'. finder bs = Ret (Some b')"
proof -
  have "find wanted (rev bs) \<noteq> None" using assms(2,3) by (auto simp: find_None_iff)
  with finder_find [OF assms(1)] show ?thesis by auto
qed

text \<open>A backup taken later is preferred; one that is not wanted does not disturb the choice.\<close>

lemma append_newer:
  assumes "\<forall>b \<in> set (bs @ [b]). readable b"
  shows "finder (bs @ [b]) = (if wanted b then Ret (Some b) else finder bs)"
  using assms finder_find [of "bs @ [b]"] finder_find [of bs] by simp

end

definition readable_wal :: "PgbackrestBackup \<Rightarrow> bool" where
  "readable_wal b \<longleftrightarrow> 8 \<le> length (bw_Start (bk_WAL b))"

definition on_timeline :: "int \<Rightarrow> PgbackrestBackup \<Rightarrow> bool" where
  "on_timeline t b \<longleftrightarrow>
     isBackupDone b \<and> (case startTimeline b of Ret st \<Rightarrow> spans_timeline st t | _ \<Rightarrow> False)"

definition done_by :: "int \<Rightarrow> PgbackrestBackup \<Rightarrow> bool" where
  "done_by targetTime b \<longleftrightarrow> time_Unix (time_Stop (bk_Time b)) \<le> targetTime"

lemma startTimeline_readable:
  "readable_wal b \<Longrightarrow> startTimeline b \<noteq> Panic m"
  by (simp add: readable_wal_def startTimeline_def timeline_of_def split: option.splits)

lemma latest_loop_find: "latest_loop bs = find isBackupDone bs"
  by (induction bs) auto

lemma loops_find:
  assumes "\<forall>b \<in> set bs. readable_wal b"
  shows "latest_timeline_loop t bs = Ret (find (on_timeline t) bs)"
    "closest_time_loop x t bs = Ret (find (\<lambda>b. on_timeline t b \<and> done_by x b) bs)"
    "closest_lsn_loop lt l t bs = Ret (find (\<lambda>b. on_timeline t b \<and> lt (lsn_Stop (bk_LSN b)) l) bs)"
  using assms
  by (induction bs)
    (auto simp: on_timeline_def done_by_def startTimeline_readable not_less split: go.splits)

interpretation latest_backup: newest_match
  "\<lambda>bs. Ret (LatestBackupInfo (c\<lparr>cat_Backups := bs\<rparr>))" "\<lambda>_. True" isBackupDone for c
  by unfold_locales (auto simp: LatestBackupInfo_def latest_loop_find)

interpretation latest_on_timeline: newest_match
  "\<lambda>bs. findLatestBackupFromTimeline (c\<lparr>cat_Backups := bs\<rparr>) t" readable_wal "on_timeline t" for c t
  by unfold_locales (simp add: findLatestBackupFromTimeline_def loops_find)

interpretation closest_to_time: newest_match
  "\<lambda>bs. closest_time_loop x t (rev bs)" readable_wal
  "\<lambda>b. on_timeline t b \<and> done_by x b" for x t
  by unfold_locales (simp add: loops_find)

interpretation closest_to_lsn: newest_match
  "\<lambda>bs. closest_lsn_loop lt l t (rev bs)" readable_wal
  "\<lambda>b. on_timeline t b \<and> lt (lsn_Stop (bk_LSN b)) l" for lt l t
  by unfold_locales (simp add: loops_find)

lemma find_id_loop_find:
  "find_id_loop i bs =
     (case find (\<lambda>b. isBackupDone b \<and> bk_ID b = i) bs of
        Some b \<Rightarrow> Ret (Some b)
      | None \<Rightarrow> Fail (ErrMsg (''no backup found with ID '' @ i)))"
  by (induction bs) auto

section \<open>Properties of the searches\<close>


definition mach_example :: machinery where
  "mach_example =
     \<lparr>LSN_Parse = (\<lambda>s. Inr 0), LSN_Less = (\<lambda>a b. a < b), ParseTargetTime = (\<lambda>s. Inr 5000000000)\<rparr>"

definition backup_example :: "string \<Rightarrow> int \<Rightarrow> PgbackrestBackup" where
  "backup_example ident stop =
     zero_backup\<lparr>bk_ID := ident, bk_Time := \<lparr>time_Start = 1, time_Stop = stop\<rparr>,
       bk_WAL := \<lparr>bw_Start = ''000000010000000000000001'', bw_Stop = ''000000010000000000000001''\<rparr>\<rparr>"

definition catalog_example :: Catalog where
  "catalog_example = zero_catalog\<lparr>cat_Backups := [backup_example ''A'' 2, backup_example ''B'' 4, backup_example ''C'' 9]\<rparr>"

definition target_example :: recoveryTarget where
  "target_example = \<lparr>rt_BackupID = '''', rt_TargetTime = ''t'', rt_TargetLSN = '''', rt_TargetTLI = ''latest''\<rparr>"

lemmas catalog_examples = catalog_example_def backup_example_def zero_catalog_def zero_backup_def
  target_example_def mach_example_def


text \<open>
  Recovery from a named backup: a backup ID always wins over the other targets, and what is
  returned is the first completed backup of the catalog with that ID; when there is none the
  search fails, it never falls back to another backup.
\<close>

theorem FindBackupInfo_by_id:
  assumes "rt_BackupID target \<noteq> ''''"
  shows "FindBackupInfo mach catalog target =
    (case find (\<lambda>b. isBackupDone b \<and> bk_ID b = rt_BackupID target) (cat_Backups catalog) of
       Some b \<Rightarrow> Ret (Some b)
     | None \<Rightarrow> Fail (ErrMsg (''no backup found with ID '' @ rt_BackupID target)))"
  using assms by (simp add: FindBackupInfo_def findBackupFromID_def find_id_loop_find)

definition target_by_id :: recoveryTarget where
  "target_by_id = target_example\<lparr>rt_BackupID := ''A''\<rparr>"

theorem FindBackupInfo_by_id_witness:
  "FindBackupInfo mach_example catalog_example target_by_id = Ret (Some (backup_example ''A'' 2))"
proof -
  have "rt_BackupID target_by_id \<noteq> ''''" by (simp add: target_by_id_def)
  from FindBackupInfo_by_id [OF this, of mach_example catalog_example] show ?thesis
    by (simp add: target_by_id_def catalog_examples isBackupDone_def)
qed

text \<open>
  Recovery to the end of a timeline, or to the latest one: with every WAL range readable
  the search succeeds, and finds no backup only if no completed backup of the catalog started on
  an admissible timeline.
\<close>

theorem FindBackupInfo_latest:
  assumes "\<forall>b \<in> set (cat_Backups catalog). readable_wal b"
    and "rt_BackupID target = ''''" "rt_TargetTime target = ''''" "rt_TargetLSN target = ''''"
  shows "\<exists>r. FindBackupInfo mach catalog target = Ret r
    \<and> (r = None \<longleftrightarrow> (\<forall>b \<in> set (cat_Backups catalog).
         isBackupDone b \<longrightarrow> (\<forall>t. startTimeline b = Ret t \<longrightarrow>
           \<not> spans_timeline t (target_timeline (rt_TargetTLI target)))))"
proof -
  let ?t = "target_timeline (rt_TargetTLI target)"
  let ?f = "find (on_timeline ?t) (rev (cat_Backups catalog))"
  have "FindBackupInfo mach catalog target = Ret ?f"
    using assms by (simp add: FindBackupInfo_def findLatestBackupFromTimeline_def loops_find)
  moreover have "?f = None \<longleftrightarrow> (\<forall>b \<in> set (cat_Backups catalog). \<not> on_timeline ?t b)"
    by (auto simp: find_None_iff)
  moreover have "on_timeline ?t b \<longleftrightarrow>
      isBackupDone b \<and> (\<exists>t. startTimeline b = Ret t \<and> spans_timeline t ?t)" for b
    by (auto simp: on_timeline_def split: go.splits)
  ultimately show ?thesis by auto
qed

definition target_latest :: recoveryTarget where
  "target_latest = target_example\<lparr>rt_TargetTime := ''''\<rparr>"

theorem FindBackupInfo_latest_witness:
  "\<exists>r. FindBackupInfo mach_example catalog_example target_latest = Ret r \<and> r \<noteq> None"
proof -
  have "\<exists>r. FindBackupInfo mach_example catalog_example target_latest = Ret r
    \<and> (r = None \<longleftrightarrow> (\<forall>b \<in> set (cat_Backups catalog_example).
         isBackupDone b \<longrightarrow> (\<forall>t. startTimeline b = Ret t \<longrightarrow>
           \<not> spans_timeline t (target_timeline (rt_TargetTLI target_latest)))))"
    by (rule FindBackupInfo_latest) (simp_all add: target_latest_def catalog_examples readable_wal_def)
  moreover have "FindBackupInfo mach_example catalog_example target_latest = Ret (Some (backup_example ''C'' 9))"
    by code_simp
  ultimately show ?thesis by simp
qed

text \<open>
  A backup without a WAL range (an interrupted one) makes every search by timeline panic, since
  the slice of its start segment is taken before the backup is known to be completed.
\<close>

lemma FindBackupInfo_short_wal_panics:
  assumes "cat_Backups catalog = bs @ [b]" "length (bw_Start (bk_WAL b)) < 8"
    and "rt_BackupID target = ''''" "rt_TargetTime target = ''''" "rt_TargetLSN target = ''''"
  shows "FindBackupInfo mach catalog target = Panic ''slice bounds out of range''"
  using assms by (simp add: FindBackupInfo_def findLatestBackupFromTimeline_def
      startTimeline_def timeline_of_def)

section \<open>Decoding what pgbackrest reports\<close>

text \<open>
  The report of a catalog, the way \<^verbatim>\<open>pgbackrest info --output=json\<close> lays it out; \<open>extra\<close>
  are members of the stanza object the struct has no field for.
\<close>

definition int64 :: "int \<Rightarrow> bool" where "int64 i \<longleftrightarrow> - (2 ^ 63) \<le> i \<and> i < 2 ^ 63"

definition json_int :: "int \<Rightarrow> json" where "json_int i = JNum (itoa i)"

definition report_lsn :: "PgbackrestBackupLSN \<Rightarrow> json" where
  "report_lsn s = JObj [(''start'', JStr (lsn_Start s)), (''stop'', JStr (lsn_Stop s))]"
definition report_db :: "PgbackrestBackupDatabase \<Rightarrow> json" where
  "report_db s = JObj [(''id'', json_int (db_ID s)), (''repo_key'', json_int (db_RepoKey s)),
     (''system-id'', json_int (db_SystemID s)), (''version'', JStr (db_Version s))]"
definition report_wa :: "PgbackrestWALArchive \<Rightarrow> json" where
  "report_wa s = JObj [(''database'', report_db (wa_Database s)), (''id'', JStr (wa_ID s)),
     (''max'', JStr (wa_Max s)), (''min'', JStr (wa_Min s))]"
definition report_bw :: "PgbackrestBackupWALArchive \<Rightarrow> json" where
  "report_bw s = JObj [(''start'', JStr (bw_Start s)), (''stop'', JStr (bw_Stop s))]"
definition report_time :: "PgbackrestBackupTime \<Rightarrow> json" where
  "report_time s = JObj [(''start'', json_int (time_Start s)), (''stop'', json_int (time_Stop s))]"
definition report_backup :: "PgbackrestBackup \<Rightarrow> json" where
  "report_backup b = JObj [
     (''annotation'', JObj (map (\<lambda>(k, v). (k, JStr v)) (bk_Annotations b))),
     (''archive'', report_bw (bk_WAL b)), (''label'', JStr (bk_ID b)), (''lsn'', report_lsn (bk_LSN b)),
     (''prior'', JStr (bk_Prior b)), (''timestamp'', report_time (bk_Time b)), (''type'', JStr (bk_Type b))]"
definition report_status :: "PgbackrestStanzaStatus \<Rightarrow> json" where
  "report_status s = JObj [(''code'', json_int (st_Code s)), (''message'', JStr (st_Message s))]"
definition report_catalog :: "(string \<times> json) list \<Rightarrow> Catalog \<Rightarrow> json" where
  "report_catalog extra c = JObj ([
     (''archive'', JArr (map report_wa (cat_Archive c))),
     (''backup'', JArr (map report_backup (cat_Backups c))),
     (''cipher'', JStr (cat_Encryption c)), (''db'', JArr (map report_db (cat_Databases c))),
     (''name'', JStr (cat_Stanza c)), (''status'', report_status (cat_Status c))] @ extra)"

fun reportable_db :: "PgbackrestBackupDatabase \<Rightarrow> bool" where
  "reportable_db s \<longleftrightarrow> int64 (db_ID s) \<and> int64 (db_RepoKey s) \<and> int64 (db_SystemID s)"
fun reportable_backup :: "PgbackrestBackup \<Rightarrow> bool" where
  "reportable_backup b \<longleftrightarrow> distinct (map fst (bk_Annotations b))
     \<and> int64 (time_Start (bk_Time b)) \<and> int64 (time_Stop (bk_Time b))"
fun reportable :: "Catalog \<Rightarrow> bool" where
  "reportable c \<longleftrightarrow> (\<forall>w \<in> set (cat_Archive c). reportable_db (wa_Database w))
     \<and> (\<forall>b \<in> set (cat_Backups c). reportable_backup b)
     \<and> (\<forall>d \<in> set (cat_Databases c). reportable_db d) \<and> int64 (st_Code (cat_Status c))"

lemma store_json_int: "int64 i \<Longrightarrow> store_int (json_int i) old = Some i"
  by (simp add: int64_def json_int_def ParseInt_itoa)

lemma store_report_db: "reportable_db d \<Longrightarrow> store_db (report_db d) old = Some d"
  by (simp add: report_db_def store_db_def field_for_tag store_json_int)

lemma store_report_wa: "reportable_db (wa_Database w) \<Longrightarrow> store_wa (report_wa w) old = Some w"
  by (simp add: report_wa_def store_wa_def field_for_tag store_report_db)

lemma store_report_leaves:
  "store_lsn (report_lsn l) old = Some l" "store_bw (report_bw w) old' = Some w"
  by (simp_all add: report_lsn_def store_lsn_def report_bw_def store_bw_def field_for_tag)

lemma store_report_time:
  "int64 (time_Start t) \<Longrightarrow> int64 (time_Stop t) \<Longrightarrow> store_time (report_time t) old = Some t"
  by (simp add: report_time_def store_time_def field_for_tag store_json_int)

lemma store_report_status: "int64 (st_Code s) \<Longrightarrow> store_status (report_status s) old = Some s"
  by (simp add: report_status_def store_status_def field_for_tag store_json_int)

lemma store_report_backup:
  assumes "reportable_backup b" shows "store_backup (report_backup b) zero_backup = Some b"
  using assms store_entries_map [of "[]" "bk_Annotations b"]
  by (simp add: report_backup_def store_backup_def field_for_tag store_report_time
      store_report_leaves zero_backup_def)

lemma store_fields_unknown:
  "\<forall>(k, j) \<in> set es. field_for tags k = None \<Longrightarrow> store_fields tags f es s = Some s"
  by (induction es) auto

definition catalog_tags :: "string list" where
  "catalog_tags = [''archive'', ''backup'', ''name'', ''db'', ''cipher'', ''status'']"

lemma store_report_catalog:
  assumes "reportable c" "\<forall>(k, j) \<in> set extra. field_for catalog_tags k = None"
  shows "store_catalog (report_catalog extra c) zero_catalog = Some c"
  using assms
  by (simp add: report_catalog_def store_catalog_def field_for_tag store_report_status
      store_fields_unknown catalog_tags_def store_elems_map store_report_wa store_report_backup
      store_report_db)



end
