(* ===== verification/Plugin_Config.thy ===== *)
theory Plugin_Config
  imports Catalog
begin

text \<open>
  The plugin's view of a cluster (\<^verbatim>\<open>internal/cnpgi/operator/config/config.go\<close>):
  which Archive objects and stanzas are used for archiving, recovery and the replica source. The
  cluster is the data of the CloudNativePG API the plugin reads; the methods of that API
  (\<^verbatim>\<open>IsReplica\<close>, \<^verbatim>\<open>ExternalCluster\<close>, \<^verbatim>\<open>IsEnabled\<close>) and
  the object decoder are parameters.
\<close>

section \<open>Clusters\<close>

text \<open>A nil parameter map is \<open>None\<close>: the code tells it from an empty one.\<close>

record PluginSpec =
  pl_Name :: string
  pl_Enabled :: "bool option"
  pl_Parameters :: "(string \<times> string) list option"

record ExternalCluster =
  ec_Name :: string
  ec_ConnectionParameters :: "(string \<times> string) list option"
  ec_PluginConfiguration :: "PluginSpec option"

record ReplicaClusterConfiguration =
  rc_Source :: string
  rc_PromotionToken :: string
  rc_Enabled :: "bool option"

record BootstrapRecovery =
  br_Source :: string
  br_RecoveryTarget :: "recoveryTarget option"

record Cluster =
  cl_Name :: string
  cl_Namespace :: string
  cl_Annotations :: "(string \<times> string) list"
  cl_Plugins :: "PluginSpec list"
  cl_ExternalClusters :: "ExternalCluster list"
  cl_Bootstrap :: "BootstrapRecovery option option"
  cl_ReplicaCluster :: "ReplicaClusterConfiguration option"
  cl_CurrentPrimary :: string
  cl_LastPromotionToken :: string
  cl_ImagePullPolicy :: string
  cl_WalStorage :: bool

text \<open>
  \<open>cl_Bootstrap\<close> is \<open>None\<close> without a bootstrap section, \<open>Some None\<close> without
  a recovery section in it; \<open>cl_WalStorage\<close> says whether there is a section for a WAL volume.
\<close>

record cnpg =
  cn_IsEnabled :: "PluginSpec \<Rightarrow> bool"
  cn_IsReplica :: "Cluster \<Rightarrow> bool"
  cn_ExternalCluster :: "Cluster \<Rightarrow> string \<Rightarrow> ExternalCluster option"
  cn_DecodeCluster :: "string \<Rightarrow> Cluster go"

definition PluginName :: string where "PluginName = ''pgbackrest.cnpg.opera.com''"

definition CheckEmptyWalArchiveFile :: string where
  "CheckEmptyWalArchiveFile = ''.check-empty-wal-archive''"

record GetPluginMetadataResponse =
  md_Name :: string
  md_Version :: string
  md_DisplayName :: string
  md_ProjectUrl :: string
  md_RepositoryUrl :: string
  md_License :: string
  md_LicenseUrl :: string
  md_Maturity :: string

definition Data :: GetPluginMetadataResponse where
  "Data = \<lparr>md_Name = PluginName, md_Version = ''0.7.0'', md_DisplayName = ''pgBackRestInstance'',
     md_ProjectUrl = ''https://github.com/operasoftware/cnpg-plugin-pgbackrest'',
     md_RepositoryUrl = ''https://github.com/operasoftware/cnpg-plugin-pgbackrest'',
     md_License = ''APACHE 2.0'',
     md_LicenseUrl = ''https://github.com/operasoftware/cnpg-plugin-pgbackrest/LICENSE'',
     md_Maturity = ''alpha''\<rparr>"

definition param :: "(string \<times> string) list option \<Rightarrow> string \<Rightarrow> string" where
  "param ps k = (case ps of None \<Rightarrow> '''' | Some m \<Rightarrow> (case map_of m k of None \<Rightarrow> '''' | Some v \<Rightarrow> v))"

section \<open>Configuration errors\<close>

record ConfigurationError =
  ce_messages :: "string list"

fun join_messages :: "string list \<Rightarrow> string" where
  "join_messages [] = ''''"
| "join_messages [m] = m"
| "join_messages (m # n # ms) = m @ '','' @ join_messages (n # ms)"

definition ConfigurationError_Error :: "ConfigurationError \<Rightarrow> string" where
  "ConfigurationError_Error e = join_messages (ce_messages e)"

definition NewConfigurationError :: ConfigurationError where
  "NewConfigurationError = \<lparr>ce_messages = []\<rparr>"

definition WithMessage :: "ConfigurationError option \<Rightarrow> string \<Rightarrow> ConfigurationError" where
  "WithMessage e msg =
     (case e of None \<Rightarrow> \<lparr>ce_messages = [msg]\<rparr> | Some e \<Rightarrow> \<lparr>ce_messages = ce_messages e @ [msg]\<rparr>)"

definition IsEmpty :: "ConfigurationError \<Rightarrow> bool" where
  "IsEmpty e \<longleftrightarrow> length (ce_messages e) = 0"

section \<open>The configuration of the plugin\<close>

type_synonym NamespacedName = "string \<times> string"

record PluginConfiguration =
  pc_Cluster :: Cluster
  pc_PgbackrestObjectName :: string
  pc_Stanza :: string
  pc_RecoveryPgbackrestObjectName :: string
  pc_RecoveryStanza :: string
  pc_ReplicaSourcePgbackrestObjectName :: string
  pc_ReplicaSourceStanza :: string

definition GetArchiveObjectKey :: "PluginConfiguration \<Rightarrow> NamespacedName" where
  "GetArchiveObjectKey config = (cl_Namespace (pc_Cluster config), pc_PgbackrestObjectName config)"

definition GetRecoveryArchiveObjectKey :: "PluginConfiguration \<Rightarrow> NamespacedName" where
  "GetRecoveryArchiveObjectKey config =
     (cl_Namespace (pc_Cluster config), pc_RecoveryPgbackrestObjectName config)"

definition GetReplicaSourceArchiveObjectKey :: "PluginConfiguration \<Rightarrow> NamespacedName" where
  "GetReplicaSourceArchiveObjectKey config =
     (cl_Namespace (pc_Cluster config), pc_ReplicaSourcePgbackrestObjectName config)"

definition addUnique :: "NamespacedName \<Rightarrow> NamespacedName list \<Rightarrow> NamespacedName list" where
  "addUnique key result = (if key \<in> set result then result else result @ [key])"

definition GetReferredArchiveObjectsKey :: "PluginConfiguration \<Rightarrow> NamespacedName list" where
  "GetReferredArchiveObjectsKey config =
     (let r1 = (if 0 < length (pc_PgbackrestObjectName config)
                then addUnique (GetArchiveObjectKey config) [] else []);
          r2 = (if 0 < length (pc_RecoveryPgbackrestObjectName config)
                then addUnique (GetRecoveryArchiveObjectKey config) r1 else r1)
      in if 0 < length (pc_ReplicaSourcePgbackrestObjectName config)
         then addUnique (GetReplicaSourceArchiveObjectKey config) r2 else r2)"

section \<open>Reading it from the cluster\<close>

record Plugin =
  pg_Cluster :: Cluster
  pg_Parameters :: "(string \<times> string) list option"
  pg_PluginIndex :: int

fun plugin_loop :: "string \<Rightarrow> int \<Rightarrow> PluginSpec list \<Rightarrow> Plugin \<Rightarrow> Plugin" where
  "plugin_loop pluginName idx [] result = result"
| "plugin_loop pluginName idx (cfg # cfgs) result =
     plugin_loop pluginName (idx + 1) cfgs
       (if pl_Name cfg = pluginName
        then result\<lparr>pg_PluginIndex := idx, pg_Parameters := pl_Parameters cfg\<rparr> else result)"

definition NewPlugin :: "Cluster \<Rightarrow> string \<Rightarrow> Plugin" where
  "NewPlugin cluster pluginName =
     plugin_loop pluginName 0 (cl_Plugins cluster)
       \<lparr>pg_Cluster = cluster, pg_Parameters = None, pg_PluginIndex = -1\<rparr>"

definition getRecoverySourcePlugin :: "cnpg \<Rightarrow> Cluster \<Rightarrow> PluginSpec option" where
  "getRecoverySourcePlugin cn cluster =
     (case cl_Bootstrap cluster of
        None \<Rightarrow> None
      | Some None \<Rightarrow> None
      | Some (Some recovery) \<Rightarrow>
          if length (br_Source recovery) = 0 then None
          else case cn_ExternalCluster cn cluster (br_Source recovery) of
                 None \<Rightarrow> None
               | Some recoveryExternalCluster \<Rightarrow> ec_PluginConfiguration recoveryExternalCluster)"

definition getReplicaSourcePlugin :: "cnpg \<Rightarrow> Cluster \<Rightarrow> PluginSpec option" where
  "getReplicaSourcePlugin cn cluster =
     (case cl_ReplicaCluster cluster of
        None \<Rightarrow> None
      | Some rc \<Rightarrow>
          if length (rc_Source rc) = 0 then None
          else case cn_ExternalCluster cn cluster (rc_Source rc) of
                 None \<Rightarrow> None
               | Some recoveryExternalCluster \<Rightarrow> ec_PluginConfiguration recoveryExternalCluster)"

definition plugin_parameters :: "PluginSpec option \<Rightarrow> (string \<times> string) list option" where
  "plugin_parameters p =
     (case p of
        None \<Rightarrow> None
      | Some c \<Rightarrow> if pl_Name c \<noteq> PluginName then None else pl_Parameters c)"

definition getRecoveryParameters :: "cnpg \<Rightarrow> Cluster \<Rightarrow> (string \<times> string) list option" where
  "getRecoveryParameters cn cluster = plugin_parameters (getRecoverySourcePlugin cn cluster)"

definition getReplicaSourceParameters :: "cnpg \<Rightarrow> Cluster \<Rightarrow> (string \<times> string) list option" where
  "getReplicaSourceParameters cn cluster = plugin_parameters (getReplicaSourcePlugin cn cluster)"

text \<open>The stanza: the parameter of the last enabled entry of this plugin that has one.\<close>

fun stanza_loop :: "cnpg \<Rightarrow> PluginSpec list \<Rightarrow> string \<Rightarrow> string" where
  "stanza_loop cn [] stanza = stanza"
| "stanza_loop cn (plugin # plugins) stanza =
     stanza_loop cn plugins
       (if cn_IsEnabled cn plugin \<and> pl_Name plugin = PluginName
        then (case pl_Parameters plugin of
                None \<Rightarrow> stanza
              | Some m \<Rightarrow> (case map_of m ''stanza'' of None \<Rightarrow> stanza | Some s \<Rightarrow> s))
        else stanza)"

definition source_stanza :: "Cluster \<Rightarrow> (string \<times> string) list option \<Rightarrow> string" where
  "source_stanza cluster parameters =
     (if parameters = None then ''''
      else if length (param parameters ''stanza'') = 0 then cl_Name cluster
      else param parameters ''stanza'')"

definition NewFromCluster :: "cnpg \<Rightarrow> Cluster \<Rightarrow> PluginConfiguration" where
  "NewFromCluster cn cluster =
     (let helper = NewPlugin cluster PluginName;
          recoveryParameters = getRecoveryParameters cn cluster;
          replicaSourceParameters = getReplicaSourceParameters cn cluster
      in \<lparr>pc_Cluster = cluster,
          pc_PgbackrestObjectName = param (pg_Parameters helper) ''pgbackrestObjectName'',
          pc_Stanza = stanza_loop cn (cl_Plugins cluster) (cl_Name cluster),
          pc_RecoveryPgbackrestObjectName = param recoveryParameters ''pgbackrestObjectName'',
          pc_RecoveryStanza = source_stanza cluster recoveryParameters,
          pc_ReplicaSourcePgbackrestObjectName = param replicaSourceParameters ''pgbackrestObjectName'',
          pc_ReplicaSourceStanza = source_stanza cluster replicaSourceParameters\<rparr>)"

definition NewFromClusterJSON :: "cnpg \<Rightarrow> string \<Rightarrow> PluginConfiguration go" where
  "NewFromClusterJSON cn clusterJSON =
     bindG (cn_DecodeCluster cn clusterJSON) (\<lambda>result. Ret (NewFromCluster cn result))"

text \<open>\<^verbatim>\<open>Validate\<close> returns nil or an error with one message.\<close>

definition Validate :: "PluginConfiguration \<Rightarrow> ConfigurationError option" where
  "Validate config =
     (if length (pc_PgbackrestObjectName config) = 0 \<and> length (pc_RecoveryPgbackrestObjectName config) = 0
      then Some (WithMessage (Some NewConfigurationError)
             ''no reference to pgbackrestObjectName have been included'')
      else None)"

section \<open>Properties\<close>

text \<open>
  The Archive objects a cluster refers to: each of the names used for archiving, recovery and
  the replica source that is set, in the namespace of the cluster, once.
\<close>

theorem GetReferredArchiveObjectsKey_dedup:
  "distinct (GetReferredArchiveObjectsKey config) \<and>
   set (GetReferredArchiveObjectsKey config) = Pair (cl_Namespace (pc_Cluster config)) `
     ({pc_PgbackrestObjectName config, pc_RecoveryPgbackrestObjectName config,
       pc_ReplicaSourcePgbackrestObjectName config} - {''''})"
  by (auto simp: GetReferredArchiveObjectsKey_def addUnique_def Let_def GetArchiveObjectKey_def
      GetRecoveryArchiveObjectKey_def GetReplicaSourceArchiveObjectKey_def)

definition stanza_param :: "PluginSpec \<Rightarrow> string option" where
  "stanza_param p = Option.bind (pl_Parameters p) (\<lambda>m. map_of m ''stanza'')"

lemma plugin_loop_find:
  "pg_Parameters (plugin_loop n i ps r) =
     (case find (\<lambda>p. pl_Name p = n) (rev ps) of None \<Rightarrow> pg_Parameters r | Some p \<Rightarrow> pl_Parameters p)"
proof (induction ps arbitrary: i r)
  case (Cons p ps)
  then show ?case by (cases "find (\<lambda>p. pl_Name p = n) (rev ps)") (auto simp: find_append)
qed simp

lemma stanza_loop_find:
  "stanza_loop cn ps s =
     (case find (\<lambda>p. cn_IsEnabled cn p \<and> pl_Name p = PluginName \<and> stanza_param p \<noteq> None) (rev ps) of
        None \<Rightarrow> s
      | Some p \<Rightarrow> the (stanza_param p))"
proof (induction ps arbitrary: s)
  case (Cons p ps)
  then show ?case
    by (cases "find (\<lambda>p. cn_IsEnabled cn p \<and> pl_Name p = PluginName \<and> stanza_param p \<noteq> None) (rev ps)")
      (auto simp: find_append stanza_param_def split: option.splits)
qed simp

text \<open>
  What archiving uses: the stanza named by the last enabled entry of this plugin that names one,
  or the cluster's name; the Archive object named by the last entry of this plugin, enabled or not.
\<close>

theorem NewFromCluster_reads_plugins:
  "pc_Stanza (NewFromCluster cn cluster) =
     (case find (\<lambda>p. cn_IsEnabled cn p \<and> pl_Name p = PluginName \<and> stanza_param p \<noteq> None)
             (rev (cl_Plugins cluster)) of
        None \<Rightarrow> cl_Name cluster
      | Some p \<Rightarrow> the (stanza_param p))
   \<and> pc_PgbackrestObjectName (NewFromCluster cn cluster) =
     (case find (\<lambda>p. pl_Name p = PluginName) (rev (cl_Plugins cluster)) of
        None \<Rightarrow> ''''
      | Some p \<Rightarrow> param (pl_Parameters p) ''pgbackrestObjectName'')"
  by (auto simp: NewFromCluster_def Let_def NewPlugin_def stanza_loop_find plugin_loop_find param_def
      split: option.splits)

text \<open>A disabled entry still decides which Archive object is used.\<close>

lemma disabled_entry_names_archive:
  assumes "\<not> cn_IsEnabled cn p" "pl_Name p = PluginName" "cl_Plugins cluster = [p]"
  shows "pc_PgbackrestObjectName (NewFromCluster cn cluster) = param (pl_Parameters p) ''pgbackrestObjectName''
    \<and> pc_Stanza (NewFromCluster cn cluster) = cl_Name cluster"
  using assms by (simp add: NewFromCluster_def Let_def NewPlugin_def)

lemma recovery_source_named:
  "pc_RecoveryPgbackrestObjectName (NewFromCluster cn cluster) \<noteq> '''' \<Longrightarrow>
     pc_RecoveryStanza (NewFromCluster cn cluster) =
       (if param (getRecoveryParameters cn cluster) ''stanza'' = '''' then cl_Name cluster
        else param (getRecoveryParameters cn cluster) ''stanza'')"
  by (auto simp: NewFromCluster_def Let_def source_stanza_def param_def split: option.splits)

section \<open>An example\<close>

definition cluster_example :: Cluster where
  "cluster_example = \<lparr>cl_Name = ''c'', cl_Namespace = ''ns'', cl_Annotations = [],
     cl_Plugins = [\<lparr>pl_Name = PluginName, pl_Enabled = None, pl_Parameters = Some [(''pgbackrestObjectName'', ''a'')]\<rparr>],
     cl_ExternalClusters = [], cl_Bootstrap = None, cl_ReplicaCluster = None,
     cl_CurrentPrimary = ''c-1'', cl_LastPromotionToken = '''',
     cl_ImagePullPolicy = ''Always'', cl_WalStorage = False\<rparr>"

definition cnpg_example :: cnpg where
  "cnpg_example = \<lparr>cn_IsEnabled = (\<lambda>p. pl_Enabled p \<noteq> Some False), cn_IsReplica = (\<lambda>c. False),
     cn_ExternalCluster = (\<lambda>c n. None), cn_DecodeCluster = (\<lambda>s. Ret cluster_example)\<rparr>"

end
