(* ===== verification/Option_Lists.thy ===== *)
theory Option_Lists
  imports Go_Strings
begin

text \<open>
  The contracts of the functions that build command lines. Every such function takes the options
  collected so far and returns them extended. \<open>option_extender\<close> is what all of them promise:
  the call succeeds and keeps the options it was given, in place, at the front.
  \<open>option_appender\<close> is the stronger promise of those that add the same flags whatever came
  before. The pipelines compose them, as the callers do.
\<close>

locale option_extender =
  fixes app :: "string list \<Rightarrow> string list go"
  assumes extends: "\<exists>more. app opts = Ret (opts @ more)"
begin

lemma succeeds: "returns (app opts)"
  using extends [of opts] by auto

lemma keeps_prefix: "app opts = Ret opts' \<Longrightarrow> prefix opts opts'"
  using extends [of opts] by auto

lemma keeps_members: "app opts = Ret opts' \<Longrightarrow> set opts \<subseteq> set opts'"
  using extends [of opts] by auto

lemma never_fails: "app opts \<noteq> Fail e" "app opts \<noteq> Panic m"
  using extends [of opts] by auto

end

locale option_appender =
  fixes app :: "string list \<Rightarrow> string list go"
    and flags :: "string list"
  assumes app_flags: "app opts = Ret (opts @ flags)"
begin

lemma bind_app: "bindG (app opts) k = k (opts @ flags)"
  by (simp add: app_flags)

end

sublocale option_appender \<subseteq> option_extender app
  by unfold_locales (simp add: app_flags)

text \<open>Two steps after another, as in \<^verbatim>\<open>options, err = f(options); options, err = g(options)\<close>.\<close>

locale option_pipeline =
  first: option_extender f + second: option_extender g
  for f g :: "string list \<Rightarrow> string list go"
begin

lemma pipeline_extends: "\<exists>more. bindG (f opts) g = Ret (opts @ more)"
proof -
  obtain m where "f opts = Ret (opts @ m)" using first.extends by blast
  moreover obtain n where "g (opts @ m) = Ret ((opts @ m) @ n)" using second.extends by blast
  ultimately show ?thesis by simp
qed

lemma pipeline_members:
  assumes "bindG (f opts) g = Ret opts'" and "f opts = Ret mid"
  shows "set opts \<subseteq> set mid \<and> set mid \<subseteq> set opts'"
  using assms first.keeps_members second.keeps_members by auto

end

sublocale option_pipeline \<subseteq> option_extender "\<lambda>opts. bindG (f opts) g"
  by unfold_locales (rule pipeline_extends)

text \<open>The key of an option: what stands before the first \<open>=\<close>.\<close>

definition arg_key :: "string \<Rightarrow> string" where
  "arg_key s = hd (split_on (CHR ''='') s)"

lemma arg_key_takeWhile: "arg_key s = takeWhile (\<lambda>c. c \<noteq> CHR ''='') s"
  by (simp add: arg_key_def hd_split_on)

end
