(* ===== verification/Api_Config.thy ===== *)
theory Api_Config
  imports Option_Lists "HOL-Library.Word"
begin

text \<open>
  The configuration objects (\<^verbatim>\<open>internal/pgbackrest/api/config.go\<close>,
  \<^verbatim>\<open>api/v1/archive_types.go\<close>): the fields of an \<^verbatim>\<open>Archive\<close>, the stanza
  creation policy, and the merge of user supplied command line arguments into generated ones.
  Optional pointers are options; a Go map is the list of its entries in the order in which one
  \<^verbatim>\<open>range\<close> visits them (any order: Go does not fix it).
\<close>

section \<open>Data\<close>

record SecretKeySelector =
  sks_Name :: string
  sks_Key :: string

type_synonym EncryptionType = string
type_synonym CompressionType = string
type_synonym KeyType = string

definition EncryptionTypeNone :: EncryptionType where "EncryptionTypeNone = ''''"
definition EncryptionTypeAES256 :: EncryptionType where "EncryptionTypeAES256 = ''aes-256-cbc''"

definition CompressionTypeNone :: CompressionType where "CompressionTypeNone = ''''"
definition CompressionTypeGzip :: CompressionType where "CompressionTypeGzip = ''gz''"
definition CompressionTypeBzip2 :: CompressionType where "CompressionTypeBzip2 = ''bz2''"
definition CompressionTypeLz4 :: CompressionType where "CompressionTypeLz4 = ''lz4''"
definition CompressionTypeZstd :: CompressionType where "CompressionTypeZstd = ''zst''"

definition KeyTypeShared :: KeyType where "KeyTypeShared = ''shared''"
definition KeyTypeAuto :: KeyType where "KeyTypeAuto = ''auto''"
definition KeyTypeWebID :: KeyType where "KeyTypeWebID = ''web-id''"

record S3Credentials =
  s3_KeyType :: KeyType
  s3_AccessKeyIDReference :: "SecretKeySelector option"
  s3_SecretAccessKeyReference :: "SecretKeySelector option"
  s3_Region :: string
  s3_URIStyle :: string

record PgbackrestCredentials =
  cred_AWS :: "S3Credentials option"

record PgbackrestRetention =
  ret_Archive :: "32 word"
  ret_ArchiveType :: string
  ret_Full :: "32 word"
  ret_FullType :: string
  ret_Diff :: "32 word"
  ret_History :: "32 word option"

record WalBackupConfiguration =
  wal_MaxParallel :: int
  wal_ArchiveAdditionalCommandArgs :: "string list"
  wal_RestoreAdditionalCommandArgs :: "string list"

record DataBackupConfiguration =
  data_Jobs :: "32 word option"
  data_ImmediateCheckpoint :: bool
  data_Annotations :: "(string \<times> string) list"
  data_AdditionalCommandArgs :: "string list"

record LogConfiguration =
  log_LevelStderr :: string

record DataRestoreConfiguration =
  rest_Jobs :: "32 word option"
  rest_AdditionalCommandArgs :: "string list"

record PgbackrestRepository =
  repo_Credentials :: PgbackrestCredentials
  repo_Encryption :: EncryptionType
  repo_EncryptionKey :: "SecretKeySelector option"
  repo_EndpointURL :: string
  repo_EndpointCA :: "SecretKeySelector option"
  repo_DisableVerifyTLS :: bool
  repo_DestinationPath :: string
  repo_Bucket :: string
  repo_Retention :: "PgbackrestRetention option"

type_synonym StanzaCreatePolicy = string

definition StanzaCreateOnFirstArchive :: StanzaCreatePolicy where
  "StanzaCreateOnFirstArchive = ''OnFirstArchive''"
definition StanzaCreateOnBackup :: StanzaCreatePolicy where
  "StanzaCreateOnBackup = ''OnBackup''"
definition StanzaCreateDisabled :: StanzaCreatePolicy where
  "StanzaCreateDisabled = ''Disabled''"

record PgbackrestConfiguration =
  cfg_Repositories :: "PgbackrestRepository list"
  cfg_Wal :: "WalBackupConfiguration option"
  cfg_Data :: "DataBackupConfiguration option"
  cfg_Restore :: "DataRestoreConfiguration option"
  cfg_Compression :: CompressionType
  cfg_Stanza :: string
  cfg_Log :: "LogConfiguration option"
  cfg_CreateStanza :: StanzaCreatePolicy

section \<open>Operations\<close>

definition GetCreateStanzaPolicy :: "PgbackrestConfiguration \<Rightarrow> StanzaCreatePolicy" where
  "GetCreateStanzaPolicy c =
     (if cfg_CreateStanza c = '''' then StanzaCreateOnFirstArchive else cfg_CreateStanza c)"

definition ShouldCreateStanzaOnArchive :: "PgbackrestConfiguration \<Rightarrow> bool" where
  "ShouldCreateStanzaOnArchive c \<longleftrightarrow> GetCreateStanzaPolicy c = StanzaCreateOnFirstArchive"

definition ShouldCreateStanzaOnBackup :: "PgbackrestConfiguration \<Rightarrow> bool" where
  "ShouldCreateStanzaOnBackup c \<longleftrightarrow> GetCreateStanzaPolicy c \<noteq> StanzaCreateDisabled"

definition ArePopulated :: "PgbackrestCredentials \<Rightarrow> bool" where
  "ArePopulated credentials \<longleftrightarrow> cred_AWS credentials \<noteq> None"

definition option_keys :: "string list \<Rightarrow> string list" where
  "option_keys options = filter (\<lambda>k. k \<noteq> []) (map arg_key options)"

fun append_args_loop :: "string list \<Rightarrow> string list \<Rightarrow> string list \<Rightarrow> string list" where
  "append_args_loop optionKeys [] options = options"
| "append_args_loop optionKeys (arg # args) options =
     (let key = arg_key arg in
      if key = [] \<or> key \<in> set options \<or> key \<in> set optionKeys
      then append_args_loop optionKeys args options
      else append_args_loop optionKeys args (options @ [arg]))"

definition appendAdditionalCommandArgs :: "string list \<Rightarrow> string list \<Rightarrow> string list" where
  "appendAdditionalCommandArgs additionalCommandArgs options =
     append_args_loop (option_keys options) additionalCommandArgs options"

definition AppendAdditionalRestoreCommandArgs ::
  "DataRestoreConfiguration option \<Rightarrow> string list \<Rightarrow> string list" where
  "AppendAdditionalRestoreCommandArgs cfg options =
     (case cfg of
        None \<Rightarrow> options
      | Some c \<Rightarrow> if rest_AdditionalCommandArgs c = [] then options
                  else appendAdditionalCommandArgs (rest_AdditionalCommandArgs c) options)"

definition AppendAdditionalArchiveGetCommandArgs ::
  "WalBackupConfiguration option \<Rightarrow> string list \<Rightarrow> string list" where
  "AppendAdditionalArchiveGetCommandArgs cfg options =
     (case cfg of
        None \<Rightarrow> options
      | Some c \<Rightarrow> if wal_RestoreAdditionalCommandArgs c = [] then options
                  else appendAdditionalCommandArgs (wal_RestoreAdditionalCommandArgs c) options)"

definition AppendAdditionalBackupCommandArgs ::
  "DataBackupConfiguration option \<Rightarrow> string list \<Rightarrow> string list" where
  "AppendAdditionalBackupCommandArgs cfg options =
     (case cfg of
        None \<Rightarrow> options
      | Some c \<Rightarrow> if data_AdditionalCommandArgs c = [] then options
                  else appendAdditionalCommandArgs (data_AdditionalCommandArgs c) options)"

definition AppendAdditionalArchivePushCommandArgs ::
  "WalBackupConfiguration option \<Rightarrow> string list \<Rightarrow> string list" where
  "AppendAdditionalArchivePushCommandArgs cfg options =
     (case cfg of
        None \<Rightarrow> options
      | Some c \<Rightarrow> if wal_ArchiveAdditionalCommandArgs c = [] then options
                  else appendAdditionalCommandArgs (wal_ArchiveAdditionalCommandArgs c) options)"

section \<open>Merging user arguments\<close>

lemma append_args_loop_shape:
  "\<exists>added. append_args_loop keys args options = options @ added \<and> subseq added args
     \<and> (\<forall>a \<in> set added. arg_key a \<noteq> [] \<and> arg_key a \<notin> set keys \<and> arg_key a \<notin> set options)"
proof (induction keys args options rule: append_args_loop.induct)
  case (2 keys arg args options)
  let ?skip = "arg_key arg = [] \<or> arg_key arg \<in> set options \<or> arg_key arg \<in> set keys"
  show ?case
  proof (cases ?skip)
    case True
    with 2 obtain added where "append_args_loop keys args options = options @ added"
      "subseq added args"
      "\<forall>a \<in> set added. arg_key a \<noteq> [] \<and> arg_key a \<notin> set keys \<and> arg_key a \<notin> set options"
      by (auto simp: Let_def)
    with True show ?thesis by (auto simp: Let_def)
  next
    case False
    with 2 obtain added where "append_args_loop keys args (options @ [arg]) = (options @ [arg]) @ added"
      "subseq added args"
      "\<forall>a \<in> set added. arg_key a \<noteq> [] \<and> arg_key a \<notin> set keys \<and> arg_key a \<notin> set (options @ [arg])"
      by (auto simp: Let_def)
    with False show ?thesis by (intro exI [of _ "arg # added"]) (auto simp: Let_def)
  qed
qed auto

lemma append_args_loop_all_skipped:
  "\<forall>a \<in> set args. arg_key a = [] \<or> arg_key a \<in> set options \<or> arg_key a \<in> set keys \<Longrightarrow>
   append_args_loop keys args options = options"
  by (induction args) (auto simp: Let_def)

lemma append_args_loop_covers:
  "a \<in> set args \<Longrightarrow> arg_key a \<noteq> [] \<Longrightarrow> arg_key a \<notin> set keys \<Longrightarrow>
   a \<in> set (append_args_loop keys args options) \<or> arg_key a \<in> set (append_args_loop keys args options)"
proof (induction keys args options rule: append_args_loop.induct)
  case (2 keys arg args options)
  have sub: "set o' \<subseteq> set (append_args_loop keys args o')" for o'
    using append_args_loop_shape [of keys args o'] by auto
  show ?case
  proof (cases "a = arg")
    case True
    with 2(4,5) sub [of options] sub [of "options @ [arg]"] show ?thesis
      by (auto simp: Let_def)
  next
    case False
    with 2 show ?thesis by (auto simp: Let_def)
  qed
qed simp

lemma option_keys_iff: "k \<in> set (option_keys os) \<longleftrightarrow> k \<noteq> [] \<and> (\<exists>x \<in> set os. arg_key x = k)"
  by (auto simp: option_keys_def)

lemma option_keys_image: "k \<noteq> [] \<Longrightarrow> k \<in> set (option_keys os) \<longleftrightarrow> k \<in> arg_key ` set os"
  by (auto simp: option_keys_def)

lemma arg_key_idem [simp]: "arg_key (arg_key a) = arg_key a"
  by (simp add: arg_key_takeWhile takeWhile_idem)

lemma appendAdditionalCommandArgs_shape:
  obtains added where "appendAdditionalCommandArgs args options = options @ added"
    "subseq added args"
    "\<forall>a \<in> set added. arg_key a \<noteq> [] \<and> arg_key a \<notin> set (option_keys options)"
  using append_args_loop_shape [of "option_keys options" args options]
  by (auto simp: appendAdditionalCommandArgs_def)

text \<open>
  Merging user arguments keeps the generated options in place, adds user arguments in their
  order, adds none whose key (the part before \<open>=\<close>) a generated option already has, and drops
  none otherwise, unless the bare key itself is among the result.
\<close>

theorem appendAdditionalCommandArgs_merges:
  "\<exists>added. appendAdditionalCommandArgs args options = options @ added \<and> subseq added args
     \<and> (\<forall>a \<in> set added. arg_key a \<noteq> [] \<and> arg_key a \<notin> arg_key ` set options)
     \<and> (\<forall>a \<in> set args. arg_key a \<noteq> [] \<and> arg_key a \<notin> arg_key ` set options \<longrightarrow>
           a \<in> set (options @ added) \<or> arg_key a \<in> set (options @ added))"
proof -
  obtain added where r: "appendAdditionalCommandArgs args options = options @ added"
    "subseq added args"
    "\<forall>a \<in> set added. arg_key a \<noteq> [] \<and> arg_key a \<notin> set (option_keys options)"
    by (rule appendAdditionalCommandArgs_shape)
  have "a \<in> set (options @ added) \<or> arg_key a \<in> set (options @ added)"
    if "a \<in> set args" "arg_key a \<noteq> []" "arg_key a \<notin> arg_key ` set options" for a
  proof -
    from that(3) have "arg_key a \<notin> set (option_keys options)" using that(2) by (simp add: option_keys_image)
    from append_args_loop_covers [OF that(1,2) this, of options] r(1) show ?thesis
      by (simp add: appendAdditionalCommandArgs_def)
  qed
  moreover have "arg_key a \<noteq> [] \<and> arg_key a \<notin> arg_key ` set options" if "a \<in> set added" for a
    using r(3) that option_keys_image [of "arg_key a" options] by blast
  ultimately show ?thesis using r by (intro exI [of _ added]) blast
qed

theorem appendAdditionalCommandArgs_merges_witness:
  "''--delta'' \<in> set (appendAdditionalCommandArgs [''--stanza=other'', ''--delta''] [''--stanza'', ''main''])"
proof -
  let ?o = "[''--stanza'', ''main'']" and ?a = "[''--stanza=other'', ''--delta'']"
  have k: "arg_key ''--delta'' = ''--delta''" "arg_key ''--delta'' \<notin> arg_key ` set ?o"
    by (simp_all add: arg_key_def)
  obtain added where r: "appendAdditionalCommandArgs ?a ?o = ?o @ added"
    and all: "\<forall>a \<in> set ?a. arg_key a \<noteq> [] \<and> arg_key a \<notin> arg_key ` set ?o \<longrightarrow>
           a \<in> set (?o @ added) \<or> arg_key a \<in> set (?o @ added)"
    using appendAdditionalCommandArgs_merges [of ?a ?o] by blast
  from all have "arg_key ''--delta'' \<noteq> [] \<and> arg_key ''--delta'' \<notin> arg_key ` set ?o \<longrightarrow>
      ''--delta'' \<in> set (?o @ added) \<or> arg_key ''--delta'' \<in> set (?o @ added)"
    by (rule bspec) simp
  with k have "''--delta'' \<in> set (?o @ added)" by simp
  with r show ?thesis by simp
qed

text \<open>Merging the same user arguments a second time changes nothing.\<close>

theorem appendAdditionalCommandArgs_idem:
  "appendAdditionalCommandArgs args (appendAdditionalCommandArgs args options) =
     appendAdditionalCommandArgs args options"
proof -
  let ?r = "appendAdditionalCommandArgs args options"
  obtain added where r: "?r = options @ added"
    by (rule appendAdditionalCommandArgs_shape)
  have "arg_key a = [] \<or> arg_key a \<in> set ?r \<or> arg_key a \<in> set (option_keys ?r)"
    if "a \<in> set args" for a
  proof (cases "arg_key a \<in> set (option_keys options)")
    case True
    then show ?thesis by (auto simp: r option_keys_iff)
  next
    case False
    then show ?thesis
      using append_args_loop_covers [OF that, of "option_keys options" options]
      by (auto simp: appendAdditionalCommandArgs_def option_keys_iff)
  qed
  then have "append_args_loop (option_keys ?r) args ?r = ?r"
    by (intro append_args_loop_all_skipped) blast
  then show ?thesis by (simp add: appendAdditionalCommandArgs_def)
qed

text \<open>The keys of what a merge adds are new.\<close>

lemma appendAdditionalCommandArgs_fresh:
  "\<exists>extra. appendAdditionalCommandArgs args os = os @ extra
     \<and> arg_key ` set extra \<inter> arg_key ` set os = {}"
proof -
  obtain added where r: "appendAdditionalCommandArgs args os = os @ added"
    and new: "\<forall>a \<in> set added. arg_key a \<noteq> [] \<and> arg_key a \<notin> set (option_keys os)"
    by (rule appendAdditionalCommandArgs_shape)
  have "arg_key a \<notin> arg_key ` set os" if "a \<in> set added" for a
    using new that option_keys_image [of "arg_key a" os] by blast
  then have "arg_key ` set added \<inter> arg_key ` set os = {}" by blast
  with r show ?thesis by blast
qed

lemma AppendAdditional_fresh:
  "\<exists>extra. AppendAdditionalArchiveGetCommandArgs wal os = os @ extra
     \<and> arg_key ` set extra \<inter> arg_key ` set os = {}"
  "\<exists>extra. AppendAdditionalBackupCommandArgs dat os = os @ extra
     \<and> arg_key ` set extra \<inter> arg_key ` set os = {}"
  "\<exists>extra. AppendAdditionalRestoreCommandArgs res os = os @ extra
     \<and> arg_key ` set extra \<inter> arg_key ` set os = {}"
  "\<exists>extra. AppendAdditionalArchivePushCommandArgs wal os = os @ extra
     \<and> arg_key ` set extra \<inter> arg_key ` set os = {}"
  by (simp_all add: AppendAdditionalArchiveGetCommandArgs_def AppendAdditionalBackupCommandArgs_def
      AppendAdditionalRestoreCommandArgs_def AppendAdditionalArchivePushCommandArgs_def
      appendAdditionalCommandArgs_fresh split: option.split)

text \<open>All four merges keep what was generated before them.\<close>

lemma appendAdditionalCommandArgs_extends:
  "\<exists>more. appendAdditionalCommandArgs args options = options @ more"
  by (rule appendAdditionalCommandArgs_shape) blast

interpretation restore_args: option_extender
  "\<lambda>options. Ret (AppendAdditionalRestoreCommandArgs cfg options)" for cfg
  by unfold_locales
    (auto simp: AppendAdditionalRestoreCommandArgs_def appendAdditionalCommandArgs_extends split: option.splits)

interpretation archive_get_args: option_extender
  "\<lambda>options. Ret (AppendAdditionalArchiveGetCommandArgs cfg options)" for cfg
  by unfold_locales
    (auto simp: AppendAdditionalArchiveGetCommandArgs_def appendAdditionalCommandArgs_extends split: option.splits)

interpretation backup_args: option_extender
  "\<lambda>options. Ret (AppendAdditionalBackupCommandArgs cfg options)" for cfg
  by unfold_locales
    (auto simp: AppendAdditionalBackupCommandArgs_def appendAdditionalCommandArgs_extends split: option.splits)

interpretation archive_push_args: option_extender
  "\<lambda>options. Ret (AppendAdditionalArchivePushCommandArgs cfg options)" for cfg
  by unfold_locales
    (auto simp: AppendAdditionalArchivePushCommandArgs_def appendAdditionalCommandArgs_extends split: option.splits)

section \<open>The stanza creation policy\<close>

text \<open>
  The stanza is created while archiving exactly for the policy \<open>OnFirstArchive\<close> or none, and
  while taking a backup unless the policy is \<open>Disabled\<close>.
\<close>

lemma stanza_policy_cases:
  "ShouldCreateStanzaOnArchive c \<longleftrightarrow> cfg_CreateStanza c \<in> {'''', ''OnFirstArchive''}"
  "ShouldCreateStanzaOnBackup c \<longleftrightarrow> cfg_CreateStanza c \<noteq> ''Disabled''"
  by (auto simp: ShouldCreateStanzaOnArchive_def ShouldCreateStanzaOnBackup_def
      GetCreateStanzaPolicy_def StanzaCreateOnFirstArchive_def StanzaCreateDisabled_def)

section \<open>The Archive object\<close>

text \<open>
  Values of the Kubernetes API that the plugin only hands through (resource requirements,
  security contexts, the value part of an environment variable) are kept as their serialised text.
\<close>

type_synonym ResourceRequirements = string
type_synonym SecurityContext = string

record EnvVar =
  ev_Name :: string
  ev_Value :: string

text \<open>The API group of Archive objects, and the types it adds to a scheme.\<close>

definition GroupVersion :: "string \<times> string" where
  "GroupVersion = (''pgbackrest.cnpg.opera.com'', ''v1'')"

definition addKnownTypes :: "((string \<times> string) \<times> string) list \<Rightarrow> unit go \<times> ((string \<times> string) \<times> string) list" where
  "addKnownTypes s = (Ret (), s @ [(GroupVersion, ''Archive''), (GroupVersion, ''ArchiveList'')])"


record InstanceSidecarConfiguration =
  side_Env :: "EnvVar list"
  side_Resources :: ResourceRequirements
  side_SecurityContext :: "SecurityContext option"

record ArchiveSpec =
  spec_Configuration :: PgbackrestConfiguration
  spec_InstanceSidecarConfiguration :: InstanceSidecarConfiguration

record Archive =
  arch_Namespace :: string
  arch_Name :: string
  arch_Spec :: ArchiveSpec

abbreviation archive_cfg :: "Archive \<Rightarrow> PgbackrestConfiguration" where
  "archive_cfg a \<equiv> spec_Configuration (arch_Spec a)"

end
