(* ===== verification/Lifecycle.thy ===== *)
theory Lifecycle
  imports Plugin_Config Api_Config
begin

text \<open>
  The lifecycle hook of the operator (\<^verbatim>\<open>internal/cnpgi/operator/lifecycle.go\<close>):
  the sidecar it adds to the pods of a cluster and to its recovery jobs. Of the Kubernetes objects
  the model has the fields the code reads or writes; what it only copies is kept as text. The
  decoders, the patch generator, the API client and the setting of the sidecar image are
  parameters.
\<close>

section \<open>Pods and jobs\<close>

record VolumeMount =
  vm_Name :: string
  vm_MountPath :: string
  vm_Options :: string

record Volume =
  vol_Name :: string
  vol_Source :: string

record Probe =
  pb_FailureThreshold :: "32 word"
  pb_TimeoutSeconds :: "32 word"
  pb_Command :: "string list"

record Container =
  co_Name :: string
  co_Image :: string
  co_ImagePullPolicy :: string
  co_Args :: "string list"
  co_Env :: "EnvVar list"
  co_VolumeMounts :: "VolumeMount list"
  co_Resources :: ResourceRequirements
  co_SecurityContext :: "SecurityContext option"
  co_StartupProbe :: "Probe option"
  co_RestartPolicy :: "string option"

record PodSpec =
  ps_Volumes :: "Volume list"
  ps_Containers :: "Container list"
  ps_InitContainers :: "Container list"
  ps_Rest :: string

record Pod =
  pod_Name :: string
  pod_Spec :: PodSpec
  pod_Rest :: string

record Job =
  job_Name :: string
  job_TemplateLabels :: "(string \<times> string) list"
  job_TemplateSpec :: PodSpec
  job_Rest :: string

definition kindPod :: string where "kindPod = ''Pod''"
definition kindJob :: string where "kindJob = ''Job''"
definition jobRoleFullRecovery :: string where "jobRoleFullRecovery = ''full-recovery''"

datatype operation_type = TYPE_CREATE | TYPE_EVALUATE

definition Lifecycle_GetCapabilities :: "(string \<times> string \<times> operation_type list) list" where
  "Lifecycle_GetCapabilities =
     [('''', kindPod, [TYPE_CREATE, TYPE_EVALUATE]), (''batch'', kindJob, [TYPE_CREATE])]"

section \<open>Injecting the sidecar\<close>

definition InjectPluginVolumePodSpec :: "PodSpec \<Rightarrow> string \<Rightarrow> PodSpec" where
  "InjectPluginVolumePodSpec spec mainContainerName =
     (if \<exists>v \<in> set (ps_Volumes spec). vol_Name v = ''plugins'' then spec
      else spec\<lparr>ps_Volumes := ps_Volumes spec @ [\<lparr>vol_Name = ''plugins'', vol_Source = ''emptyDir''\<rparr>],
             ps_Containers := map (\<lambda>c. if co_Name c = mainContainerName
               then c\<lparr>co_VolumeMounts := co_VolumeMounts c @
                 [\<lparr>vm_Name = ''plugins'', vm_MountPath = ''/plugins'', vm_Options = ''''\<rparr>]\<rparr>
               else c) (ps_Containers spec)\<rparr>)"

text \<open>The mounts of the last container with the name; \<open>None\<close> if there is none.\<close>

fun main_mounts :: "string \<Rightarrow> Container list \<Rightarrow> VolumeMount list option \<Rightarrow> VolumeMount list option" where
  "main_mounts mainContainerName [] found = found"
| "main_mounts mainContainerName (c # cs) found =
     main_mounts mainContainerName cs (if co_Name c = mainContainerName then Some (co_VolumeMounts c) else found)"

definition InjectPluginSidecarPodSpec :: "PodSpec \<Rightarrow> Container \<Rightarrow> string \<Rightarrow> bool \<Rightarrow> PodSpec go" where
  "InjectPluginSidecarPodSpec spec sidecar mainContainerName injectMainContainerVolumes =
     (let spec = InjectPluginVolumePodSpec spec mainContainerName
      in case main_mounts mainContainerName (ps_Containers spec) None of
           None \<Rightarrow> Fail (ErrMsg ''main container not found'')
         | Some volumeMounts \<Rightarrow>
             if \<exists>c \<in> set (ps_InitContainers spec). co_Name c = co_Name sidecar then Ret spec
             else
               let sidecar = (if injectMainContainerVolumes
                     then sidecar\<lparr>co_VolumeMounts := co_VolumeMounts sidecar @ volumeMounts\<rparr> else sidecar)
               in Ret (spec\<lparr>ps_InitContainers :=
                    ps_InitContainers spec @ [sidecar\<lparr>co_RestartPolicy := Some ''Always''\<rparr>]\<rparr>))"

fun merge_envs :: "EnvVar list \<Rightarrow> EnvVar list \<Rightarrow> EnvVar list" where
  "merge_envs acc [] = acc"
| "merge_envs acc (env # envs) =
     merge_envs (if \<exists>e \<in> set acc. ev_Name e = ev_Name env then acc else acc @ [env]) envs"

fun main_container_envs :: "string \<Rightarrow> Container list \<Rightarrow> EnvVar list \<Rightarrow> EnvVar list" where
  "main_container_envs mainContainerName [] acc = acc"
| "main_container_envs mainContainerName (c # cs) acc =
     (if co_Name c = mainContainerName then merge_envs acc (co_Env c)
      else main_container_envs mainContainerName cs acc)"

definition default_envs :: "Cluster \<Rightarrow> EnvVar list" where
  "default_envs cluster =
     [\<lparr>ev_Name = ''NAMESPACE'', ev_Value = cl_Namespace cluster\<rparr>,
      \<lparr>ev_Name = ''CLUSTER_NAME'', ev_Value = cl_Name cluster\<rparr>,
      \<lparr>ev_Name = ''SPOOL_DIRECTORY'', ev_Value = ''/controller/wal-restore-spool''\<rparr>]"

definition base_probe :: Probe where
  "base_probe = \<lparr>pb_FailureThreshold = 10, pb_TimeoutSeconds = 10,
     pb_Command = [''/manager'', ''healthcheck'', ''unix'']\<rparr>"

definition zero_container :: Container where
  "zero_container = \<lparr>co_Name = '''', co_Image = '''', co_ImagePullPolicy = '''', co_Args = [], co_Env = [],
     co_VolumeMounts = [], co_Resources = '''', co_SecurityContext = None, co_StartupProbe = None,
     co_RestartPolicy = None\<rparr>"

definition sidecar_container ::
  "string \<Rightarrow> Cluster \<Rightarrow> PodSpec \<Rightarrow> string \<Rightarrow> Container \<Rightarrow> EnvVar list \<Rightarrow>
   ResourceRequirements option \<Rightarrow> SecurityContext option \<Rightarrow> Container" where
  "sidecar_container img cluster spec mainContainerName sidecarConfig additionalEnvs resources securityContext =
     (let envs = default_envs cluster @ additionalEnvs;
          c1 = sidecarConfig\<lparr>co_Name := ''plugin-pgbackrest'', co_Image := img,
                 co_ImagePullPolicy := cl_ImagePullPolicy cluster, co_StartupProbe := Some base_probe\<rparr>;
          c2 = c1\<lparr>co_Env := main_container_envs mainContainerName (ps_Containers spec) (co_Env c1)\<rparr>;
          c3 = c2\<lparr>co_Env := merge_envs (co_Env c2) envs\<rparr>;
          c4 = (case resources of None \<Rightarrow> c3 | Some r \<Rightarrow> c3\<lparr>co_Resources := r\<rparr>)
      in (case securityContext of None \<Rightarrow> c4 | Some sc \<Rightarrow> c4\<lparr>co_SecurityContext := Some sc\<rparr>))"

definition reconcilePodSpec ::
  "string \<Rightarrow> Cluster \<Rightarrow> PodSpec \<Rightarrow> string \<Rightarrow> Container \<Rightarrow> EnvVar list \<Rightarrow>
   ResourceRequirements option \<Rightarrow> SecurityContext option \<Rightarrow> PodSpec go" where
  "reconcilePodSpec img cluster spec mainContainerName sidecarConfig additionalEnvs resources securityContext =
     InjectPluginSidecarPodSpec spec
       (sidecar_container img cluster spec mainContainerName sidecarConfig additionalEnvs resources securityContext)
       mainContainerName True"

section \<open>The hook\<close>

text \<open>
  The operation type is what \<^verbatim>\<open>GetOperationType().GetType().Enum()\<close> gives: a
  pointer, which generated protobuf code documents as never nil.
\<close>

record lifecycle_request =
  rq_OperationType :: "string option"
  rq_ObjectDefinition :: string
  rq_ClusterDefinition :: string

record lifecycle_host =
  lh_GetKind :: "string \<Rightarrow> string go"
  lh_DecodeCluster :: "string \<Rightarrow> Cluster go"
  lh_DecodePod :: "string \<Rightarrow> Pod go"
  lh_DecodeJob :: "string \<Rightarrow> Job go"
  lh_PodPatch :: "Pod \<Rightarrow> Pod \<Rightarrow> string go"
  lh_JobPatch :: "Job \<Rightarrow> Job \<Rightarrow> string go"
  lh_GetArchive :: "NamespacedName \<Rightarrow> Archive go"
  lh_GetRecoverySourcePlugin :: "Cluster \<Rightarrow> PluginSpec option"
  lh_JobRoleLabelName :: string
  lh_SidecarImage :: string

definition zero_archive :: Archive where
  "zero_archive = \<lparr>arch_Namespace = '''', arch_Name = '''', arch_Spec = \<lparr>spec_Configuration =
     \<lparr>cfg_Repositories = [], cfg_Wal = None, cfg_Data = None, cfg_Restore = None, cfg_Compression = '''',
      cfg_Stanza = '''', cfg_Log = None, cfg_CreateStanza = ''''\<rparr>,
     spec_InstanceSidecarConfiguration = \<lparr>side_Env = [], side_Resources = '''', side_SecurityContext = None\<rparr>\<rparr>\<rparr>"

definition calculateSidecarResources :: "Archive option \<Rightarrow> ResourceRequirements option" where
  "calculateSidecarResources archive =
     (case archive of None \<Rightarrow> None
      | Some a \<Rightarrow> Some (side_Resources (spec_InstanceSidecarConfiguration (arch_Spec a))))"

definition calculateSidecarSecurityContext :: "Archive option \<Rightarrow> SecurityContext option" where
  "calculateSidecarSecurityContext archive =
     (case archive of None \<Rightarrow> None
      | Some a \<Rightarrow> side_SecurityContext (spec_InstanceSidecarConfiguration (arch_Spec a)))"

definition get_named_archive :: "lifecycle_host \<Rightarrow> string \<Rightarrow> string \<Rightarrow> Archive go" where
  "get_named_archive lh namespace name =
     (if length name > 0 then lh_GetArchive lh (namespace, name) else Ret zero_archive)"

definition getArchives ::
  "lifecycle_host \<Rightarrow> string \<Rightarrow> PluginConfiguration \<Rightarrow> (Archive option \<times> Archive option) go" where
  "getArchives lh namespace pluginConfiguration =
     bindG (get_named_archive lh namespace (pc_PgbackrestObjectName pluginConfiguration)) (\<lambda>archive.
     bindG (get_named_archive lh namespace (pc_RecoveryPgbackrestObjectName pluginConfiguration)) (\<lambda>recoveryArchive.
       Ret (Some archive, Some recoveryArchive)))"

definition collectArchiveEnvs :: "Archive \<Rightarrow> EnvVar list" where
  "collectArchiveEnvs archive = side_Env (spec_InstanceSidecarConfiguration (arch_Spec archive))"

definition collectAdditionalEnvs :: "Archive option \<Rightarrow> Archive option \<Rightarrow> EnvVar list" where
  "collectAdditionalEnvs archive recoveryArchive =
     (case archive of None \<Rightarrow> [] | Some a \<Rightarrow> collectArchiveEnvs a)
     @ (case recoveryArchive of None \<Rightarrow> [] | Some a \<Rightarrow> collectArchiveEnvs a)"

text \<open>The response is the patch, or none.\<close>

definition reconcileJob_with ::
  "lifecycle_host \<Rightarrow> Cluster \<Rightarrow> lifecycle_request \<Rightarrow> EnvVar list \<Rightarrow> ResourceRequirements option \<Rightarrow>
   SecurityContext option \<Rightarrow> string option go" where
  "reconcileJob_with lh cluster request env resources securityContext =
     (if (case lh_GetRecoverySourcePlugin lh cluster of None \<Rightarrow> True | Some p \<Rightarrow> pl_Name p \<noteq> PluginName)
      then Ret None
      else
        bindG (lh_DecodeJob lh (rq_ObjectDefinition request)) (\<lambda>job.
          if (case map_of (job_TemplateLabels job) (lh_JobRoleLabelName lh) of
                None \<Rightarrow> '''' | Some v \<Rightarrow> v) \<noteq> jobRoleFullRecovery then Ret None
          else
            bindG (wrapG ''while reconciling pod spec for job''
                     (reconcilePodSpec (lh_SidecarImage lh) cluster (job_TemplateSpec job) jobRoleFullRecovery
                       (zero_container\<lparr>co_Args := [''restore'']\<rparr>) env resources securityContext)) (\<lambda>spec.
            bindG (lh_JobPatch lh (job\<lparr>job_TemplateSpec := spec\<rparr>) job) (\<lambda>patch. Ret (Some patch)))))"

definition reconcileJob ::
  "lifecycle_host \<Rightarrow> Cluster \<Rightarrow> lifecycle_request \<Rightarrow> PluginConfiguration \<Rightarrow> string option go" where
  "reconcileJob lh cluster request pluginConfiguration =
     bindG (getArchives lh (cl_Namespace cluster) pluginConfiguration) (\<lambda>(archive, recoveryArchive).
       reconcileJob_with lh cluster request (collectAdditionalEnvs archive recoveryArchive)
         (calculateSidecarResources recoveryArchive) (calculateSidecarSecurityContext recoveryArchive))"

definition reconcilePod_with ::
  "lifecycle_host \<Rightarrow> Cluster \<Rightarrow> lifecycle_request \<Rightarrow> PluginConfiguration \<Rightarrow> EnvVar list \<Rightarrow>
   ResourceRequirements option \<Rightarrow> SecurityContext option \<Rightarrow> string option go" where
  "reconcilePod_with lh cluster request pluginConfiguration env resources securityContext =
     bindG (lh_DecodePod lh (rq_ObjectDefinition request)) (\<lambda>pod.
     bindG (if length (pc_PgbackrestObjectName pluginConfiguration) \<noteq> 0
            then bindG (wrapG ''while reconciling pod spec for pod''
                   (reconcilePodSpec (lh_SidecarImage lh) cluster (pod_Spec pod) ''postgres''
                     (zero_container\<lparr>co_Args := [''instance'']\<rparr>) env resources securityContext))
                   (\<lambda>spec. Ret (pod\<lparr>pod_Spec := spec\<rparr>))
            else Ret pod) (\<lambda>mutatedPod.
     bindG (lh_PodPatch lh mutatedPod pod) (\<lambda>patch. Ret (Some patch))))"

definition reconcilePod ::
  "lifecycle_host \<Rightarrow> Cluster \<Rightarrow> lifecycle_request \<Rightarrow> PluginConfiguration \<Rightarrow> string option go" where
  "reconcilePod lh cluster request pluginConfiguration =
     bindG (getArchives lh (cl_Namespace cluster) pluginConfiguration) (\<lambda>(archive, recoveryArchive).
       reconcilePod_with lh cluster request pluginConfiguration (collectAdditionalEnvs archive recoveryArchive)
         (calculateSidecarResources archive) (calculateSidecarSecurityContext archive))"

definition LifecycleHook :: "lifecycle_host \<Rightarrow> cnpg \<Rightarrow> lifecycle_request \<Rightarrow> string option go" where
  "LifecycleHook lh cn request =
     (if rq_OperationType request = None then Fail (ErrMsg ''no operation set'')
      else
        bindG (lh_GetKind lh (rq_ObjectDefinition request)) (\<lambda>kind.
        bindG (lh_DecodeCluster lh (rq_ClusterDefinition request)) (\<lambda>cluster.
          let pluginConfiguration = NewFromCluster cn cluster in
          if Validate pluginConfiguration \<noteq> None then Ret None
          else if kind = kindPod then reconcilePod lh cluster request pluginConfiguration
          else if kind = kindJob then reconcileJob lh cluster request pluginConfiguration
          else Fail (ErrMsg (''unsupported kind: '' @ kind)))))"

section \<open>What the sidecar looks like\<close>

definition env_value :: "EnvVar list \<Rightarrow> string \<Rightarrow> string option" where
  "env_value es n = map_option ev_Value (find (\<lambda>e. ev_Name e = n) es)"

lemma env_value_append: "env_value (xs @ ys) n = (case env_value xs n of None \<Rightarrow> env_value ys n | Some v \<Rightarrow> Some v)"
  by (simp add: env_value_def find_append split: option.split)

lemma env_value_simps [simp]:
  "env_value [] n = None" "env_value (e # es) n = (if ev_Name e = n then Some (ev_Value e) else env_value es n)"
  by (simp_all add: env_value_def)

lemma env_value_None: "env_value es n = None \<longleftrightarrow> n \<notin> ev_Name ` set es"
  by (induction es) auto

lemma merge_envs_value: "env_value (merge_envs acc es) n = env_value (acc @ es) n"
proof (induction acc es rule: merge_envs.induct)
  case (2 acc e es)
  show ?case
  proof (cases "\<exists>x \<in> set acc. ev_Name x = ev_Name e")
    case True
    then have "ev_Name e = n \<Longrightarrow> env_value acc n \<noteq> None" by (simp add: env_value_None) (metis imageI)
    with True 2 show ?thesis by (cases "ev_Name e = n") (auto simp: env_value_append split: option.split)
  qed (use 2 in simp)
qed simp

lemma merge_envs_distinct: "distinct (map ev_Name acc) \<Longrightarrow> distinct (map ev_Name (merge_envs acc es))"
proof (induction acc es rule: merge_envs.induct)
  case (2 acc e es)
  then have "distinct (map ev_Name (if \<exists>x \<in> set acc. ev_Name x = ev_Name e then acc else acc @ [e]))" by auto
  with 2 show ?case by simp
qed simp

lemma main_container_envs_find:
  "main_container_envs m cs acc =
     (case find (\<lambda>c. co_Name c = m) cs of None \<Rightarrow> acc | Some c \<Rightarrow> merge_envs acc (co_Env c))"
  by (induction cs) auto

lemma main_mounts_find:
  "main_mounts m cs found = (case find (\<lambda>c. co_Name c = m) (rev cs) of None \<Rightarrow> found | Some c \<Rightarrow> Some (co_VolumeMounts c))"
  by (induction cs arbitrary: found) (auto simp: find_append split: option.split)

lemma volume_names [simp]:
  "map co_Name (ps_Containers (InjectPluginVolumePodSpec spec m)) = map co_Name (ps_Containers spec)"
  "ps_InitContainers (InjectPluginVolumePodSpec spec m) = ps_InitContainers spec"
  by (simp_all add: InjectPluginVolumePodSpec_def)

lemma volume_present:
  "\<exists>v \<in> set (ps_Volumes spec). vol_Name v = ''plugins'' \<Longrightarrow> InjectPluginVolumePodSpec spec m = spec"
  "\<exists>v \<in> set (ps_Volumes (InjectPluginVolumePodSpec spec m)). vol_Name v = ''plugins''"
  by (auto simp: InjectPluginVolumePodSpec_def)

lemma volume_init_idem:
  "InjectPluginVolumePodSpec ((InjectPluginVolumePodSpec spec m)\<lparr>ps_InitContainers := ics\<rparr>) m
     = (InjectPluginVolumePodSpec spec m)\<lparr>ps_InitContainers := ics\<rparr>"
  using volume_present(2) [of spec m] by (intro volume_present(1)) simp

lemma main_mounts_None:
  "main_mounts m (ps_Containers (InjectPluginVolumePodSpec spec m)) None = None
     \<longleftrightarrow> m \<notin> co_Name ` set (ps_Containers spec)"
proof -
  have "main_mounts m cs None = None \<longleftrightarrow> m \<notin> set (map co_Name cs)" for cs
    by (induction cs rule: rev_induct) (auto simp: main_mounts_find)
  moreover have "co_Name ` set (ps_Containers (InjectPluginVolumePodSpec spec m)) = co_Name ` set (ps_Containers spec)"
    by (metis set_map volume_names(1))
  ultimately show ?thesis by simp
qed

lemma sidecar_fields:
  "co_Name (sidecar_container img cluster spec m cfg envs rs sc) = ''plugin-pgbackrest''"
  "co_Image (sidecar_container img cluster spec m cfg envs rs sc) = img"
  "co_Args (sidecar_container img cluster spec m cfg envs rs sc) = co_Args cfg"
  "co_VolumeMounts (sidecar_container img cluster spec m cfg envs rs sc) = co_VolumeMounts cfg"
  "co_Env (sidecar_container img cluster spec m cfg envs rs sc) =
     merge_envs (main_container_envs m (ps_Containers spec) (co_Env cfg)) (default_envs cluster @ envs)"
  by (simp_all add: sidecar_container_def Let_def split: option.split)

abbreviation main_envs :: "string \<Rightarrow> PodSpec \<Rightarrow> EnvVar list" where
  "main_envs m spec \<equiv> (case find (\<lambda>c. co_Name c = m) (ps_Containers spec) of None \<Rightarrow> [] | Some c \<Rightarrow> co_Env c)"

lemma reconcilePodSpec_new:
  assumes "''plugin-pgbackrest'' \<notin> co_Name ` set (ps_InitContainers spec)" "co_Env cfg = []" "co_VolumeMounts cfg = []"
    and "m \<in> co_Name ` set (ps_Containers spec)"
  shows "\<exists>spec' side. reconcilePodSpec img cluster spec m cfg envs rs sc = Ret spec'
      \<and> ps_InitContainers spec' = ps_InitContainers spec @ [side]
      \<and> map co_Name (ps_Containers spec') = map co_Name (ps_Containers spec)
      \<and> co_Image side = img \<and> co_Args side = co_Args cfg \<and> co_RestartPolicy side = Some ''Always''
      \<and> (\<exists>main \<in> set (ps_Containers spec'). co_Name main = m \<and> co_VolumeMounts side = co_VolumeMounts main)
      \<and> distinct (map ev_Name (co_Env side))
      \<and> (\<forall>n. env_value (co_Env side) n = env_value (main_envs m spec @ default_envs cluster @ envs) n)"
proof -
  let ?vol = "InjectPluginVolumePodSpec spec m" and ?side = "sidecar_container img cluster spec m cfg envs rs sc"
  from assms(4) obtain mounts where mounts: "main_mounts m (ps_Containers ?vol) None = Some mounts"
    using main_mounts_None [of m spec] by (cases "main_mounts m (ps_Containers ?vol) None") auto
  then obtain main where main: "main \<in> set (ps_Containers ?vol)" "co_Name main = m" "mounts = co_VolumeMounts main"
    by (auto simp: main_mounts_find find_Some_iff split: option.splits) (metis length_rev nth_mem set_rev)
  have new: "\<not> (\<exists>c \<in> set (ps_InitContainers spec). co_Name c = ''plugin-pgbackrest'')"
    using assms(1) by (metis imageI)
  let ?full = "?side\<lparr>co_VolumeMounts := co_VolumeMounts ?side @ mounts, co_RestartPolicy := Some ''Always''\<rparr>"
  have r: "reconcilePodSpec img cluster spec m cfg envs rs sc =
      Ret (?vol\<lparr>ps_InitContainers := ps_InitContainers spec @ [?full]\<rparr>)"
    using mounts new by (simp add: reconcilePodSpec_def InjectPluginSidecarPodSpec_def Let_def sidecar_fields)
  have "env_value (co_Env ?full) n =
      env_value ((case find (\<lambda>c. co_Name c = m) (ps_Containers spec) of None \<Rightarrow> [] | Some c \<Rightarrow> co_Env c)
             @ default_envs cluster @ envs) n" for n
    using assms(2) by (simp add: sidecar_fields main_container_envs_find merge_envs_value env_value_append split: option.split)
  moreover have "distinct (map ev_Name (co_Env ?full))"
    using assms(2) by (simp add: sidecar_fields main_container_envs_find merge_envs_distinct split: option.split)
  ultimately have "ps_InitContainers (?vol\<lparr>ps_InitContainers := ps_InitContainers spec @ [?full]\<rparr>)
        = ps_InitContainers spec @ [?full] \<and> co_Image ?full = img \<and> co_Args ?full = co_Args cfg
      \<and> co_VolumeMounts ?full = co_VolumeMounts main \<and> distinct (map ev_Name (co_Env ?full))
      \<and> (\<forall>n. env_value (co_Env ?full) n = env_value ((case find (\<lambda>c. co_Name c = m) (ps_Containers spec) of
           None \<Rightarrow> [] | Some c \<Rightarrow> co_Env c) @ default_envs cluster @ envs) n)"
    using assms(3) main(3) by (simp add: sidecar_fields)
  then show ?thesis using r main by (auto intro!: exI [of _ ?full] bexI [of _ main])
qed

text \<open>
  C22. Adding the sidecar to a pod that has none: it works exactly if the pod has the main
  container; then one init container is appended and restarted always, it has the mounts of the
  main container, and every variable of its environment is set once, to what the main container
  has, else to the plugin's value for the cluster, else to what the Archive objects add.
\<close>

theorem reconcilePodSpec_adds_sidecar:
  assumes "''plugin-pgbackrest'' \<notin> co_Name ` set (ps_InitContainers spec)" "co_Env cfg = []" "co_VolumeMounts cfg = []"
  shows "if m \<notin> co_Name ` set (ps_Containers spec)
    then \<exists>e. reconcilePodSpec img cluster spec m cfg envs rs sc = Fail e
    else \<exists>spec' side. reconcilePodSpec img cluster spec m cfg envs rs sc = Ret spec'
      \<and> ps_InitContainers spec' = ps_InitContainers spec @ [side]
      \<and> map co_Name (ps_Containers spec') = map co_Name (ps_Containers spec)
      \<and> co_Image side = img \<and> co_Args side = co_Args cfg \<and> co_RestartPolicy side = Some ''Always''
      \<and> (\<exists>main \<in> set (ps_Containers spec'). co_Name main = m \<and> co_VolumeMounts side = co_VolumeMounts main)
      \<and> distinct (map ev_Name (co_Env side))
      \<and> (\<forall>n. env_value (co_Env side) n =
           env_value ((case find (\<lambda>c. co_Name c = m) (ps_Containers spec) of None \<Rightarrow> [] | Some c \<Rightarrow> co_Env c)
             @ default_envs cluster @ envs) n)"
proof (cases "m \<in> co_Name ` set (ps_Containers spec)")
  case True
  then show ?thesis using reconcilePodSpec_new [OF assms] by (simp only: not_not if_False simp_thms)
next
  case False
  then have "main_mounts m (ps_Containers (InjectPluginVolumePodSpec spec m)) None = None"
    by (simp add: main_mounts_None)
  then show ?thesis using False by (simp add: reconcilePodSpec_def InjectPluginSidecarPodSpec_def Let_def)
qed

text \<open>
  C30. A pod specification that has the sidecar stays as it is when it comes again, whatever the
  settings are by then: evaluating a running pod changes nothing, and a changed image or Archive
  reaches the sidecar only with a new pod.
\<close>

theorem reconcilePodSpec_idem:
  assumes "reconcilePodSpec img cluster spec m cfg envs rs sc = Ret spec'"
  shows "reconcilePodSpec img' cluster' spec' m cfg' envs' rs' sc' = Ret spec'"
proof -
  let ?vol = "InjectPluginVolumePodSpec spec m"
  obtain mounts where mounts: "main_mounts m (ps_Containers ?vol) None = Some mounts"
    using assms by (auto simp: reconcilePodSpec_def InjectPluginSidecarPodSpec_def Let_def split: option.splits)
  obtain ics where s: "spec' = ?vol\<lparr>ps_InitContainers := ics\<rparr>" "\<exists>c \<in> set ics. co_Name c = ''plugin-pgbackrest''"
  proof (cases "\<exists>c \<in> set (ps_InitContainers spec). co_Name c = ''plugin-pgbackrest''")
    case True
    then have "spec' = ?vol\<lparr>ps_InitContainers := ps_InitContainers spec\<rparr>" using assms mounts
      by (simp add: reconcilePodSpec_def InjectPluginSidecarPodSpec_def Let_def sidecar_fields)
        (metis PodSpec.surjective PodSpec.update_convs(3) volume_names(2) old.unit.exhaust)
    with True that show thesis by blast
  next
    case False
    then show thesis using assms mounts that
      by (auto simp: reconcilePodSpec_def InjectPluginSidecarPodSpec_def Let_def sidecar_fields)
  qed
  with mounts show ?thesis
    by (simp add: reconcilePodSpec_def InjectPluginSidecarPodSpec_def Let_def sidecar_fields volume_init_idem)
qed

definition pod_example :: PodSpec where
  "pod_example = \<lparr>ps_Volumes = [], ps_Containers = [zero_container\<lparr>co_Name := ''postgres'',
     co_Env := [\<lparr>ev_Name = ''NAMESPACE'', ev_Value = ''own''\<rparr>]\<rparr>], ps_InitContainers = [], ps_Rest = ''''\<rparr>"

theorem reconcilePodSpec_adds_sidecar_witness:
  "\<exists>spec' side. reconcilePodSpec ''img'' cluster_example pod_example ''postgres'' (zero_container\<lparr>co_Args := [''instance'']\<rparr>) [] None None
       = Ret spec' \<and> ps_InitContainers spec' = [side] \<and> env_value (co_Env side) ''NAMESPACE'' = Some ''own''
     \<and> env_value (co_Env side) ''SPOOL_DIRECTORY'' = Some ''/controller/wal-restore-spool''"
proof -
  have "''plugin-pgbackrest'' \<notin> co_Name ` set (ps_InitContainers pod_example)" by (simp add: pod_example_def)
  moreover have "\<not> ''postgres'' \<notin> co_Name ` set (ps_Containers pod_example)" by (simp add: pod_example_def)
  ultimately obtain spec' side where
    "reconcilePodSpec ''img'' cluster_example pod_example ''postgres'' (zero_container\<lparr>co_Args := [''instance'']\<rparr>) [] None None = Ret spec'"
    "ps_InitContainers spec' = ps_InitContainers pod_example @ [side]"
    "\<forall>n. env_value (co_Env side) n = env_value ((case find (\<lambda>c. co_Name c = ''postgres'') (ps_Containers pod_example) of
        None \<Rightarrow> [] | Some c \<Rightarrow> co_Env c) @ default_envs cluster_example @ []) n"
    using reconcilePodSpec_adds_sidecar [of pod_example "zero_container\<lparr>co_Args := [''instance'']\<rparr>" "''postgres''"
        "''img''" cluster_example "[]" None None]
    by (simp add: zero_container_def) blast
  then show ?thesis by (simp add: pod_example_def default_envs_def)
qed

theorem reconcilePodSpec_idem_witness:
  "\<exists>spec'. reconcilePodSpec ''img'' cluster_example pod_example ''postgres'' zero_container [] None None = Ret spec'
     \<and> reconcilePodSpec ''img2'' cluster_example spec' ''postgres'' zero_container [] None None = Ret spec'"
proof -
  have "returns (reconcilePodSpec ''img'' cluster_example pod_example ''postgres'' zero_container [] None None)" by code_simp
  then obtain spec' where r: "reconcilePodSpec ''img'' cluster_example pod_example ''postgres'' zero_container [] None None = Ret spec'"
    by (cases "reconcilePodSpec ''img'' cluster_example pod_example ''postgres'' zero_container [] None None") auto
  from r reconcilePodSpec_idem [OF r] show ?thesis by blast
qed

end
