(* ===== verification/Filesystem.thy ===== *)
theory Filesystem
  imports Go_Strings "HOL-Library.AList"
begin

text \<open>
  Files as the program uses them: the operations of \<^verbatim>\<open>os\<close> it calls, over a state
  that maps cleaned paths to nodes, and the interface of the machinery library's
  \<^verbatim>\<open>fileutils\<close> package, which is a parameter of every definition that uses it. A path
  in \<open>fs_denied\<close> is one the process may not touch.
\<close>

section \<open>State\<close>

datatype node = File string | Dir

record fs =
  fs_nodes :: "(string \<times> node) list"
  fs_denied :: "string list"

definition node_at :: "fs \<Rightarrow> string \<Rightarrow> node option" where
  "node_at fs p = map_of (fs_nodes fs) (path_clean p)"

definition denied :: "fs \<Rightarrow> string \<Rightarrow> bool" where
  "denied fs p \<longleftrightarrow> path_clean p \<in> set (fs_denied fs)"

definition put_node :: "string \<Rightarrow> node \<Rightarrow> fs \<Rightarrow> fs" where
  "put_node p x fs = fs\<lparr>fs_nodes := AList.update (path_clean p) x (fs_nodes fs)\<rparr>"

definition del_node :: "string \<Rightarrow> fs \<Rightarrow> fs" where
  "del_node p fs = fs\<lparr>fs_nodes := AList.delete (path_clean p) (fs_nodes fs)\<rparr>"

lemma node_at_put [simp]:
  "node_at (put_node p x fs) q = (if path_clean p = path_clean q then Some x else node_at fs q)"
  by (simp add: node_at_def put_node_def update_conv')

lemma node_at_del [simp]:
  "node_at (del_node p fs) q = (if path_clean p = path_clean q then None else node_at fs q)"
  by (simp add: node_at_def del_node_def delete_conv')

lemma denied_put_del [simp]:
  "denied (put_node p x fs) q = denied fs q" "denied (del_node p fs) q = denied fs q"
  by (simp_all add: denied_def put_node_def del_node_def)

section \<open>Operations of the os package\<close>

text \<open>Why a path cannot be created: its parent is missing or is not a directory.\<close>

definition parent_error :: "fs \<Rightarrow> string \<Rightarrow> os_errno option" where
  "parent_error fs p =
     (case node_at fs (path_dir p) of
        Some Dir \<Rightarrow> None
      | None \<Rightarrow> Some ENOENT
      | Some _ \<Rightarrow> Some ENOTDIR)"

definition os_WriteFile :: "string \<Rightarrow> string \<Rightarrow> fs \<Rightarrow> unit go \<times> fs" where
  "os_WriteFile p content fs =
     (if denied fs p then (Fail (ErrOs EACCES), fs)
      else case node_at fs p of
        Some Dir \<Rightarrow> (Fail (ErrOs EISDIR), fs)
      | Some _ \<Rightarrow> (Ret (), put_node p (File content) fs)
      | None \<Rightarrow>
          (case parent_error fs p of
             Some e \<Rightarrow> (Fail (ErrOs e), fs)
           | None \<Rightarrow> (Ret (), put_node p (File content) fs)))"

text \<open>\<^verbatim>\<open>os.Create\<close> truncates an existing file.\<close>

definition os_Create :: "string \<Rightarrow> fs \<Rightarrow> unit go \<times> fs" where
  "os_Create p fs = os_WriteFile p '''' fs"

definition child_names :: "fs \<Rightarrow> string \<Rightarrow> string list" where
  "child_names fs d =
     [path_base p. (p, _) \<leftarrow> fs_nodes fs, path_dir p = path_clean d \<and> p \<noteq> path_clean d]"

definition os_Remove :: "string \<Rightarrow> fs \<Rightarrow> unit go \<times> fs" where
  "os_Remove p fs =
     (if denied fs p then (Fail (ErrOs EACCES), fs)
      else case node_at fs p of
        None \<Rightarrow>
          (Fail (ErrOs (case node_at fs (path_dir p) of Some (File _) \<Rightarrow> ENOTDIR | _ \<Rightarrow> ENOENT)), fs)
      | Some Dir \<Rightarrow>
          if child_names fs p = [] then (Ret (), del_node p fs) else (Fail (ErrOs ENOTEMPTY), fs)
      | Some _ \<Rightarrow> (Ret (), del_node p fs))"

text \<open>\<^verbatim>\<open>os.ReadDir\<close>: the names in order.\<close>

definition os_ReadDir :: "string \<Rightarrow> fs \<Rightarrow> string list go" where
  "os_ReadDir p fs =
     (if denied fs p then Fail (ErrOs EACCES)
      else case node_at fs p of
        None \<Rightarrow> Fail (ErrOs ENOENT)
      | Some Dir \<Rightarrow> Ret (sort (remdups (child_names fs p)))
      | Some _ \<Rightarrow> Fail (ErrOs ENOTDIR))"

text \<open>The directories on the way to a path, the path included.\<close>

definition path_prefixes :: "string \<Rightarrow> string list" where
  "path_prefixes p =
     (let es = split_on slash (path_clean p)
      in map (\<lambda>n. if n = 1 \<and> hd es = [] then ''/'' else join_on slash (take n es)) [1..<Suc (length es)])"

fun make_dirs :: "string list \<Rightarrow> fs \<Rightarrow> unit go \<times> fs" where
  "make_dirs [] fs = (Ret (), fs)"
| "make_dirs (p # ps) fs =
     (case node_at fs p of
        Some Dir \<Rightarrow> make_dirs ps fs
      | Some _ \<Rightarrow> (Fail (ErrOs ENOTDIR), fs)
      | None \<Rightarrow> if denied fs p then (Fail (ErrOs EACCES), fs) else make_dirs ps (put_node p Dir fs))"

definition os_MkdirAll :: "string \<Rightarrow> fs \<Rightarrow> unit go \<times> fs" where
  "os_MkdirAll p fs =
     (case node_at fs p of
        Some Dir \<Rightarrow> (Ret (), fs)
      | Some _ \<Rightarrow> (Fail (ErrOs ENOTDIR), fs)
      | None \<Rightarrow> make_dirs (path_prefixes p) fs)"

definition IsNotExist :: "error \<Rightarrow> bool" where
  "IsNotExist e \<longleftrightarrow> e = ErrOs ENOENT"

section \<open>The file utilities of the machinery library\<close>

record fileutils =
  fu_EnsureDirectoryExists :: "string \<Rightarrow> fs \<Rightarrow> unit go \<times> fs"
  fu_FileExists :: "string \<Rightarrow> fs \<Rightarrow> bool go"
  fu_MoveFile :: "string \<Rightarrow> string \<Rightarrow> fs \<Rightarrow> unit go \<times> fs"
  fu_RemoveFile :: "string \<Rightarrow> fs \<Rightarrow> unit go \<times> fs"

text \<open>
  What the package documents and the code relies on: an existence test answers without changing
  anything; a removal that succeeds leaves no file there, a missing file is not an error, nothing
  else is touched and it never panics; a move that succeeds carries the content over, one of a missing
  source fails with \<^verbatim>\<open>ENOENT\<close> and changes nothing; a directory that is ensured
  without an error is there, what was there before is still there, and what is new is a directory.
\<close>

definition file_exists_ok :: "fileutils \<Rightarrow> bool" where
  "file_exists_ok fu \<longleftrightarrow>
     (\<forall>p fs. \<not> denied fs p \<longrightarrow> fu_FileExists fu p fs = Ret (node_at fs p \<noteq> None))"

definition remove_file_ok :: "fileutils \<Rightarrow> bool" where
  "remove_file_ok fu \<longleftrightarrow>
     (\<forall>p fs. \<not> denied fs p \<and> node_at fs p = None \<longrightarrow> fu_RemoveFile fu p fs = (Ret (), fs)) \<and>
     (\<forall>p fs c. \<not> denied fs p \<and> node_at fs p = Some (File c) \<longrightarrow>
        fu_RemoveFile fu p fs = (Ret (), del_node p fs)) \<and>
     (\<forall>p fs. (snd (fu_RemoveFile fu p fs) = fs \<or> snd (fu_RemoveFile fu p fs) = del_node p fs)
        \<and> (\<forall>m. fst (fu_RemoveFile fu p fs) \<noteq> Panic m))"

definition move_file_ok :: "fileutils \<Rightarrow> bool" where
  "move_file_ok fu \<longleftrightarrow>
     (\<forall>p q fs. \<not> denied fs p \<and> node_at fs p = None \<longrightarrow>
        fu_MoveFile fu p q fs = (Fail (ErrOs ENOENT), fs)) \<and>
     (\<forall>p q fs c. \<not> denied fs p \<and> node_at fs p = Some (File c) \<and> \<not> denied fs q \<and>
        node_at fs q \<noteq> Some Dir \<and> node_at fs (path_dir q) = Some Dir \<and> path_clean p \<noteq> path_clean q \<longrightarrow>
        fu_MoveFile fu p q fs = (Ret (), put_node q (File c) (del_node p fs)))"

definition ensure_dir_ok :: "fileutils \<Rightarrow> bool" where
  "ensure_dir_ok fu \<longleftrightarrow>
     (\<forall>p fs. node_at fs p = Some Dir \<longrightarrow> fu_EnsureDirectoryExists fu p fs = (Ret (), fs)) \<and>
     (\<forall>p fs fs'. fu_EnsureDirectoryExists fu p fs = (Ret (), fs') \<longrightarrow>
        node_at fs' p = Some Dir \<and> denied fs' = denied fs \<and>
        (\<forall>q. node_at fs' q = node_at fs q \<or> (node_at fs q = None \<and> node_at fs' q = Some Dir)))"

definition fileutils_ok :: "fileutils \<Rightarrow> bool" where
  "fileutils_ok fu \<longleftrightarrow> file_exists_ok fu \<and> remove_file_ok fu \<and> move_file_ok fu \<and> ensure_dir_ok fu"

text \<open>A reference instance with the behaviour of a POSIX system.\<close>

definition posix_MoveFile :: "string \<Rightarrow> string \<Rightarrow> fs \<Rightarrow> unit go \<times> fs" where
  "posix_MoveFile p q fs =
     (if denied fs p then (Fail (ErrOs EACCES), fs)
      else case node_at fs p of
        None \<Rightarrow> (Fail (ErrOs ENOENT), fs)
      | Some (File c) \<Rightarrow>
          (case os_WriteFile q c fs of
             (Ret _, _) \<Rightarrow> (Ret (), put_node q (File c) (del_node p fs))
           | r \<Rightarrow> r)
      | Some _ \<Rightarrow> (Fail (ErrOs EISDIR), fs))"

definition posix_fileutils :: fileutils where
  "posix_fileutils =
     \<lparr>fu_EnsureDirectoryExists = os_MkdirAll,
      fu_FileExists = (\<lambda>p fs. if denied fs p then Fail (ErrOs EACCES) else Ret (node_at fs p \<noteq> None)),
      fu_MoveFile = posix_MoveFile,
      fu_RemoveFile = (\<lambda>p fs.
        if denied fs p then (Fail (ErrOs EACCES), fs)
        else if node_at fs p = None then (Ret (), fs) else os_Remove p fs)\<rparr>"

section \<open>Facts\<close>

lemma path_clean_slash [simp]: "path_clean ''/'' = ''/''"
  by (simp add: path_clean_def clean_step_def)

lemma join_on_split_on: "join_on c (split_on c s) = s"
proof (induction s)
  case (Cons a s)
  obtain y ys where y: "split_on c s = y # ys" by (cases "split_on c s") auto
  with Cons show ?case by (cases ys) auto
qed simp

lemma last_path_prefix: "last (path_prefixes p) = path_clean p \<and> path_prefixes p \<noteq> []"
proof -
  let ?es = "split_on slash (path_clean p)"
  have len: "1 \<le> length ?es" using split_on_not_Nil by (simp add: Suc_le_eq)
  moreover have "length ?es = 1 \<Longrightarrow> hd ?es \<noteq> []"
  proof
    assume "length ?es = 1" "hd ?es = []"
    then have "?es = [[]]" by (cases ?es) auto
    then have "path_clean p = []" using join_on_split_on [of slash "path_clean p"] by simp
    then show False by (auto simp: path_clean_def Let_def split: if_splits)
  qed
  ultimately show ?thesis
    by (auto simp: path_prefixes_def Let_def last_map join_on_split_on)
qed

lemma make_dirs_ok:
  assumes "make_dirs ps fs = (Ret (), fs')"
  shows "(\<forall>p \<in> set ps. node_at fs' p = Some Dir) \<and> denied fs' = denied fs \<and>
    (\<forall>q. node_at fs' q = node_at fs q \<or> (node_at fs q = None \<and> node_at fs' q = Some Dir))"
  using assms
proof (induction ps fs rule: make_dirs.induct)
  case (2 p ps fs)
  show ?case
  proof (cases "node_at fs p")
    case None
    then have m: "make_dirs ps (put_node p Dir fs) = (Ret (), fs')" and d: "\<not> denied fs p"
      using "2.prems" by (auto split: if_splits)
    have same: "node_at fs q = None" if "path_clean p = path_clean q" for q
      using None that by (simp add: node_at_def)
    from "2.IH" None m d
    have ih: "(\<forall>p \<in> set ps. node_at fs' p = Some Dir) \<and> denied fs' = denied (put_node p Dir fs) \<and>
      (\<forall>q. node_at fs' q = node_at (put_node p Dir fs) q \<or>
        (node_at (put_node p Dir fs) q = None \<and> node_at fs' q = Some Dir))" by blast
    then show ?thesis using same by (auto simp: fun_eq_iff split: if_splits)
  next
    case (Some x)
    then have x: "x = Dir" and m: "make_dirs ps fs = (Ret (), fs')" using "2.prems" by (cases x; simp)+
    from "2.IH" Some x m
    have ih: "(\<forall>p \<in> set ps. node_at fs' p = Some Dir) \<and> denied fs' = denied fs \<and>
      (\<forall>q. node_at fs' q = node_at fs q \<or> (node_at fs q = None \<and> node_at fs' q = Some Dir))" by blast
    then have "node_at fs' p = Some Dir" using Some x by (metis option.discI)
    with ih show ?thesis by simp
  qed
qed simp

lemma MkdirAll_ok:
  assumes "os_MkdirAll p fs = (Ret (), fs')"
  shows "node_at fs' p = Some Dir \<and> denied fs' = denied fs \<and>
    (\<forall>q. node_at fs' q = node_at fs q \<or> (node_at fs q = None \<and> node_at fs' q = Some Dir))"
proof (cases "node_at fs p")
  case None
  then have m: "make_dirs (path_prefixes p) fs = (Ret (), fs')" using assms by (simp add: os_MkdirAll_def)
  have "path_clean p \<in> set (path_prefixes p)" using last_path_prefix by (metis last_in_set)
  then have "node_at fs' (path_clean p) = Some Dir" using make_dirs_ok [OF m] by blast
  with make_dirs_ok [OF m] show ?thesis by (simp add: node_at_def)
qed (use assms in \<open>auto simp: os_MkdirAll_def split: node.splits\<close>)

lemma posix_fileutils_ok: "fileutils_ok posix_fileutils"
proof -
  have "file_exists_ok posix_fileutils" by (simp add: file_exists_ok_def posix_fileutils_def)
  moreover have "remove_file_ok posix_fileutils"
    by (auto simp: remove_file_ok_def posix_fileutils_def os_Remove_def split: option.splits node.splits)
  moreover have "move_file_ok posix_fileutils"
    by (auto simp: move_file_ok_def posix_fileutils_def posix_MoveFile_def os_WriteFile_def
        parent_error_def split: option.splits node.splits)
  moreover have "ensure_dir_ok posix_fileutils"
    unfolding ensure_dir_ok_def using MkdirAll_ok
    by (auto simp: posix_fileutils_def) (simp add: os_MkdirAll_def)
  ultimately show ?thesis by (simp add: fileutils_ok_def)
qed

lemma os_Create_ok:
  assumes "\<not> denied fs p" "node_at fs p \<noteq> Some Dir" "node_at fs (path_dir p) = Some Dir"
  shows "os_Create p fs = (Ret (), put_node p (File '''') fs)"
  using assms by (auto simp: os_Create_def os_WriteFile_def parent_error_def split: option.splits node.splits)

lemma os_Remove_file:
  "\<not> denied fs p \<Longrightarrow> node_at fs p = Some (File c) \<Longrightarrow> os_Remove p fs = (Ret (), del_node p fs)"
  by (simp add: os_Remove_def)

lemma os_Remove_missing:
  "\<not> denied fs p \<Longrightarrow> node_at fs p = None \<Longrightarrow> node_at fs (path_dir p) = Some Dir \<Longrightarrow>
     os_Remove p fs = (Fail (ErrOs ENOENT), fs)"
  by (simp add: os_Remove_def)

section \<open>Calls that change only some paths\<close>

definition same_but :: "string set \<Rightarrow> fs \<Rightarrow> fs \<Rightarrow> bool" where
  "same_but A fs fs' \<longleftrightarrow> denied fs' = denied fs \<and> (\<forall>p. path_clean p \<notin> A \<longrightarrow> node_at fs' p = node_at fs p)"

lemma same_but_refl [simp]: "same_but A fs fs"
  by (simp add: same_but_def)

lemma same_but_trans: "same_but A fs1 fs2 \<Longrightarrow> same_but A fs2 fs3 \<Longrightarrow> same_but A fs1 fs3"
  by (simp add: same_but_def)

lemma same_but_put: "path_clean p \<in> A \<Longrightarrow> same_but A fs (put_node p x fs)"
  by (auto simp: same_but_def fun_eq_iff)

lemma same_but_bindW:
  assumes "same_but A fs (snd x)" "\<And>a fs'. same_but A fs' (snd (f a fs'))"
  shows "same_but A fs (snd (bindW x f))"
  using assms by (cases x; cases "fst x") (auto intro: same_but_trans)

lemma same_but_make_dirs:
  "path_clean ` set ps \<subseteq> A \<Longrightarrow> same_but A fs (snd (make_dirs ps fs))"
proof (induction ps fs rule: make_dirs.induct)
  case (2 p ps fs)
  then show ?case using same_but_put [of p A fs Dir]
    by (auto split: option.splits node.splits intro: same_but_trans)
qed simp

lemma same_but_MkdirAll: "path_clean ` set (path_prefixes p) \<subseteq> A \<Longrightarrow> same_but A fs (snd (os_MkdirAll p fs))"
  using same_but_make_dirs by (auto simp: os_MkdirAll_def split: option.splits node.splits)

lemma same_but_WriteFile: "path_clean p \<in> A \<Longrightarrow> same_but A fs (snd (os_WriteFile p c fs))"
  using same_but_put [of p A fs] by (auto simp: os_WriteFile_def split: option.splits node.splits)

end
