(* ===== verification/Spool.thy ===== *)
theory Spool
  imports Filesystem
begin

text \<open>
  The WAL spool (\<^verbatim>\<open>internal/pgbackrest/spool/spool.go\<close>): a directory whose files
  remember the WAL segments handled ahead of a request. \<open>wal_spool\<close> is the contract its
  clients rely on, that the operations act on a set of names; the last section proves it for the
  directory implementation.
\<close>

section \<open>The operations\<close>

record WALSpool =
  spoolDirectory :: string

definition ErrorNonExistentFile :: error where "ErrorNonExistentFile = ErrOs ENOENT"

definition Spool_New :: "fileutils \<Rightarrow> string \<Rightarrow> fs \<Rightarrow> WALSpool go \<times> fs" where
  "Spool_New fu directory fs =
     bindW (wrapW ''while creating spool directory'' (fu_EnsureDirectoryExists fu directory fs))
       (\<lambda>_ fs'. (Ret \<lparr>spoolDirectory = directory\<rparr>, fs'))"

definition Contains :: "fileutils \<Rightarrow> WALSpool \<Rightarrow> string \<Rightarrow> fs \<Rightarrow> bool go" where
  "Contains fu spool walFile fs =
     (let walFile = path_base walFile
      in fu_FileExists fu (path_join [spoolDirectory spool, walFile]) fs)"

definition Remove :: "WALSpool \<Rightarrow> string \<Rightarrow> fs \<Rightarrow> unit go \<times> fs" where
  "Remove spool walFile fs =
     (let walFile = path_base walFile
      in case os_Remove (path_join [spoolDirectory spool, walFile]) fs of
           (Fail err, fs') \<Rightarrow> if IsNotExist err then (Fail ErrorNonExistentFile, fs') else (Fail err, fs')
         | r \<Rightarrow> r)"

definition Touch :: "WALSpool \<Rightarrow> string \<Rightarrow> fs \<Rightarrow> unit go \<times> fs" where
  "Touch spool walFile fs =
     (let walFile = path_base walFile;
          fileName = path_join [spoolDirectory spool, walFile]
      in os_Create (path_clean fileName) fs)"

definition MoveOut :: "fileutils \<Rightarrow> WALSpool \<Rightarrow> string \<Rightarrow> string \<Rightarrow> fs \<Rightarrow> unit go \<times> fs" where
  "MoveOut fu spool walName destination fs =
     (case fu_MoveFile fu (path_join [spoolDirectory spool, walName]) destination fs of
        (Fail err, fs') \<Rightarrow> if IsNotExist err then (Fail ErrorNonExistentFile, fs') else (Fail err, fs')
      | r \<Rightarrow> r)"

definition FileName :: "WALSpool \<Rightarrow> string \<Rightarrow> string" where
  "FileName spool walName = path_join [spoolDirectory spool, walName]"

section \<open>What clients do with a spool\<close>

definition delete_if_present ::
  "(string \<Rightarrow> 's \<Rightarrow> bool go) \<Rightarrow> (string \<Rightarrow> 's \<Rightarrow> unit go \<times> 's) \<Rightarrow> string \<Rightarrow> 's \<Rightarrow> bool go \<times> 's" where
  "delete_if_present contains remove walName s =
     (case contains walName s of
        Panic m \<Rightarrow> (Panic m, s)
      | Fail err \<Rightarrow> (Fail err, s)
      | Ret False \<Rightarrow> (Ret False, s)
      | Ret True \<Rightarrow> bindW (remove walName s) (\<lambda>_ s'. (Ret True, s')))"

definition touch_if_absent ::
  "(string \<Rightarrow> 's \<Rightarrow> bool go) \<Rightarrow> (string \<Rightarrow> 's \<Rightarrow> unit go \<times> 's) \<Rightarrow> string \<Rightarrow> 's \<Rightarrow> unit go \<times> 's" where
  "touch_if_absent contains touch walName s =
     (case contains walName s of
        Panic m \<Rightarrow> (Panic m, s)
      | Fail err \<Rightarrow> (Fail err, s)
      | Ret True \<Rightarrow> (Ret (), s)
      | Ret False \<Rightarrow> touch walName s)"

text \<open>
  The contract. \<open>usable\<close> are the names the spool can hold, \<open>key\<close> what a name is
  stored under, \<open>elems\<close> the set a state stands for.
\<close>

locale wal_spool =
  fixes ready :: "'s \<Rightarrow> bool"
    and elems :: "'s \<Rightarrow> string set"
    and usable :: "string \<Rightarrow> bool"
    and key :: "string \<Rightarrow> string"
    and contains :: "string \<Rightarrow> 's \<Rightarrow> bool go"
    and touch :: "string \<Rightarrow> 's \<Rightarrow> unit go \<times> 's"
    and remove :: "string \<Rightarrow> 's \<Rightarrow> unit go \<times> 's"
  assumes contains_elems: "ready s \<Longrightarrow> usable n \<Longrightarrow> contains n s = Ret (key n \<in> elems s)"
    and touch_elems: "ready s \<Longrightarrow> usable n \<Longrightarrow>
      \<exists>s'. touch n s = (Ret (), s') \<and> ready s' \<and> elems s' = insert (key n) (elems s)"
    and remove_elems: "ready s \<Longrightarrow> usable n \<Longrightarrow> key n \<in> elems s \<Longrightarrow>
      \<exists>s'. remove n s = (Ret (), s') \<and> ready s' \<and> elems s' = elems s - {key n}"
    and remove_absent: "ready s \<Longrightarrow> usable n \<Longrightarrow> key n \<notin> elems s \<Longrightarrow>
      remove n s = (Fail (ErrOs ENOENT), s)"
begin

lemma deletes:
  assumes "ready s" "usable n"
  shows "\<exists>s'. delete_if_present contains remove n s = (Ret (key n \<in> elems s), s')
    \<and> ready s' \<and> elems s' = elems s - {key n}"
proof (cases "key n \<in> elems s")
  case True
  with remove_elems [OF assms] obtain s' where
    "remove n s = (Ret (), s')" "ready s'" "elems s' = elems s - {key n}" by blast
  then show ?thesis using True by (simp add: delete_if_present_def contains_elems [OF assms])
qed (use assms in \<open>simp add: delete_if_present_def contains_elems\<close>)

lemma deletes_once:
  assumes "ready s" "usable n" "delete_if_present contains remove n s = (r, s')"
  shows "delete_if_present contains remove n s' = (Ret False, s')"
proof -
  from deletes [OF assms(1,2)] assms(3) have "ready s'" "key n \<notin> elems s'" by auto
  then show ?thesis using assms(2) by (simp add: delete_if_present_def contains_elems)
qed

lemma touches:
  assumes "ready s" "usable n"
  shows "\<exists>s'. touch_if_absent contains touch n s = (Ret (), s') \<and> ready s'
    \<and> elems s' = insert (key n) (elems s)"
proof (cases "key n \<in> elems s")
  case False
  with touch_elems [OF assms] show ?thesis
    by (simp add: touch_if_absent_def contains_elems [OF assms])
qed (use assms in \<open>auto simp: touch_if_absent_def contains_elems\<close>)

end

section \<open>The directory implements the contract\<close>

definition spool_file :: "WALSpool \<Rightarrow> string \<Rightarrow> string" where
  "spool_file spool n = path_join [spoolDirectory spool, n]"

definition spool_elems :: "WALSpool \<Rightarrow> fs \<Rightarrow> string set" where
  "spool_elems spool fs = {n. plain_name n \<and> node_at fs (spool_file spool n) \<noteq> None}"

text \<open>A directory the process owns, holding files only.\<close>

definition spool_ready :: "fileutils \<Rightarrow> WALSpool \<Rightarrow> fs \<Rightarrow> bool" where
  "spool_ready fu spool fs \<longleftrightarrow>
     fileutils_ok fu \<and> spoolDirectory spool \<noteq> [] \<and> node_at fs (spoolDirectory spool) = Some Dir \<and>
     (\<forall>n. plain_name n \<longrightarrow> \<not> denied fs (spool_file spool n) \<and> node_at fs (spool_file spool n) \<noteq> Some Dir)"

definition spool_name :: "string \<Rightarrow> bool" where
  "spool_name w \<longleftrightarrow> plain_name (path_base w)"

lemma path_clean_spool_file: "spoolDirectory spool \<noteq> [] \<Longrightarrow> path_clean (spool_file spool n) = spool_file spool n"
  by (simp add: spool_file_def)

lemma node_at_path_clean [simp]: "node_at fs (path_clean p) = node_at fs p"
  by (simp add: node_at_def)

lemma denied_path_clean [simp]: "denied fs (path_clean p) = denied fs p"
  by (simp add: denied_def)

lemma spool_file_inject:
  "plain_name m \<Longrightarrow> plain_name n \<Longrightarrow> spool_file spool m = spool_file spool n \<longleftrightarrow> m = n"
  by (simp add: spool_file_def path_join_inject)

lemma spool_file_simps [simp]:
  assumes "plain_name n" "spoolDirectory spool \<noteq> []"
  shows "path_clean (spool_file spool n) = spool_file spool n"
    and "path_dir (spool_file spool n) = path_clean (spoolDirectory spool)"
    and "spool_file spool n \<noteq> path_clean (spoolDirectory spool)"
  using assms by (simp_all add: spool_file_def path_dir_join path_join_neq_dir)

lemma Contains_elems:
  assumes "spool_ready fu spool fs" "spool_name w"
  shows "Contains fu spool w fs = Ret (path_base w \<in> spool_elems spool fs)"
  using assms
  by (auto simp: Contains_def spool_ready_def spool_name_def fileutils_ok_def file_exists_ok_def
      spool_elems_def spool_file_def [symmetric])

lemma Touch_elems:
  assumes "spool_ready fu spool fs" "spool_name w"
  shows "Touch spool w fs = (Ret (), put_node (spool_file spool (path_base w)) (File '''') fs)"
  using assms
  by (simp add: Touch_def Let_def spool_file_def [symmetric] spool_ready_def spool_name_def os_Create_ok)

lemma spool_ready_put:
  assumes "spool_ready fu spool fs" "plain_name n"
  shows "spool_ready fu spool (put_node (spool_file spool n) (File c) fs)"
    "spool_elems spool (put_node (spool_file spool n) (File c) fs) = insert n (spool_elems spool fs)"
  using assms by (auto simp: spool_ready_def spool_elems_def spool_file_inject)

lemma spool_ready_del:
  assumes "spool_ready fu spool fs" "plain_name n"
  shows "spool_ready fu spool (del_node (spool_file spool n) fs)"
    "spool_elems spool (del_node (spool_file spool n) fs) = spool_elems spool fs - {n}"
  using assms by (auto simp: spool_ready_def spool_elems_def spool_file_inject split: if_splits)

lemma Remove_elems:
  assumes "spool_ready fu spool fs" "spool_name w"
  shows "Remove spool w fs =
    (if path_base w \<in> spool_elems spool fs
     then (Ret (), del_node (spool_file spool (path_base w)) fs) else (Fail (ErrOs ENOENT), fs))"
proof (cases "node_at fs (spool_file spool (path_base w))")
  case None
  with assms have "os_Remove (spool_file spool (path_base w)) fs = (Fail (ErrOs ENOENT), fs)"
    by (intro os_Remove_missing) (auto simp: spool_ready_def spool_name_def)
  with assms None show ?thesis
    by (simp add: Remove_def Let_def spool_file_def [symmetric] spool_elems_def IsNotExist_def
        ErrorNonExistentFile_def)
next
  case (Some x)
  with assms obtain c where "x = File c" by (cases x) (auto simp: spool_ready_def spool_name_def)
  with Some assms have "os_Remove (spool_file spool (path_base w)) fs
      = (Ret (), del_node (spool_file spool (path_base w)) fs)"
    by (intro os_Remove_file) (auto simp: spool_ready_def spool_name_def)
  with assms Some show ?thesis
    by (simp add: Remove_def Let_def spool_file_def [symmetric] spool_elems_def spool_name_def)
qed

interpretation dir_spool: wal_spool
  "spool_ready fu spool" "spool_elems spool" spool_name path_base
  "Contains fu spool" "Touch spool" "Remove spool" for fu spool
proof unfold_locales
  fix fs n assume r: "spool_ready fu spool fs" "spool_name n"
  then have p: "plain_name (path_base n)" by (simp add: spool_name_def)
  show "Contains fu spool n fs = Ret (path_base n \<in> spool_elems spool fs)"
    using Contains_elems [OF r] .
  show "\<exists>s'. Touch spool n fs = (Ret (), s') \<and> spool_ready fu spool s' \<and>
      spool_elems spool s' = insert (path_base n) (spool_elems spool fs)"
    using Touch_elems [OF r] spool_ready_put [OF r(1) p] by simp
  show "\<exists>s'. Remove spool n fs = (Ret (), s') \<and> spool_ready fu spool s' \<and>
      spool_elems spool s' = spool_elems spool fs - {path_base n}" if "path_base n \<in> spool_elems spool fs"
    using Remove_elems [OF r] spool_ready_del [OF r(1) p] that by simp
  show "Remove spool n fs = (Fail (ErrOs ENOENT), fs)" if "path_base n \<notin> spool_elems spool fs"
    using Remove_elems [OF r] that by simp
qed

section \<open>The spool as a set\<close>

datatype spool_op = OpTouch string | OpRemove string | OpContains string

fun op_name :: "spool_op \<Rightarrow> string" where
  "op_name (OpTouch n) = n"
| "op_name (OpRemove n) = n"
| "op_name (OpContains n) = n"

text \<open>What a caller sees of a call: a yes or no, an error or a panic.\<close>

fun answer :: "unit go \<Rightarrow> bool go" where
  "answer (Ret ()) = Ret True"
| "answer (Fail e) = Fail e"
| "answer (Panic m) = Panic m"

fun spool_run :: "fileutils \<Rightarrow> WALSpool \<Rightarrow> spool_op list \<Rightarrow> fs \<Rightarrow> bool go list \<times> fs" where
  "spool_run fu spool [] fs = ([], fs)"
| "spool_run fu spool (OpTouch n # ops) fs =
     (let (r, fs') = Touch spool n fs; (rs, fs'') = spool_run fu spool ops fs' in (answer r # rs, fs''))"
| "spool_run fu spool (OpRemove n # ops) fs =
     (let (r, fs') = Remove spool n fs; (rs, fs'') = spool_run fu spool ops fs' in (answer r # rs, fs''))"
| "spool_run fu spool (OpContains n # ops) fs =
     (let (rs, fs') = spool_run fu spool ops fs in (Contains fu spool n fs # rs, fs'))"

fun set_run :: "spool_op list \<Rightarrow> string set \<Rightarrow> bool go list \<times> string set" where
  "set_run [] S = ([], S)"
| "set_run (OpTouch n # ops) S =
     (let (rs, S') = set_run ops (insert (path_base n) S) in (Ret True # rs, S'))"
| "set_run (OpRemove n # ops) S =
     (let (rs, S') = set_run ops (S - {path_base n})
      in ((if path_base n \<in> S then Ret True else Fail ErrorNonExistentFile) # rs, S'))"
| "set_run (OpContains n # ops) S =
     (let (rs, S') = set_run ops S in (Ret (path_base n \<in> S) # rs, S'))"

text \<open>
  C8. A spool directory is a set of segment names: any sequence of touches, removals and
  membership tests gives the answers it would give on a set of base names, errors of removing an
  absent name included, and ends in the directory that stands for the resulting set.
\<close>

theorem spool_refines_set:
  assumes "spool_ready fu spool fs" "\<forall>c \<in> set ops. spool_name (op_name c)"
  shows "fst (spool_run fu spool ops fs) = fst (set_run ops (spool_elems spool fs))
    \<and> spool_elems spool (snd (spool_run fu spool ops fs)) = snd (set_run ops (spool_elems spool fs))
    \<and> spool_ready fu spool (snd (spool_run fu spool ops fs))"
  using assms
proof (induction ops arbitrary: fs)
  case (Cons c ops)
  then have r: "spool_ready fu spool fs" and n: "spool_name (op_name c)"
    and rest: "\<forall>c \<in> set ops. spool_name (op_name c)" by auto
  show ?case
  proof (cases c)
    case (OpTouch w)
    with dir_spool.touch_elems [OF r, of w] n obtain fs' where
      t: "Touch spool w fs = (Ret (), fs')" "spool_ready fu spool fs'"
        "spool_elems spool fs' = insert (path_base w) (spool_elems spool fs)" by auto
    from Cons.IH [OF t(2) rest] OpTouch t(1,3) show ?thesis by (auto simp: split_beta)
  next
    case (OpRemove w)
    with n have p: "plain_name (path_base w)" by (simp add: spool_name_def)
    let ?fs' = "if path_base w \<in> spool_elems spool fs then del_node (spool_file spool (path_base w)) fs else fs"
    have rm: "Remove spool w fs =
        ((if path_base w \<in> spool_elems spool fs then Ret () else Fail ErrorNonExistentFile), ?fs')"
      using Remove_elems [OF r] OpRemove n by (simp add: ErrorNonExistentFile_def)
    have "spool_ready fu spool ?fs'" "spool_elems spool ?fs' = spool_elems spool fs - {path_base w}"
      using spool_ready_del [OF r p] r by auto
    with Cons.IH [OF this(1) rest] OpRemove rm show ?thesis by (auto simp: split_beta)
  next
    case (OpContains w)
    with Cons.IH [OF r rest] dir_spool.contains_elems [OF r, of w] n show ?thesis
      by (auto simp: split_beta)
  qed
qed simp

definition spool_example :: WALSpool where
  "spool_example = \<lparr>spoolDirectory = ''/s''\<rparr>"

definition fs_example :: fs where
  "fs_example = \<lparr>fs_nodes = [(''/'', Dir), (''/s'', Dir), (''/d'', Dir), (''/s/B'', File ''b'')], fs_denied = []\<rparr>"

lemma spool_example_ready: "spool_ready posix_fileutils spool_example fs_example"
proof -
  have "node_at fs_example (spool_file spool_example n) \<noteq> Some Dir" if n: "plain_name n" for n
  proof -
    have "join_prefix ''/s'' = ''/s/''"
      by (simp add: join_prefix_def clean_step_def)
    then have "spool_file spool_example n = ''/s/'' @ n"
      using n by (simp add: spool_file_def spool_example_def path_join_plain)
    moreover have "path_clean (spool_file spool_example n) = spool_file spool_example n"
      using n by (simp add: spool_example_def)
    ultimately show ?thesis using n
      by (auto simp: node_at_def fs_example_def plain_name_def split: if_splits)
  qed
  then show ?thesis
    using posix_fileutils_ok
    by (simp add: spool_ready_def denied_def fs_example_def spool_example_def node_at_def
        path_clean_def clean_step_def)
qed

lemma path_base_example: "path_base ''x/A'' = ''A''" "path_base ''B'' = ''B''"
  by (simp_all add: path_base_def after_last_slash_def)

theorem spool_refines_set_witness:
  "fst (spool_run posix_fileutils spool_example [OpTouch ''x/A'', OpRemove ''B'', OpContains ''B''] fs_example)
     = [Ret True, Ret True, Ret False]"
proof -
  have names: "\<forall>c \<in> set [OpTouch ''x/A'', OpRemove ''B'', OpContains ''B'']. spool_name (op_name c)"
    by (simp add: spool_name_def path_base_example plain_name_def)
  have "''B'' \<in> spool_elems spool_example fs_example"
    by (simp add: spool_elems_def plain_name_def spool_file_def spool_example_def fs_example_def node_at_def
        path_join_def path_clean_def clean_step_def)
  then show ?thesis
    using spool_refines_set [OF spool_example_ready names] by (simp add: path_base_example)
qed

text \<open>
  Handing a segment out of the spool: with an ordinary destination, a segment that is there
  moves with its content and leaves the spool, no other name of the spool changes; one that is
  not there is reported as such and nothing changes.
\<close>

lemma MoveOut_absent:
  assumes "spool_ready fu spool fs" "plain_name w" "node_at fs (spool_file spool w) = None"
  shows "MoveOut fu spool w dest fs = (Fail ErrorNonExistentFile, fs)"
proof -
  from assms have "fu_MoveFile fu (spool_file spool w) dest fs = (Fail (ErrOs ENOENT), fs)"
    by (auto simp: spool_ready_def fileutils_ok_def move_file_ok_def)
  then show ?thesis by (simp add: MoveOut_def spool_file_def IsNotExist_def ErrorNonExistentFile_def)
qed

lemma MoveOut_present:
  assumes "spool_ready fu spool fs" "plain_name w"
    and "\<not> denied fs dest" "node_at fs dest \<noteq> Some Dir" "node_at fs (path_dir dest) = Some Dir"
    and "\<forall>n. plain_name n \<longrightarrow> path_clean dest \<noteq> spool_file spool n" "node_at fs (spool_file spool w) = Some x"
  shows "\<exists>c. x = File c \<and> MoveOut fu spool w dest fs = (Ret (), put_node dest (File c) (del_node (spool_file spool w) fs))
    \<and> spool_ready fu spool (put_node dest (File c) (del_node (spool_file spool w) fs))"
proof -
  from assms(1,2,7) obtain c where x: "x = File c" by (cases x) (auto simp: spool_ready_def)
  have "path_clean (spool_file spool w) \<noteq> path_clean dest"
    using assms(1,2,6) by (auto simp: spool_ready_def dest: spec [of _ w])
  then have mv: "MoveOut fu spool w dest fs = (Ret (), put_node dest (File c) (del_node (spool_file spool w) fs))"
    using assms x by (simp add: MoveOut_def spool_file_def [symmetric] spool_ready_def fileutils_ok_def move_file_ok_def)
  have "path_clean dest \<noteq> path_clean (spoolDirectory spool)"
    using assms(1,4) by (auto simp: spool_ready_def node_at_def)
  then have "spool_ready fu spool (put_node dest (File c) (del_node (spool_file spool w) fs))"
    using spool_ready_del(1) [OF assms(1,2)] assms(6) by (auto simp: spool_ready_def)
  with x mv show ?thesis by blast
qed

lemma MoveOut_moves:
  assumes "spool_ready fu spool fs" "plain_name w"
    and "\<not> denied fs dest" "node_at fs dest \<noteq> Some Dir" "node_at fs (path_dir dest) = Some Dir"
    and "\<forall>n. plain_name n \<longrightarrow> path_clean dest \<noteq> spool_file spool n"
  shows "case node_at fs (spool_file spool w) of
      None \<Rightarrow> MoveOut fu spool w dest fs = (Fail ErrorNonExistentFile, fs)
    | Some x \<Rightarrow> \<exists>fs'. MoveOut fu spool w dest fs = (Ret (), fs') \<and> node_at fs' dest = Some x
        \<and> spool_elems spool fs' = spool_elems spool fs - {w} \<and> spool_ready fu spool fs'"
proof (cases "node_at fs (spool_file spool w)")
  case None
  with MoveOut_absent [OF assms(1,2)] show ?thesis by simp
next
  case (Some x)
  with MoveOut_present [OF assms] obtain c where c: "x = File c"
    "MoveOut fu spool w dest fs = (Ret (), put_node dest (File c) (del_node (spool_file spool w) fs))"
    "spool_ready fu spool (put_node dest (File c) (del_node (spool_file spool w) fs))" by blast
  have "path_clean dest \<noteq> path_clean (spool_file spool n)" if "plain_name n" for n
    using that assms(1,6) by (simp add: spool_ready_def)
  then have "spool_elems spool (put_node dest (File c) (del_node (spool_file spool w) fs))
      = spool_elems spool (del_node (spool_file spool w) fs)"
    by (simp add: spool_elems_def cong: conj_cong)
  with spool_ready_del(2) [OF assms(1,2)] Some c show ?thesis by simp
qed

text \<open>Opening a spool over a directory that is new, or holds files the process owns.\<close>

lemma Spool_New_ready:
  assumes "fileutils_ok fu" "d \<noteq> []" "Spool_New fu d fs = (Ret spool, fs')"
    and "\<forall>n. plain_name n \<longrightarrow> \<not> denied fs (path_join [d, n]) \<and> node_at fs' (path_join [d, n]) \<noteq> Some Dir"
  shows "spool_ready fu spool fs' \<and> spoolDirectory spool = d"
proof -
  have e: "fu_EnsureDirectoryExists fu d fs = (Ret (), fs')" and s: "spool = \<lparr>spoolDirectory = d\<rparr>"
    using assms(3) by (cases "fu_EnsureDirectoryExists fu d fs"; cases "fst (fu_EnsureDirectoryExists fu d fs)";
        simp add: Spool_New_def)+
  with assms(1) have "node_at fs' d = Some Dir \<and> denied fs' = denied fs"
    by (simp add: fileutils_ok_def ensure_dir_ok_def)
  with assms s show ?thesis by (simp add: spool_ready_def spool_file_def)
qed

end
