(* ===== verification/Host.thy ===== *)
theory Host
  imports Filesystem Go_Json Api_Config
begin

text \<open>
  What surrounds the program, as parameters: the \<^verbatim>\<open>pgbackrest\<close> executable, the
  machinery library's file utilities, the process environment, the Kubernetes API and the lexer of
  \<^verbatim>\<open>encoding/json\<close>. A \<open>world\<close> is the state calls change: the files, the
  remote side of pgBackRest (of any type), and the argument lists of the processes started so far,
  in order.
\<close>

datatype proc_result = ProcOk string | ProcExit int | ProcFail string

text \<open>Arguments, environment, files and remote state give a result and new files and remote state.\<close>

type_synonym 'r executable =
  "string list \<Rightarrow> string list \<Rightarrow> fs \<Rightarrow> 'r \<Rightarrow> proc_result \<times> fs \<times> 'r"

record 'r host =
  h_pgbackrest :: "'r executable"
  h_fileutils :: fileutils
  h_environ :: "string list"
  h_get_secret :: "string \<Rightarrow> string \<Rightarrow> (string \<times> string) list go"
  h_get_archive :: "string \<Rightarrow> string \<Rightarrow> Archive go"
  h_parse_json :: "string \<Rightarrow> json option"

record 'r world =
  w_fs :: fs
  w_remote :: 'r
  w_ran :: "string list list"

text \<open>
  \<^verbatim>\<open>exec.Command("pgbackrest", options...)\<close> run to its end, with its standard output.
\<close>

definition run_pgbackrest :: "'r host \<Rightarrow> string list \<Rightarrow> string list \<Rightarrow> 'r world \<Rightarrow> string go \<times> 'r world" where
  "run_pgbackrest h options env w =
     (let (r, fs', remote') = h_pgbackrest h options env (w_fs w) (w_remote w)
      in ((case r of
             ProcOk out \<Rightarrow> Ret out
           | ProcExit c \<Rightarrow> Fail (ErrExit c)
           | ProcFail m \<Rightarrow> Fail (ErrMsg m)),
          w\<lparr>w_fs := fs', w_remote := remote', w_ran := w_ran w @ [options]\<rparr>))"

text \<open>\<^verbatim>\<open>execlog.RunStreaming\<close>: the same, the output going to the log.\<close>

definition run_streaming :: "'r host \<Rightarrow> string list \<Rightarrow> string list \<Rightarrow> 'r world \<Rightarrow> unit go \<times> 'r world" where
  "run_streaming h options env w = bindW (run_pgbackrest h options env w) (\<lambda>_ w'. (Ret (), w'))"

definition on_files :: "(fs \<Rightarrow> 'a \<times> fs) \<Rightarrow> 'r world \<Rightarrow> 'a \<times> 'r world" where
  "on_files f w = (let (r, fs') = f (w_fs w) in (r, w\<lparr>w_fs := fs'\<rparr>))"

definition read_files :: "(fs \<Rightarrow> 'a) \<Rightarrow> 'r world \<Rightarrow> 'a \<times> 'r world" where
  "read_files f w = (f (w_fs w), w)"

text \<open>\<^verbatim>\<open>os.Getenv\<close>: the first entry with the name counts; the empty string if there is none.\<close>

fun getenv :: "string list \<Rightarrow> string \<Rightarrow> string" where
  "getenv [] k = ''''"
| "getenv (e # es) k =
     (if take (length k + 1) e = k @ ''='' then drop (length k + 1) e else getenv es k)"

lemma on_files_simps [simp]:
  "w_remote (snd (on_files f w)) = w_remote w" "w_ran (snd (on_files f w)) = w_ran w"
  "w_fs (snd (on_files f w)) = snd (f (w_fs w))" "fst (on_files f w) = fst (f (w_fs w))"
  by (simp_all add: on_files_def split_beta)

lemma on_files_Ret_iff:
  "on_files f w = (Ret a, w') \<longleftrightarrow> (\<exists>fs'. f (w_fs w) = (Ret a, fs') \<and> w' = w\<lparr>w_fs := fs'\<rparr>)"
  by (cases "f (w_fs w)") (auto simp: on_files_def)

lemma on_files_pair [simp]: "f (w_fs w) = (r, fs') \<Longrightarrow> on_files f w = (r, w\<lparr>w_fs := fs'\<rparr>)"
  by (simp add: on_files_def)

lemma outcome_on_files [simp]:
  "outcome Q E (on_files f w) = outcome (\<lambda>a fs. Q a (w\<lparr>w_fs := fs\<rparr>)) (\<lambda>fs. E (w\<lparr>w_fs := fs\<rparr>)) (f (w_fs w))"
  by (cases "f (w_fs w)"; cases "fst (f (w_fs w))") (auto simp: on_files_def)

lemma run_pgbackrest_ran [simp]: "w_ran (snd (run_pgbackrest h options env w)) = w_ran w @ [options]"
  by (simp add: run_pgbackrest_def split_beta)

lemma run_streaming_snd [simp]: "snd (run_streaming h options env w) = snd (run_pgbackrest h options env w)"
  by (cases "run_pgbackrest h options env w"; cases "fst (run_pgbackrest h options env w)")
    (auto simp: run_streaming_def)

text \<open>A run of the executable that ended with success.\<close>

definition pushed_ok :: "'r host \<Rightarrow> string list \<Rightarrow> string list \<Rightarrow> bool" where
  "pushed_ok h env argv \<longleftrightarrow> (\<exists>fs r out s. h_pgbackrest h argv env fs r = (ProcOk out, s))"

lemma pushed_okI: "h_pgbackrest h argv env fs r = (ProcOk out, f, s) \<Longrightarrow> pushed_ok h env argv"
  unfolding pushed_ok_def by blast

lemma run_pgbackrest_Ret:
  assumes "run_pgbackrest h options env w = (Ret out, w')"
  shows "w_ran w' = w_ran w @ [options] \<and> pushed_ok h env options"
proof -
  obtain pr f s where p: "h_pgbackrest h options env (w_fs w) (w_remote w) = (pr, f, s)" by (metis prod.collapse)
  with assms obtain o1 where "pr = ProcOk o1" by (cases pr) (auto simp: run_pgbackrest_def)
  with p assms show ?thesis by (auto simp: run_pgbackrest_def intro: pushed_okI)
qed

lemma run_streaming_Ret:
  "run_streaming h options env w = (Ret (), w') \<Longrightarrow> w_ran w' = w_ran w @ [options] \<and> pushed_ok h env options"
  using run_pgbackrest_Ret by (fastforce simp: run_streaming_def bindW_Ret_iff)

lemma run_never_panics:
  "fst (run_pgbackrest h options env w) \<noteq> Panic m" "fst (run_streaming h options env w) \<noteq> Panic m"
proof -
  show "fst (run_pgbackrest h options env w) \<noteq> Panic m"
    by (simp add: run_pgbackrest_def split_beta split: proc_result.split)
  then show "fst (run_streaming h options env w) \<noteq> Panic m"
    by (cases "run_pgbackrest h options env w"; cases "fst (run_pgbackrest h options env w)")
      (auto simp: run_streaming_def)
qed

end
