(* ===== verification/Command_Builder.thy ===== *)
theory Command_Builder
  imports Api_Config
begin

text \<open>
  The pgBackRest command line (\<^verbatim>\<open>internal/pgbackrest/command/commandbuilder.go\<close>,
  \<^verbatim>\<open>internal/pgbackrest/utils\<close>) and the exit code errors
  (\<^verbatim>\<open>internal/pgbackrest/command/errors.go\<close>). The functions that add options are shown to
  be \<open>option_appender\<close>s; the lemmas say which flags they add and that flags of different
  repositories never coincide.
\<close>

section \<open>Flags and environment entries\<close>

definition FormatRepoFlag :: "nat \<Rightarrow> string \<Rightarrow> string" where
  "FormatRepoFlag repository flag = ''--repo'' @ fmt_nat 10 (repository + 1) @ ''-'' @ flag"

definition FormatDbFlag :: "nat \<Rightarrow> string \<Rightarrow> string" where
  "FormatDbFlag database flag = ''--pg'' @ fmt_nat 10 (database + 1) @ ''-'' @ flag"

definition FormatEnv :: "string \<Rightarrow> string \<Rightarrow> string" where
  "FormatEnv env value = ''PGBACKREST_'' @ env @ ''='' @ value"

definition FormatRepoEnv :: "nat \<Rightarrow> string \<Rightarrow> string \<Rightarrow> string" where
  "FormatRepoEnv repository env value =
     ''PGBACKREST_REPO'' @ fmt_nat 10 (repository + 1) @ ''_'' @ env @ ''='' @ value"

definition FormatDbEnv :: "nat \<Rightarrow> string \<Rightarrow> string \<Rightarrow> string" where
  "FormatDbEnv database env value =
     ''PGBACKREST_PG'' @ fmt_nat 10 database @ ''_'' @ env @ ''='' @ value"

section \<open>Options\<close>

definition append_if :: "bool \<Rightarrow> string list \<Rightarrow> string list \<Rightarrow> string list" where
  "append_if c extra options = (if c then options @ extra else options)"

definition appendRetentionOptions ::
  "string list \<Rightarrow> nat \<Rightarrow> PgbackrestRepository \<Rightarrow> string list go" where
  "appendRetentionOptions options repoIndex repository =
     (case repo_Retention repository of
        None \<Rightarrow> Ret options
      | Some retention \<Rightarrow>
          let o1 = append_if (0 < length (ret_ArchiveType retention))
                     [FormatRepoFlag repoIndex ''retention-archive-type'', ret_ArchiveType retention] options;
              o2 = append_if (0 < length (ret_FullType retention))
                     [FormatRepoFlag repoIndex ''retention-full-type'', ret_FullType retention] o1;
              o3 = append_if (0 < sint (ret_Archive retention))
                     [FormatRepoFlag repoIndex ''retention-archive'', itoa (sint (ret_Archive retention))] o2;
              o4 = append_if (0 < sint (ret_Full retention))
                     [FormatRepoFlag repoIndex ''retention-full'', itoa (sint (ret_Full retention))] o3;
              o5 = append_if (0 < sint (ret_Diff retention))
                     [FormatRepoFlag repoIndex ''retention-diff'', itoa (sint (ret_Diff retention))] o4
          in Ret (case ret_History retention of
                    None \<Rightarrow> o5
                  | Some h \<Rightarrow> o5 @ [FormatRepoFlag repoIndex ''retention-history'', itoa (sint h)]))"

definition appendCloudProviderOptions ::
  "string list \<Rightarrow> nat \<Rightarrow> PgbackrestRepository \<Rightarrow> string list go" where
  "appendCloudProviderOptions options repoIndex repository =
     (let o1 = options @ [FormatRepoFlag repoIndex ''type'', ''s3''];
          o2 = append_if (0 < length (repo_EndpointURL repository))
                 [FormatRepoFlag repoIndex ''s3-endpoint'', repo_EndpointURL repository] o1;
          o3 = append_if (repo_DisableVerifyTLS repository)
                 [FormatRepoFlag repoIndex ''storage-verify-tls=n''] o2;
          o4 = o3 @ [FormatRepoFlag repoIndex ''s3-bucket'', repo_Bucket repository,
                     FormatRepoFlag repoIndex ''path'', repo_DestinationPath repository]
      in Ret (case cred_AWS (repo_Credentials repository) of
                None \<Rightarrow> o4
              | Some aws \<Rightarrow> append_if (0 < length (s3_URIStyle aws))
                              [FormatRepoFlag repoIndex ''s3-uri-style'', s3_URIStyle aws] o4))"

text \<open>\<^verbatim>\<open>for index, repo := range configuration.Repositories\<close>, leaving at the first error.\<close>

fun range_repos ::
  "(string list \<Rightarrow> nat \<Rightarrow> PgbackrestRepository \<Rightarrow> string list go) \<Rightarrow> nat \<Rightarrow>
   PgbackrestRepository list \<Rightarrow> string list \<Rightarrow> string list go" where
  "range_repos step index [] options = Ret options"
| "range_repos step index (repo # repos) options =
     bindG (step options index repo) (range_repos step (index + 1) repos)"

definition AppendCloudProviderOptionsFromConfiguration ::
  "string list \<Rightarrow> PgbackrestConfiguration \<Rightarrow> string list go" where
  "AppendCloudProviderOptionsFromConfiguration options configuration =
     range_repos appendCloudProviderOptions 0 (cfg_Repositories configuration) options"

definition AppendRetentionOptionsFromConfiguration ::
  "string list \<Rightarrow> PgbackrestConfiguration \<Rightarrow> string list go" where
  "AppendRetentionOptionsFromConfiguration options configuration =
     range_repos appendRetentionOptions 0 (cfg_Repositories configuration) options"

definition appendStanzaOptions :: "string list \<Rightarrow> nat \<Rightarrow> string \<Rightarrow> bool \<Rightarrow> string list go" where
  "appendStanzaOptions options index pgDataDirectory clusterRunning =
     (let o1 = options @ [FormatDbFlag index ''path'', pgDataDirectory]
      in Ret (append_if clusterRunning
            [FormatDbFlag index ''user'', ''postgres'',
             FormatDbFlag index ''socket-path'', ''/controller/run/''] o1))"

definition AppendStanzaOptionsFromConfiguration ::
  "string list \<Rightarrow> PgbackrestConfiguration \<Rightarrow> string \<Rightarrow> bool \<Rightarrow> string list go" where
  "AppendStanzaOptionsFromConfiguration options configuration pgDataDirectory clusterRunning =
     appendStanzaOptions options 0 pgDataDirectory clusterRunning"

text \<open>The configuration pointer may be nil.\<close>

definition appendLogOptions ::
  "string list \<Rightarrow> PgbackrestConfiguration option \<Rightarrow> string list go" where
  "appendLogOptions options configuration =
     (let stderrLevel =
            (case configuration of
               None \<Rightarrow> ''warn''
             | Some c \<Rightarrow>
                 (case cfg_Log c of
                    None \<Rightarrow> ''warn''
                  | Some logConfig \<Rightarrow>
                      if log_LevelStderr logConfig \<noteq> '''' then log_LevelStderr logConfig else ''warn''))
      in Ret (options @ [''--log-level-stderr'', stderrLevel, ''--log-level-console'', ''off'']))"

definition AppendLogOptionsFromConfiguration ::
  "string list \<Rightarrow> PgbackrestConfiguration option \<Rightarrow> string list go" where
  "AppendLogOptionsFromConfiguration options configuration = appendLogOptions options configuration"

definition CloudWalRestoreOptions ::
  "PgbackrestConfiguration \<Rightarrow> string \<Rightarrow> string \<Rightarrow> string list go" where
  "CloudWalRestoreOptions configuration clusterName pgDataDirectory =
     bindG (AppendCloudProviderOptionsFromConfiguration [] configuration) (\<lambda>options.
     bindG (AppendStanzaOptionsFromConfiguration options configuration pgDataDirectory False) (\<lambda>options.
     bindG (AppendLogOptionsFromConfiguration options (Some configuration)) (\<lambda>options.
       let stanza = (if length (cfg_Stanza configuration) \<noteq> 0 then cfg_Stanza configuration
                     else clusterName);
           options = options @ [''--stanza'', stanza]
       in Ret (AppendAdditionalArchiveGetCommandArgs (cfg_Wal configuration) options))))"

section \<open>Exit codes\<close>

definition operationErrorCode :: int where "operationErrorCode = 1"
definition networkErrorCode :: int where "networkErrorCode = 2"
definition cliErrorCode :: int where "cliErrorCode = 3"
definition generalErrorCode :: int where "generalErrorCode = 4"

definition errorDescriptions :: "(int \<times> string) list" where
  "errorDescriptions =
     [(operationErrorCode, ''Operation error''), (networkErrorCode, ''Network error''),
      (cliErrorCode, ''CLI argument parsing error''), (generalErrorCode, ''General error'')]"

fun CloudRestoreError_Error :: "error \<Rightarrow> string option" where
  "CloudRestoreError_Error (ErrCloudRestore code has) =
     Some ((case map_of errorDescriptions code of None \<Rightarrow> ''Generic failure'' | Some m \<Rightarrow> m)
           @ '' (exit code '' @ itoa code @ '')'')"
| "CloudRestoreError_Error _ = None"

fun IsRetriable :: "error \<Rightarrow> bool" where
  "IsRetriable (ErrCloudRestore code has) =
     ((code = networkErrorCode \<or> code = generalErrorCode) \<and> has)"
| "IsRetriable _ = False"

text \<open>The nil error is \<open>None\<close>.\<close>

definition UnmarshalPgbackrestRestoreExitCode :: "int \<Rightarrow> error option" where
  "UnmarshalPgbackrestRestoreExitCode exitCode =
     (if exitCode = 0 then None else Some (ErrCloudRestore exitCode True))"

section \<open>The flags each function adds\<close>

definition cloud_flags :: "nat \<Rightarrow> PgbackrestRepository \<Rightarrow> string list" where
  "cloud_flags i repo =
     [FormatRepoFlag i ''type'', ''s3'']
     @ (if repo_EndpointURL repo \<noteq> [] then [FormatRepoFlag i ''s3-endpoint'', repo_EndpointURL repo] else [])
     @ (if repo_DisableVerifyTLS repo then [FormatRepoFlag i ''storage-verify-tls=n''] else [])
     @ [FormatRepoFlag i ''s3-bucket'', repo_Bucket repo, FormatRepoFlag i ''path'', repo_DestinationPath repo]
     @ (case cred_AWS (repo_Credentials repo) of None \<Rightarrow> []
        | Some aws \<Rightarrow> if s3_URIStyle aws \<noteq> [] then [FormatRepoFlag i ''s3-uri-style'', s3_URIStyle aws] else [])"

definition number_flag :: "nat \<Rightarrow> string \<Rightarrow> 32 word \<Rightarrow> string list" where
  "number_flag i name w = (if 0 < sint w then [FormatRepoFlag i name, itoa (sint w)] else [])"

definition text_flag :: "nat \<Rightarrow> string \<Rightarrow> string \<Rightarrow> string list" where
  "text_flag i name v = (if v \<noteq> [] then [FormatRepoFlag i name, v] else [])"

definition retention_flags :: "nat \<Rightarrow> PgbackrestRepository \<Rightarrow> string list" where
  "retention_flags i repo =
     (case repo_Retention repo of None \<Rightarrow> [] | Some r \<Rightarrow>
        text_flag i ''retention-archive-type'' (ret_ArchiveType r)
        @ text_flag i ''retention-full-type'' (ret_FullType r)
        @ number_flag i ''retention-archive'' (ret_Archive r)
        @ number_flag i ''retention-full'' (ret_Full r)
        @ number_flag i ''retention-diff'' (ret_Diff r)
        @ (case ret_History r of None \<Rightarrow> [] | Some h \<Rightarrow> [FormatRepoFlag i ''retention-history'', itoa (sint h)]))"

definition stanza_flags :: "string \<Rightarrow> bool \<Rightarrow> string list" where
  "stanza_flags pgdata running =
     [''--pg1-path'', pgdata]
     @ (if running then [''--pg1-user'', ''postgres'', ''--pg1-socket-path'', ''/controller/run/''] else [])"

definition log_flags :: "PgbackrestConfiguration option \<Rightarrow> string list" where
  "log_flags configuration =
     [''--log-level-stderr'',
      case configuration of None \<Rightarrow> ''warn'' | Some c \<Rightarrow>
        (case cfg_Log c of None \<Rightarrow> ''warn'' | Some l \<Rightarrow>
           if log_LevelStderr l = '''' then ''warn'' else log_LevelStderr l),
      ''--log-level-console'', ''off'']"

fun repos_flags :: "(nat \<Rightarrow> PgbackrestRepository \<Rightarrow> string list) \<Rightarrow> nat \<Rightarrow> PgbackrestRepository list \<Rightarrow> string list" where
  "repos_flags f i [] = []"
| "repos_flags f i (r # rs) = f i r @ repos_flags f (i + 1) rs"

lemma range_repos_flags:
  assumes "\<And>os i r. step os i r = Ret (os @ f i r)"
  shows "range_repos step i rs os = Ret (os @ repos_flags f i rs)"
  by (induction rs arbitrary: i os) (simp_all add: assms)

lemma repos_flags_iff:
  "x \<in> set (repos_flags f i rs) \<longleftrightarrow> (\<exists>k < length rs. x \<in> set (f (i + k) (rs ! k)))"
proof (induction rs arbitrary: i)
  case (Cons r rs)
  show ?case
  proof
    assume "x \<in> set (repos_flags f i (r # rs))"
    then consider "x \<in> set (f i r)" | k where "k < length rs" "x \<in> set (f (i + 1 + k) (rs ! k))"
      using Cons by auto
    then show "\<exists>k < length (r # rs). x \<in> set (f (i + k) ((r # rs) ! k))"
    proof cases
      case 1 then show ?thesis by (intro exI [of _ 0]) simp
    next
      case 2 then show ?thesis by (intro exI [of _ "Suc k"]) simp
    qed
  next
    assume "\<exists>k < length (r # rs). x \<in> set (f (i + k) ((r # rs) ! k))"
    then obtain k where k: "k < length (r # rs)" "x \<in> set (f (i + k) ((r # rs) ! k))" by auto
    show "x \<in> set (repos_flags f i (r # rs))"
    proof (cases k)
      case 0 with k show ?thesis by simp
    next
      case (Suc j)
      with k have "\<exists>k < length rs. x \<in> set (f (i + 1 + k) (rs ! k))" by auto
      with Cons [of "i + 1"] show ?thesis by simp
    qed
  qed
qed simp

interpretation cloud: option_appender
  "\<lambda>os. AppendCloudProviderOptionsFromConfiguration os cfg"
  "repos_flags cloud_flags 0 (cfg_Repositories cfg)" for cfg
  by unfold_locales
    (auto simp: AppendCloudProviderOptionsFromConfiguration_def appendCloudProviderOptions_def
      cloud_flags_def append_if_def Let_def split: option.splits intro!: range_repos_flags)

interpretation retention: option_appender
  "\<lambda>os. AppendRetentionOptionsFromConfiguration os cfg"
  "repos_flags retention_flags 0 (cfg_Repositories cfg)" for cfg
  by unfold_locales
    (auto simp: AppendRetentionOptionsFromConfiguration_def appendRetentionOptions_def
      retention_flags_def number_flag_def text_flag_def append_if_def Let_def
      split: option.splits intro!: range_repos_flags)

interpretation stanza: option_appender
  "\<lambda>os. AppendStanzaOptionsFromConfiguration os cfg pgdata running"
  "stanza_flags pgdata running" for cfg pgdata running
  by unfold_locales
    (simp add: AppendStanzaOptionsFromConfiguration_def appendStanzaOptions_def stanza_flags_def
      FormatDbFlag_def append_if_def fmt_nat.simps digit_char_def)

interpretation log_opts: option_appender
  "\<lambda>os. AppendLogOptionsFromConfiguration os cfg" "log_flags cfg" for cfg
  by unfold_locales
    (auto simp: AppendLogOptionsFromConfiguration_def appendLogOptions_def log_flags_def Let_def
      split: option.splits)

text \<open>The two steps every command starts with, and the three of most.\<close>

interpretation cloud_stanza: option_pipeline
  "\<lambda>os. AppendCloudProviderOptionsFromConfiguration os cfg"
  "\<lambda>os. AppendStanzaOptionsFromConfiguration os cfg pgdata running" for cfg pgdata running
  by unfold_locales

lemmas options_simps = cloud.bind_app retention.bind_app stanza.bind_app log_opts.bind_app

section \<open>Flags of different repositories are different\<close>

lemma fmt_nat10_no_dash: "CHR ''-'' \<notin> set (fmt_nat 10 n)" "CHR ''_'' \<notin> set (fmt_nat 10 n)"
  by (simp_all add: fmt_nat_no_char digit_val_def)

lemma append_sep_inject:
  "c \<notin> set a \<Longrightarrow> c \<notin> set b \<Longrightarrow> a @ c # x = b @ c # y \<longleftrightarrow> a = b \<and> x = y"
  by (induction a arbitrary: b) (case_tac b; auto)+

lemma append_sep_inject_env:
  "fmt_nat 10 m @ CHR ''_'' # x = fmt_nat 10 n @ CHR ''_'' # y \<longleftrightarrow> m = n \<and> x = y"
  using append_sep_inject [OF fmt_nat10_no_dash(2) fmt_nat10_no_dash(2), of m x n y]
  by (simp add: fmt_nat_inject)

lemma FormatRepoEnv_same_repo:
  "FormatRepoEnv i e v = FormatRepoEnv j e' v' \<Longrightarrow> i = j \<and> e @ ''='' @ v = e' @ ''='' @ v'"
  using append_sep_inject_env [of "i + 1" "e @ ''='' @ v" "j + 1" "e' @ ''='' @ v'"]
  by (simp add: FormatRepoEnv_def)

text \<open>
  Flags of two repositories coincide only if the repositories and the option names do, and
  an environment entry fixes its repository: no setting of one repository can be taken for a
  setting of another.
\<close>

theorem repo_flags_distinct:
  "(FormatRepoFlag i f = FormatRepoFlag j g) = (i = j \<and> f = g)
   \<and> (FormatRepoEnv i e v = FormatRepoEnv j e' v') = (i = j \<and> e @ ''='' @ v = e' @ ''='' @ v')"
  using append_sep_inject [OF fmt_nat10_no_dash(1) fmt_nat10_no_dash(1), of "i + 1" f "j + 1" g]
    append_sep_inject_env [of "i + 1" "e @ ''='' @ v" "j + 1" "e' @ ''='' @ v'"]
  by (auto simp: FormatRepoFlag_def FormatRepoEnv_def fmt_nat_inject)

lemma sublist_repos_flags:
  assumes "i < length rs" "sublist ys (f (n + i) (rs ! i))"
  shows "sublist ys (repos_flags f n rs)"
  using assms
proof (induction rs arbitrary: i n)
  case (Cons r rs)
  show ?case
  proof (cases i)
    case 0
    with Cons.prems have "sublist ys (f n r)" by simp
    then show ?thesis by (simp add: sublist_appendI sublist_order.order_trans [OF _ sublist_append_rightI])
  next
    case (Suc j)
    with Cons.prems have "sublist ys (repos_flags f (n + 1) rs)"
      by (intro Cons.IH [of j]) auto
    then show ?thesis by (simp add: sublist_order.order_trans [OF _ sublist_append_leftI])
  qed
qed simp

lemma sublist_cloud_flags:
  "sublist [FormatRepoFlag i ''s3-bucket'', repo_Bucket r, FormatRepoFlag i ''path'', repo_DestinationPath r]
     (cloud_flags i r)"
proof -
  have "sublist ys (xs @ ys @ zs)" for xs ys zs :: "string list" by simp
  then have "sublist ys ((xs @ xs' @ xs'') @ ys @ zs)" for xs xs' xs'' ys zs :: "string list" .
  then show ?thesis unfolding cloud_flags_def by (simp only: append.assoc)
qed

text \<open>
  The provider options keep the options given, and every repository of the configuration is
  named in them with its own number (counted from 1), bucket and path.
\<close>

theorem cloud_options_name_each_repo:
  assumes "i < length (cfg_Repositories cfg)"
  shows "\<exists>added. AppendCloudProviderOptionsFromConfiguration options cfg = Ret (options @ added)
    \<and> sublist [''--repo'' @ fmt_nat 10 (i + 1) @ ''-s3-bucket'', repo_Bucket (cfg_Repositories cfg ! i),
               ''--repo'' @ fmt_nat 10 (i + 1) @ ''-path'', repo_DestinationPath (cfg_Repositories cfg ! i)]
        added"
proof -
  have "sublist [FormatRepoFlag i ''s3-bucket'', repo_Bucket (cfg_Repositories cfg ! i),
      FormatRepoFlag i ''path'', repo_DestinationPath (cfg_Repositories cfg ! i)]
      (repos_flags cloud_flags 0 (cfg_Repositories cfg))"
    using assms by (intro sublist_repos_flags [of i]) (simp_all add: sublist_cloud_flags)
  then show ?thesis by (simp add: cloud.app_flags FormatRepoFlag_def)
qed

definition repo_example :: PgbackrestRepository where
  "repo_example =
     \<lparr>repo_Credentials = \<lparr>cred_AWS = None\<rparr>, repo_Encryption = '''', repo_EncryptionKey = None,
      repo_EndpointURL = '''', repo_EndpointCA = None, repo_DisableVerifyTLS = False,
      repo_DestinationPath = ''/'', repo_Bucket = ''backups'', repo_Retention = None\<rparr>"

definition cfg_example :: PgbackrestConfiguration where
  "cfg_example =
     \<lparr>cfg_Repositories = [repo_example], cfg_Wal = None, cfg_Data = None, cfg_Restore = None,
      cfg_Compression = '''', cfg_Stanza = '''', cfg_Log = None, cfg_CreateStanza = ''''\<rparr>"

theorem cloud_options_name_each_repo_witness:
  "\<exists>added. AppendCloudProviderOptionsFromConfiguration [''info''] cfg_example = Ret (''info'' # added)
     \<and> sublist [''--repo1-s3-bucket'', ''backups'', ''--repo1-path'', ''/''] added"
proof -
  have "0 < length (cfg_Repositories cfg_example)" by (simp add: cfg_example_def)
  from cloud_options_name_each_repo [OF this, of "[''info'']"] show ?thesis
    by (simp add: cfg_example_def repo_example_def fmt_nat.simps digit_char_def)
qed

text \<open>
  The \<^verbatim>\<open>archive-get\<close> command line always succeeds; the user's arguments come last and
  none of them has the key of a generated option, so neither the stanza, nor the data directory,
  nor the pinned console log level can be overridden.
\<close>

theorem CloudWalRestoreOptions_pinned:
  "\<exists>base extra. CloudWalRestoreOptions cfg clusterName pgdata = Ret (base @ extra)
     \<and> base = repos_flags cloud_flags 0 (cfg_Repositories cfg) @ stanza_flags pgdata False
              @ log_flags (Some cfg)
              @ [''--stanza'', if cfg_Stanza cfg = '''' then clusterName else cfg_Stanza cfg]
     \<and> arg_key ` set extra \<inter> arg_key ` set base = {}
     \<and> {''--stanza'', ''--pg1-path'', ''--log-level-console''} \<subseteq> arg_key ` set base"
proof -
  let ?base = "repos_flags cloud_flags 0 (cfg_Repositories cfg) @ stanza_flags pgdata False
              @ log_flags (Some cfg)
              @ [''--stanza'', if cfg_Stanza cfg = '''' then clusterName else cfg_Stanza cfg]"
  have r: "CloudWalRestoreOptions cfg clusterName pgdata =
      Ret (AppendAdditionalArchiveGetCommandArgs (cfg_Wal cfg) ?base)"
    by (simp add: CloudWalRestoreOptions_def options_simps Let_def)
  note e = AppendAdditional_fresh(1) [of "cfg_Wal cfg" ?base]
  have k: "arg_key ''--stanza'' = ''--stanza''" "arg_key ''--pg1-path'' = ''--pg1-path''"
    "arg_key ''--log-level-console'' = ''--log-level-console''"
    by (simp_all add: arg_key_def)
  have "''--stanza'' \<in> set ?base" "''--pg1-path'' \<in> set ?base"
    "''--log-level-console'' \<in> set ?base"
    by (simp_all add: stanza_flags_def log_flags_def)
  from this [THEN imageI, of arg_key]
  have "{''--stanza'', ''--pg1-path'', ''--log-level-console''} \<subseteq> arg_key ` set ?base"
    unfolding k by (intro insert_subsetI empty_subsetI)
  with r e show ?thesis by (metis (no_types, lifting))
qed

end
