(* ===== verification/Backup_Command.thy ===== *)
theory Backup_Command
  imports Catalog Host Command_Builder
begin

text \<open>
  The pgBackRest commands that concern backups: \<^verbatim>\<open>info\<close>
  (\<^verbatim>\<open>internal/pgbackrest/command/backuplist.go\<close>), \<^verbatim>\<open>backup\<close> and
  \<^verbatim>\<open>stanza-create\<close> (\<^verbatim>\<open>internal/pgbackrest/backup/backup.go\<close>) and
  \<^verbatim>\<open>restore\<close> (\<^verbatim>\<open>internal/pgbackrest/restorer/backup.go\<close>). Each is run
  through the executable of the \<open>host\<close>; the lemmas give the argument list of every run and what
  becomes of its outcome.
\<close>

section \<open>Reading the catalog\<close>

definition info_options :: "PgbackrestConfiguration \<Rightarrow> string \<Rightarrow> string list \<Rightarrow> string list go" where
  "info_options configuration stanza additionalOptions =
     bindG (AppendCloudProviderOptionsFromConfiguration [''info'', ''--output'', ''json''] configuration)
       (\<lambda>options.
     bindG (AppendLogOptionsFromConfiguration options (Some configuration)) (\<lambda>options.
       let options = options @ [''--stanza'', stanza];
           options = options @ additionalOptions
       in Ret options))"

definition executeQueryCommand ::
  "'r host \<Rightarrow> PgbackrestConfiguration \<Rightarrow> string \<Rightarrow> string list \<Rightarrow> string list \<Rightarrow>
   'r world \<Rightarrow> string go \<times> 'r world" where
  "executeQueryCommand h configuration stanza additionalOptions env w =
     bindW (info_options configuration stanza additionalOptions, w)
       (\<lambda>options w. run_pgbackrest h options env w)"

definition GetBackupList ::
  "'r host \<Rightarrow> PgbackrestConfiguration \<Rightarrow> string \<Rightarrow> string list \<Rightarrow> 'r world \<Rightarrow> Catalog go \<times> 'r world" where
  "GetBackupList h configuration stanza env w =
     bindW (executeQueryCommand h configuration stanza [] env w)
       (\<lambda>rawJSON w. (NewCatalogFromPgbackrestInfo (h_parse_json h) rawJSON, w))"

text \<open>
  The catalog is a pointer: when no backup carries the name, the function returns
  \<^verbatim>\<open>nil, err\<close> with \<^verbatim>\<open>err\<close> nil.
\<close>

definition GetBackupByAnnotatedName ::
  "'r host \<Rightarrow> string \<Rightarrow> string \<Rightarrow> PgbackrestConfiguration \<Rightarrow> string list \<Rightarrow> 'r world \<Rightarrow>
   Catalog option go \<times> 'r world" where
  "GetBackupByAnnotatedName h backupName stanza configuration env w =
     bindW (GetBackupList h configuration stanza env w) (\<lambda>fullCatalog w.
       let backupID = GetBackupIDFromAnnotatedName fullCatalog backupName in
       if backupID = '''' then (Ret None, w)
       else bindW (executeQueryCommand h configuration stanza [''--set'', backupID] env w) (\<lambda>rawJSON w.
              (bindG (NewSingleBackupCatalogFromPgbackrestInfo (h_parse_json h) rawJSON) (\<lambda>c. Ret (Some c)), w)))"

definition GetLatestBackup ::
  "'r host \<Rightarrow> string \<Rightarrow> PgbackrestConfiguration \<Rightarrow> string list \<Rightarrow> 'r world \<Rightarrow>
   PgbackrestBackup option go \<times> 'r world" where
  "GetLatestBackup h stanza configuration env w =
     bindW (GetBackupList h configuration stanza env w) (\<lambda>backupList w.
       if length (cat_Backups backupList) = 0
       then (Fail (ErrMsg ''no backup found on the remote object storage''), w)
       else (Ret (LatestBackupInfo backupList), w))"

section \<open>Backups\<close>

record Backup_Command =
  bc_configuration :: PgbackrestConfiguration
  bc_backupConfig :: "(string \<times> string) list option"
  bc_pgDataDirectory :: string

text \<open>
  \<open>bc_backupConfig\<close> is the backup's plugin configuration, a pointer: \<open>None\<close> is nil, which
  is dereferenced only for a backup; else its parameters, in the order in which one
  \<^verbatim>\<open>range\<close> visits them.
\<close>

definition NewBackupCommand ::
  "PgbackrestConfiguration \<Rightarrow> (string \<times> string) list option \<Rightarrow> string \<Rightarrow> Backup_Command" where
  "NewBackupCommand configuration backupConfig pgDataDirectory =
     \<lparr>bc_configuration = configuration, bc_backupConfig = backupConfig, bc_pgDataDirectory = pgDataDirectory\<rparr>"

definition GetDataConfiguration :: "Backup_Command \<Rightarrow> string list \<Rightarrow> string list go" where
  "GetDataConfiguration b options =
     (let cfg = bc_configuration b in
      case cfg_Data cfg of
        None \<Rightarrow> Ret options
      | Some d \<Rightarrow>
          let o1 = append_if (length (cfg_Compression cfg) \<noteq> 0) [''--compress-type'', cfg_Compression cfg] options;
              o2 = append_if (data_ImmediateCheckpoint d) [''--start-fast''] o1;
              o3 = (case data_Jobs d of None \<Rightarrow> o2 | Some j \<Rightarrow> o2 @ [''--process-max'', itoa (sint j)])
          in Ret (AppendAdditionalBackupCommandArgs (Some d) o3))"

fun annotation_loop :: "(string \<times> string) list \<Rightarrow> string list \<Rightarrow> string list go" where
  "annotation_loop [] options = Ret options"
| "annotation_loop ((k, v) # es) options =
     (if k = BackupNameAnnotation
      then Fail (ErrMsg (''annotation '' @ [CHR 0x27] @ BackupNameAnnotation @ [CHR 0x27] @ '' is reserved for backup name''))
      else annotation_loop es (options @ [''--annotation'', k @ ''='' @ v]))"

definition parameter_flags :: "(string \<times> string) list \<Rightarrow> string list" where
  "parameter_flags es = map (\<lambda>(k, v). ''--'' @ k @ ''='' @ v) es"

definition lock_path :: string where "lock_path = ''/controller/tmp/pgbackrest''"

definition GetPgbackrestBackupOptions :: "Backup_Command \<Rightarrow> string \<Rightarrow> string \<Rightarrow> string list go" where
  "GetPgbackrestBackupOptions b backupName stanza =
     (let cfg = bc_configuration b;
          options = [''backup'', ''--annotation'', BackupNameAnnotation @ ''='' @ backupName]
      in bindG (GetDataConfiguration b options) (\<lambda>options.
         bindG (case cfg_Data cfg of None \<Rightarrow> Ret options
                | Some d \<Rightarrow> annotation_loop (data_Annotations d) options) (\<lambda>options.
         bindG (AppendCloudProviderOptionsFromConfiguration options cfg) (\<lambda>options.
         bindG (AppendRetentionOptionsFromConfiguration options cfg) (\<lambda>options.
         bindG (AppendStanzaOptionsFromConfiguration options cfg (bc_pgDataDirectory b) True) (\<lambda>options.
         bindG (AppendLogOptionsFromConfiguration options (Some cfg)) (\<lambda>options.
           case bc_backupConfig b of
             None \<Rightarrow> Panic ''nil pointer dereference''
           | Some ps \<Rightarrow>
               let options = options @ parameter_flags ps
               in Ret (options @ [''--stanza'', stanza, ''--lock-path'', lock_path, ''--no-archive-check'']))))))))"

definition getStanzaCreateOptions :: "Backup_Command \<Rightarrow> string \<Rightarrow> string list go" where
  "getStanzaCreateOptions b stanza =
     (let cfg = bc_configuration b in
      bindG (AppendCloudProviderOptionsFromConfiguration [''stanza-create''] cfg) (\<lambda>options.
      bindG (AppendStanzaOptionsFromConfiguration options cfg (bc_pgDataDirectory b) True) (\<lambda>options.
      bindG (AppendLogOptionsFromConfiguration options (Some cfg)) (\<lambda>options.
        Ret (options @ [''--stanza'', stanza, ''--lock-path'', lock_path])))))"

definition GetExecutedBackupInfo ::
  "'r host \<Rightarrow> Backup_Command \<Rightarrow> string \<Rightarrow> string \<Rightarrow> string list \<Rightarrow> 'r world \<Rightarrow> Catalog option go \<times> 'r world" where
  "GetExecutedBackupInfo h b backupName stanza env w =
     GetBackupByAnnotatedName h backupName stanza (bc_configuration b) env w"

definition IsCompatible :: "Backup_Command \<Rightarrow> nat \<Rightarrow> unit go" where
  "IsCompatible b postgresVers = Ret ()"

text \<open>The text of an error, as far as the program looks at it.\<close>

fun error_text :: "error \<Rightarrow> string" where
  "error_text (ErrMsg m) = m"
| "error_text (ErrWrap m e) = m @ '': '' @ error_text e"
| "error_text (ErrExit c) = ''exit status '' @ itoa c"
| "error_text _ = ''error''"

definition Take ::
  "'r host \<Rightarrow> Backup_Command \<Rightarrow> string \<Rightarrow> string \<Rightarrow> string list \<Rightarrow> string \<Rightarrow> 'r world \<Rightarrow> unit go \<times> 'r world" where
  "Take h b backupName stanza env backupTemporaryDirectory w =
     bindW (GetPgbackrestBackupOptions b backupName stanza, w) (\<lambda>options w.
       case run_streaming h options (env @ [''TMPDIR='' @ backupTemporaryDirectory]) w of
         (Fail err, w') \<Rightarrow>
           if error_text err = ''3''
           then (Fail (ErrMsg ''invalid arguments for pgbackrest backup. Ensure that the additionalCommandArgs field is correctly populated''), w')
           else (Fail err, w')
       | r \<Rightarrow> r)"

definition CreatePgbackrestStanza ::
  "'r host \<Rightarrow> Backup_Command \<Rightarrow> string \<Rightarrow> string list \<Rightarrow> 'r world \<Rightarrow> unit go \<times> 'r world" where
  "CreatePgbackrestStanza h b stanza env w =
     bindW (getStanzaCreateOptions b stanza, w) (\<lambda>options w.
       wrapW ''unexpected failure invoking pgbackrest stanza-create'' (run_streaming h options env w))"

section \<open>Restores\<close>

record Restore_Command =
  rcmd_configuration :: PgbackrestConfiguration
  rcmd_pgDataDirectory :: string

definition NewRestoreCommand :: "PgbackrestConfiguration \<Rightarrow> string \<Rightarrow> Restore_Command" where
  "NewRestoreCommand configuration pgDataDirectory =
     \<lparr>rcmd_configuration = configuration, rcmd_pgDataDirectory = pgDataDirectory\<rparr>"

definition GetRestoreConfiguration :: "Restore_Command \<Rightarrow> string list \<Rightarrow> string list go" where
  "GetRestoreConfiguration b options =
     (case cfg_Restore (rcmd_configuration b) of
        None \<Rightarrow> Ret options
      | Some r \<Rightarrow>
          let o1 = (case rest_Jobs r of None \<Rightarrow> options | Some j \<Rightarrow> options @ [''--process-max'', itoa (sint j)])
          in Ret (AppendAdditionalRestoreCommandArgs (Some r) o1))"

definition GetPgbackrestRestoreOptions :: "Restore_Command \<Rightarrow> string \<Rightarrow> string \<Rightarrow> string list go" where
  "GetPgbackrestRestoreOptions b backupName stanza =
     (let cfg = rcmd_configuration b;
          options = [''--stanza'', stanza, ''--lock-path'', lock_path]
      in bindG (GetRestoreConfiguration b options) (\<lambda>options.
         bindG (AppendCloudProviderOptionsFromConfiguration options cfg) (\<lambda>options.
         bindG (AppendLogOptionsFromConfiguration options (Some cfg)) (\<lambda>options.
         bindG (AppendStanzaOptionsFromConfiguration options cfg (rcmd_pgDataDirectory b) False) (\<lambda>options.
           Ret (options @ [''restore'', ''--set'', backupName]))))))"

definition auto_conf :: string where
  "auto_conf = ''# Do not edit this file manually!'' @ [CHR 0x0A]
     @ ''# It will be overwritten by the ALTER SYSTEM command.'' @ [CHR 0x0A]"

definition Restore_backup ::
  "'r host \<Rightarrow> Restore_Command \<Rightarrow> string \<Rightarrow> string \<Rightarrow> string list \<Rightarrow> 'r world \<Rightarrow> unit go \<times> 'r world" where
  "Restore_backup h b backupName stanza env w =
     bindW (GetPgbackrestRestoreOptions b backupName stanza, w) (\<lambda>options w.
       case run_streaming h options env w of
         (Fail err, w') \<Rightarrow>
           ((case exit_code_of err of
               None \<Rightarrow> Fail err
             | Some c \<Rightarrow> (case UnmarshalPgbackrestRestoreExitCode c of None \<Rightarrow> Ret () | Some err' \<Rightarrow> Fail err')), w')
       | (Panic m, w') \<Rightarrow> (Panic m, w')
       | (Ret _, w') \<Rightarrow>
           on_files (os_WriteFile (path_join [rcmd_pgDataDirectory b, ''postgresql.auto.conf'']) auto_conf) w')"

section \<open>The argument lists\<close>

lemma info_options_flags:
  "info_options cfg stanza extra =
     Ret ([''info'', ''--output'', ''json''] @ repos_flags cloud_flags 0 (cfg_Repositories cfg)
       @ log_flags (Some cfg) @ [''--stanza'', stanza] @ extra)"
  by (simp add: info_options_def options_simps Let_def)

lemma stanza_create_flags:
  "getStanzaCreateOptions b stanza =
     Ret ([''stanza-create''] @ repos_flags cloud_flags 0 (cfg_Repositories (bc_configuration b))
       @ stanza_flags (bc_pgDataDirectory b) True @ log_flags (Some (bc_configuration b))
       @ [''--stanza'', stanza, ''--lock-path'', lock_path])"
  by (simp add: getStanzaCreateOptions_def options_simps Let_def)

definition data_flags :: "PgbackrestConfiguration \<Rightarrow> string list" where
  "data_flags cfg = (case cfg_Data cfg of None \<Rightarrow> [] | Some d \<Rightarrow>
     (if cfg_Compression cfg \<noteq> [] then [''--compress-type'', cfg_Compression cfg] else [])
     @ (if data_ImmediateCheckpoint d then [''--start-fast''] else [])
     @ (case data_Jobs d of None \<Rightarrow> [] | Some j \<Rightarrow> [''--process-max'', itoa (sint j)]))"

lemma GetDataConfiguration_flags:
  "\<exists>user. GetDataConfiguration b os = Ret (os @ data_flags (bc_configuration b) @ user)
     \<and> (\<forall>a \<in> set user. arg_key a \<notin> arg_key ` set (os @ data_flags (bc_configuration b)))"
proof (cases "cfg_Data (bc_configuration b)")
  case (Some d)
  from AppendAdditional_fresh(2) [of "Some d" "os @ data_flags (bc_configuration b)"] obtain extra where
    e: "AppendAdditionalBackupCommandArgs (Some d) (os @ data_flags (bc_configuration b)) =
        (os @ data_flags (bc_configuration b)) @ extra"
      "arg_key ` set extra \<inter> arg_key ` set (os @ data_flags (bc_configuration b)) = {}" by blast
  have "GetDataConfiguration b os =
      Ret (AppendAdditionalBackupCommandArgs (Some d) (os @ data_flags (bc_configuration b)))"
    using Some by (auto simp: GetDataConfiguration_def data_flags_def append_if_def Let_def split: option.split)
  with e show ?thesis by (intro exI [of _ extra]) auto
qed (simp add: GetDataConfiguration_def data_flags_def)

definition annotation_flags :: "(string \<times> string) list \<Rightarrow> string list" where
  "annotation_flags es = concat (map (\<lambda>(k, v). [''--annotation'', k @ ''='' @ v]) es)"

lemma annotation_loop_flags:
  "annotation_loop es os =
     (if BackupNameAnnotation \<in> fst ` set es
      then Fail (ErrMsg (''annotation '' @ [CHR 0x27] @ BackupNameAnnotation @ [CHR 0x27] @ '' is reserved for backup name''))
      else Ret (os @ annotation_flags es))"
  by (induction es arbitrary: os) (auto simp: annotation_flags_def)

definition user_annotations :: "PgbackrestConfiguration \<Rightarrow> (string \<times> string) list" where
  "user_annotations cfg = (case cfg_Data cfg of None \<Rightarrow> [] | Some d \<Rightarrow> data_Annotations d)"


lemma GetPgbackrestBackupOptions_head:
  assumes "GetPgbackrestBackupOptions b name stanza = Ret argv"
  shows "hd argv = ''backup''"
proof -
  obtain user where "GetDataConfiguration b [''backup'', ''--annotation'', BackupNameAnnotation @ ''='' @ name] =
      Ret ([''backup'', ''--annotation'', BackupNameAnnotation @ ''='' @ name] @ data_flags (bc_configuration b) @ user)"
    using GetDataConfiguration_flags by blast
  moreover have "(case cfg_Data (bc_configuration b) of None \<Rightarrow> Ret os | Some d \<Rightarrow> annotation_loop (data_Annotations d) os) =
      annotation_loop (user_annotations (bc_configuration b)) os" for os
    by (simp add: user_annotations_def split: option.split)
  ultimately show ?thesis using assms
    by (auto simp: GetPgbackrestBackupOptions_def Let_def annotation_loop_flags options_simps
        split: option.splits if_splits)
qed

section \<open>What a query finds\<close>

lemma annotated_loop_find:
  "name \<noteq> '''' \<Longrightarrow> annotated_loop name bs =
     (case find (\<lambda>b. map_of (bk_Annotations b) BackupNameAnnotation = Some name) bs of
        None \<Rightarrow> '''' | Some b \<Rightarrow> bk_ID b)"
  by (induction bs) (auto split: option.splits)

text \<open>
  Looking a backup up by its annotation: the stanza is listed; if no backup carries the name
  the result is nil without an error and nothing else is run, otherwise pgBackRest is asked for
  exactly the last listed backup that carries it.
\<close>

theorem GetBackupByAnnotatedName_queries:
  assumes "name \<noteq> ''''" "\<forall>b \<in> set (cat_Backups c). bk_ID b \<noteq> ''''"
    and "GetBackupList h cfg stanza env w = (Ret c, w1)"
  shows "case find (\<lambda>b. map_of (bk_Annotations b) BackupNameAnnotation = Some name) (rev (cat_Backups c)) of
      None \<Rightarrow> GetBackupByAnnotatedName h name stanza cfg env w = (Ret None, w1)
    | Some b \<Rightarrow> \<exists>argv. info_options cfg stanza [''--set'', bk_ID b] = Ret argv \<and>
        w_ran (snd (GetBackupByAnnotatedName h name stanza cfg env w)) = w_ran w1 @ [argv]"
proof (cases "find (\<lambda>b. map_of (bk_Annotations b) BackupNameAnnotation = Some name) (rev (cat_Backups c))")
  case None
  with assms(1,3) show ?thesis
    by (simp add: GetBackupByAnnotatedName_def GetBackupIDFromAnnotatedName_def annotated_loop_find)
next
  case (Some b)
  then have "b \<in> set (cat_Backups c)" by (auto simp: find_Some_iff) (metis nth_mem set_rev length_rev)
  with assms(2) have "bk_ID b \<noteq> ''''" by blast
  moreover have "GetBackupIDFromAnnotatedName c name = bk_ID b"
    using Some assms(1) by (simp add: GetBackupIDFromAnnotatedName_def annotated_loop_find)
  moreover have "w_ran (snd (bindW (run_pgbackrest h argv env w1) (\<lambda>raw w. (f raw, w)))) = w_ran w1 @ [argv]"
    for argv and f :: "string \<Rightarrow> Catalog option go"
    using run_pgbackrest_ran [of h argv env w1]
    by (cases "run_pgbackrest h argv env w1"; cases "fst (run_pgbackrest h argv env w1)") auto
  ultimately show ?thesis
    using Some assms(3) by (simp add: GetBackupByAnnotatedName_def executeQueryCommand_def info_options_flags)
qed

text \<open>The lookup of a name no backup carries is not an error: the caller gets a nil catalog.\<close>

lemma annotation_missing_is_not_an_error:
  assumes "GetBackupList h cfg stanza env w = (Ret c, w1)" "cat_Backups c = []"
  shows "GetBackupByAnnotatedName h name stanza cfg env w = (Ret None, w1)"
  using assms by (simp add: GetBackupByAnnotatedName_def GetBackupIDFromAnnotatedName_def)

text \<open>The description of bad arguments is never given when the process ends with an exit status.\<close>

lemma Take_bad_arguments_not_described:
  assumes "h_pgbackrest h argv (env @ [''TMPDIR='' @ tmp]) (w_fs w) (w_remote w) = (ProcExit 3, f, r)"
    and "GetPgbackrestBackupOptions b name stanza = Ret argv"
  shows "fst (Take h b name stanza env tmp w) = Fail (ErrExit 3)"
  using assms by (simp add: Take_def run_streaming_def run_pgbackrest_def)

definition catalog_report :: json where
  "catalog_report = JArr [JObj [(''name'', JStr ''main''),
     (''backup'', JArr [JObj [(''label'', JStr ''F1''), (''annotation'', JObj [(''cnpg-backup-name'', JStr ''b1'')])],
                        JObj [(''label'', JStr ''F2'')]])]]"

definition info_host :: "unit host" where
  "info_host = \<lparr>h_pgbackrest = (\<lambda>argv env fs r. (ProcOk ''report'', fs, r)),
     h_fileutils = posix_fileutils, h_environ = [],
     h_get_secret = (\<lambda>ns n. Fail (ErrApi NotFound)), h_get_archive = (\<lambda>ns n. Fail (ErrApi NotFound)),
     h_parse_json = (\<lambda>s. Some catalog_report)\<rparr>"

definition empty_world :: "unit world" where
  "empty_world = \<lparr>w_fs = \<lparr>fs_nodes = [(''/'', Dir), (''/pg'', Dir)], fs_denied = []\<rparr>, w_remote = (), w_ran = []\<rparr>"

definition listed_catalog :: Catalog where
  "listed_catalog = zero_catalog\<lparr>cat_Stanza := ''main'',
     cat_Backups := [zero_backup\<lparr>bk_ID := ''F1'', bk_Annotations := [(''cnpg-backup-name'', ''b1'')]\<rparr>,
                     zero_backup\<lparr>bk_ID := ''F2''\<rparr>]\<rparr>"

lemma decode_example: "NewCatalogFromPgbackrestInfo (h_parse_json info_host) t = Ret listed_catalog"
proof -
  have "store_list store_catalog zero_catalog catalog_report [] = Some [listed_catalog]" by code_simp
  then show ?thesis by (simp add: NewCatalogFromPgbackrestInfo_def info_host_def)
qed

theorem GetBackupByAnnotatedName_queries_witness:
  "\<exists>argv. w_ran (snd (GetBackupByAnnotatedName info_host ''b1'' ''main'' cfg_example [] empty_world)) = argv
     \<and> length argv = 2 \<and> sublist [''--set'', ''F1''] (last argv)"
proof -
  obtain argv where a: "info_options cfg_example ''main'' [] = Ret argv" by (simp add: info_options_flags)
  have l: "GetBackupList info_host cfg_example ''main'' [] empty_world
      = (Ret listed_catalog, empty_world\<lparr>w_ran := [argv]\<rparr>)"
    using a by (simp add: GetBackupList_def executeQueryCommand_def decode_example run_pgbackrest_def)
      (simp add: info_host_def empty_world_def)
  have names: "\<forall>b \<in> set (cat_Backups listed_catalog). bk_ID b \<noteq> ''''"
    by (simp add: listed_catalog_def)
  have f: "find (\<lambda>b. map_of (bk_Annotations b) BackupNameAnnotation = Some ''b1'') (rev (cat_Backups listed_catalog))
      = Some (zero_backup\<lparr>bk_ID := ''F1'', bk_Annotations := [(''cnpg-backup-name'', ''b1'')]\<rparr>)"
    by (simp add: listed_catalog_def zero_backup_def BackupNameAnnotation_def)
  from GetBackupByAnnotatedName_queries [OF _ names l, of "''b1''"] f obtain argv2 where
    i: "info_options cfg_example ''main'' [''--set'', ''F1''] = Ret argv2" and
    r: "w_ran (snd (GetBackupByAnnotatedName info_host ''b1'' ''main'' cfg_example [] empty_world)) = [argv] @ [argv2]"
    by auto
  from i have "argv2 = [''info'', ''--output'', ''json''] @ repos_flags cloud_flags 0 (cfg_Repositories cfg_example)
      @ log_flags (Some cfg_example) @ [''--stanza'', ''main''] @ [''--set'', ''F1'']"
    by (simp only: info_options_flags go.inject)
  then have "suffix [''--set'', ''F1''] argv2" by (simp add: suffix_def)
  then have "sublist [''--set'', ''F1''] argv2" by (rule suffix_imp_sublist)
  with r show ?thesis by simp
qed

section \<open>Restoring\<close>

definition auto_conf_path :: "Restore_Command \<Rightarrow> string" where
  "auto_conf_path b = path_join [rcmd_pgDataDirectory b, ''postgresql.auto.conf'']"

lemma restore_flags:
  "\<exists>options. GetPgbackrestRestoreOptions b name stanza = Ret options \<and> suffix [''restore'', ''--set'', name] options
     \<and> prefix [''--stanza'', stanza, ''--lock-path'', lock_path] options"
proof -
  let ?cfg = "rcmd_configuration b" and ?start = "[''--stanza'', stanza, ''--lock-path'', lock_path]"
  have "\<exists>more. GetRestoreConfiguration b ?start = Ret (?start @ more)"
  proof (cases "cfg_Restore ?cfg")
    case (Some r)
    let ?o = "case rest_Jobs r of None \<Rightarrow> ?start | Some j \<Rightarrow> ?start @ [''--process-max'', itoa (sint j)]"
    obtain m1 where "?o = ?start @ m1" by (cases "rest_Jobs r") auto
    moreover obtain m2 where "AppendAdditionalRestoreCommandArgs (Some r) ?o = ?o @ m2"
      using restore_args.extends [of "Some r" ?o] by blast
    ultimately have "GetRestoreConfiguration b ?start = Ret (?start @ m1 @ m2)"
      using Some by (simp only: GetRestoreConfiguration_def Let_def option.case append_assoc)
    then show ?thesis by blast
  qed (simp add: GetRestoreConfiguration_def)
  then obtain more where "GetRestoreConfiguration b ?start = Ret (?start @ more)" by blast
  then show ?thesis by (auto simp: GetPgbackrestRestoreOptions_def Let_def options_simps suffix_def)
qed


definition restore_example :: Restore_Command where
  "restore_example = NewRestoreCommand cfg_example ''/pg''"


end
