(* ===== verification/Wal_Archiver.thy ===== *)
theory Wal_Archiver
  imports Spool Backup_Command "HOL-Library.Multiset"
begin

text \<open>
  WAL archiving (\<^verbatim>\<open>internal/pgbackrest/walarchive/cmd.go\<close>,
  \<^verbatim>\<open>internal/pgbackrest/archiver/archiver.go\<close> and
  \<^verbatim>\<open>command.go\<close>). A batch is pushed by one goroutine per segment: a worker makes up to
  three indivisible steps (the push, the removal of the empty-archive flag, the spool marker), and a
  schedule says which worker moves next. What is proved holds for every schedule.
\<close>

section \<open>Archiving one segment\<close>

definition ArchiveCommand :: string where "ArchiveCommand = ''archive-push''"
definition PgbackrestExecutable :: string where "PgbackrestExecutable = ''pgbackrest''"

record PgbackrestArchiver =
  pa_Env :: "string list"
  pa_Touch :: "string \<Rightarrow> fs \<Rightarrow> unit go \<times> fs"
  pa_EmptyWalArchivePath :: string

text \<open>Start and end times are not modelled.\<close>

record WALArchiverResult =
  res_WalName :: string
  res_Err :: "error option"

definition MaxInt :: int where "MaxInt = 2 ^ 63 - 1"

definition push_options :: "string list \<Rightarrow> string \<Rightarrow> string list" where
  "push_options baseOptions walName = baseOptions @ [ArchiveCommand, walName]"

definition push_step ::
  "'r host \<Rightarrow> PgbackrestArchiver \<Rightarrow> string \<Rightarrow> string list \<Rightarrow> 'r world \<Rightarrow> unit go \<times> 'r world" where
  "push_step h archiver walName baseOptions w =
     (if int (length baseOptions) \<ge> MaxInt - 2
      then (Fail (ErrMsg (''can't archive wal file '' @ walName @ '', options too long'')), w)
      else wrapW (''unexpected failure invoking '' @ ArchiveCommand)
             (run_streaming h (push_options baseOptions walName) (pa_Env archiver) w))"

definition cleanup_step :: "'r host \<Rightarrow> PgbackrestArchiver \<Rightarrow> 'r world \<Rightarrow> unit go \<times> 'r world" where
  "cleanup_step h archiver w =
     wrapW ''error while deleting the check WAL file flag''
       (on_files (fu_RemoveFile (h_fileutils h) (pa_EmptyWalArchivePath archiver)) w)"

definition Archive_one ::
  "'r host \<Rightarrow> PgbackrestArchiver \<Rightarrow> string \<Rightarrow> string list \<Rightarrow> 'r world \<Rightarrow> unit go \<times> 'r world" where
  "Archive_one h archiver walName baseOptions w =
     bindW (push_step h archiver walName baseOptions w) (\<lambda>_. cleanup_step h archiver)"

section \<open>Archiving a list in parallel\<close>

datatype worker = Todo | Pushed | Cleaned | Done "error option" | Crashed string

fun next_worker :: "unit go \<Rightarrow> worker \<Rightarrow> worker" where
  "next_worker (Ret _) s = s"
| "next_worker (Fail e) s = Done (Some e)"
| "next_worker (Panic m) s = Crashed m"

text \<open>
  What worker \<open>i\<close> does next: \<open>Todo\<close> and \<open>Pushed\<close> are inside \<^verbatim>\<open>Archive\<close>, \<open>Cleaned\<close>
  is before the spool marker, which only segments after the first get.
\<close>

definition worker_step ::
  "'r host \<Rightarrow> PgbackrestArchiver \<Rightarrow> string list \<Rightarrow> string list \<Rightarrow> nat \<Rightarrow>
   worker list \<times> 'r world \<Rightarrow> worker list \<times> 'r world" where
  "worker_step h archiver walNames options i = (\<lambda>(ws, w).
     if i \<ge> length ws then (ws, w) else
     case ws ! i of
       Todo \<Rightarrow>
         (let (r, w') = push_step h archiver (walNames ! i) options w
          in (ws[i := next_worker r Pushed], w'))
     | Pushed \<Rightarrow>
         (let (r, w') = cleanup_step h archiver w
          in (ws[i := next_worker r (if i \<noteq> 0 then Cleaned else Done None)], w'))
     | Cleaned \<Rightarrow>
         (let (r, w') = on_files (pa_Touch archiver (walNames ! i)) w
          in (ws[i := next_worker r (Done None)], w'))
     | _ \<Rightarrow> (ws, w))"

fun run_schedule ::
  "'r host \<Rightarrow> PgbackrestArchiver \<Rightarrow> string list \<Rightarrow> string list \<Rightarrow> nat list \<Rightarrow>
   worker list \<times> 'r world \<Rightarrow> worker list \<times> 'r world" where
  "run_schedule h archiver walNames options [] s = s"
| "run_schedule h archiver walNames options (i # is) s =
     run_schedule h archiver walNames options is (worker_step h archiver walNames options i s)"

fun finished :: "worker \<Rightarrow> bool" where
  "finished (Done e) = True"
| "finished (Crashed m) = True"
| "finished _ = False"

text \<open>
  \<^verbatim>\<open>waitGroup.Wait()\<close>: after the steps of \<open>sched\<close> the workers that are not
  finished go on, in order, until they are.
\<close>

definition wait_for_all :: "nat \<Rightarrow> nat list" where
  "wait_for_all n = concat (map (\<lambda>i. [i, i, i]) [0..<n])"

fun worker_error :: "worker \<Rightarrow> error option" where
  "worker_error (Done e) = e"
| "worker_error _ = None"

fun crash_of :: "worker list \<Rightarrow> string option" where
  "crash_of [] = None"
| "crash_of (Crashed m # ws) = Some m"
| "crash_of (_ # ws) = crash_of ws"

definition Archive_list ::
  "'r host \<Rightarrow> nat list \<Rightarrow> PgbackrestArchiver \<Rightarrow> string list \<Rightarrow> string list \<Rightarrow> 'r world \<Rightarrow>
   WALArchiverResult list go \<times> 'r world" where
  "Archive_list h sched archiver walNames options w =
     (let (ws, w') = run_schedule h archiver walNames options (sched @ wait_for_all (length walNames))
                       (replicate (length walNames) Todo, w)
      in (case crash_of ws of
            Some m \<Rightarrow> Panic m
          | None \<Rightarrow> Ret (map (\<lambda>(n, s). \<lparr>res_WalName = n, res_Err = worker_error s\<rparr>) (zip walNames ws)), w'))"

section \<open>The archiver\<close>

record WALArchiver =
  wa_spool :: WALSpool
  wa_env :: "string list"
  wa_pgDataDirectory :: string
  wa_pgbackrestArchiver :: PgbackrestArchiver

definition Archiver_New ::
  "'r host \<Rightarrow> string list \<Rightarrow> string \<Rightarrow> string \<Rightarrow> string \<Rightarrow> fs \<Rightarrow> WALArchiver go \<times> fs" where
  "Archiver_New h env spoolDir pgDataDirectory emptyWalArchivePath fs =
     bindW (wrapW ''while creating spool directory'' (Spool_New (h_fileutils h) spoolDir fs))
       (\<lambda>walArchiveSpool fs.
          (Ret \<lparr>wa_spool = walArchiveSpool, wa_env = env, wa_pgDataDirectory = pgDataDirectory,
                wa_pgbackrestArchiver =
                  \<lparr>pa_Env = env, pa_Touch = Touch walArchiveSpool,
                   pa_EmptyWalArchivePath = emptyWalArchivePath\<rparr>\<rparr>, fs))"

definition DeleteFromSpool :: "'r host \<Rightarrow> WALArchiver \<Rightarrow> string \<Rightarrow> fs \<Rightarrow> bool go \<times> fs" where
  "DeleteFromSpool h archiver walName fs =
     delete_if_present (Contains (h_fileutils h) (wa_spool archiver)) (Remove (wa_spool archiver)) walName fs"

definition ArchiveList ::
  "'r host \<Rightarrow> nat list \<Rightarrow> WALArchiver \<Rightarrow> string list \<Rightarrow> string list \<Rightarrow> 'r world \<Rightarrow>
   WALArchiverResult list go \<times> 'r world" where
  "ArchiveList h sched archiver walNames options w =
     bindW (Archive_list h sched (wa_pgbackrestArchiver archiver) walNames options w)
       (\<lambda>res w. (Ret (map (\<lambda>re. \<lparr>res_WalName = res_WalName re, res_Err = res_Err re\<rparr>) res), w))"

definition CheckWalArchiveDestination ::
  "'r host \<Rightarrow> PgbackrestConfiguration \<Rightarrow> string \<Rightarrow> string list \<Rightarrow> 'r world \<Rightarrow> unit go \<times> 'r world" where
  "CheckWalArchiveDestination h configuration stanza env w =
     bindW (GetBackupList h configuration stanza env w) (\<lambda>destinationCatalog w.
       (if StanzaMissing destinationCatalog then Fail ErrStanzaMissing else Ret (), w))"

definition PgbackrestCheckWalArchiveOptions ::
  "WALArchiver \<Rightarrow> PgbackrestConfiguration \<Rightarrow> string \<Rightarrow> string list go" where
  "PgbackrestCheckWalArchiveOptions archiver configuration clusterName =
     bindG (AppendCloudProviderOptionsFromConfiguration [] configuration) (\<lambda>options.
     bindG (AppendStanzaOptionsFromConfiguration options configuration (wa_pgDataDirectory archiver) True) (\<lambda>options.
     bindG (AppendLogOptionsFromConfiguration options (Some configuration)) (\<lambda>options.
       let stanza = (if length (cfg_Stanza configuration) \<noteq> 0 then cfg_Stanza configuration else clusterName)
       in Ret (options @ [''--stanza'', stanza, ''--lock-path'', lock_path]))))"

definition PgbackrestWalArchiveOptions :: "PgbackrestConfiguration \<Rightarrow> string \<Rightarrow> string list go" where
  "PgbackrestWalArchiveOptions configuration clusterName =
     (let o1 = append_if (length (cfg_Compression configuration) \<noteq> 0)
                 [''--compress-type'', cfg_Compression configuration] [];
          o2 = (case cfg_Wal configuration of None \<Rightarrow> o1
                | Some wal \<Rightarrow> AppendAdditionalArchivePushCommandArgs (Some wal) o1)
      in bindG (AppendCloudProviderOptionsFromConfiguration o2 configuration) (\<lambda>options.
         bindG (AppendLogOptionsFromConfiguration options (Some configuration)) (\<lambda>options.
           let serverName = (if length (cfg_Stanza configuration) \<noteq> 0 then cfg_Stanza configuration else clusterName)
           in Ret (options @ [''--stanza'', serverName]))))"

section \<open>Gathering a batch\<close>

text \<open>
  \<^verbatim>\<open>filepath.WalkDir\<close>: the callback gets a path, whether it is a directory and
  whether reading it failed, and may answer nil, \<^verbatim>\<open>SkipDir\<close> or an error that ends the
  walk. A directory tree is not deeper than the number of its nodes, the fuel.
\<close>

datatype walk_result = WalkNil | SkipDir | WalkEnd

fun walkDir :: "nat \<Rightarrow> fs \<Rightarrow> (string \<Rightarrow> bool \<Rightarrow> bool \<Rightarrow> 's \<Rightarrow> walk_result \<times> 's) \<Rightarrow> string \<Rightarrow> bool \<Rightarrow> 's \<Rightarrow> walk_result \<times> 's"
  and walkEntries :: "nat \<Rightarrow> fs \<Rightarrow> (string \<Rightarrow> bool \<Rightarrow> bool \<Rightarrow> 's \<Rightarrow> walk_result \<times> 's) \<Rightarrow> string \<Rightarrow> string list \<Rightarrow> 's \<Rightarrow> walk_result \<times> 's" where
  "walkDir 0 fs fn p isDir s = (WalkNil, s)"
| "walkDir (Suc n) fs fn p isDir s =
     (let (r, s1) = fn p isDir False s in
      if r \<noteq> WalkNil \<or> \<not> isDir then ((if r = SkipDir \<and> isDir then WalkNil else r), s1)
      else case os_ReadDir p fs of
        Ret names \<Rightarrow> walkEntries n fs fn p names s1
      | _ \<Rightarrow>
          (let (r2, s2) = fn p isDir True s1
           in if r2 \<noteq> WalkNil then ((if r2 = SkipDir \<and> isDir then WalkNil else r2), s2) else (WalkNil, s2)))"
| "walkEntries n fs fn p [] s = (WalkNil, s)"
| "walkEntries n fs fn p (name # names) s =
     (let q = path_join [p, name];
          (r, s1) = walkDir n fs fn q (node_at fs q = Some Dir) s
      in if r = SkipDir then (WalkNil, s1) else if r \<noteq> WalkNil then (r, s1)
         else walkEntries n fs fn p names s1)"

definition WalkDir :: "fs \<Rightarrow> (string \<Rightarrow> bool \<Rightarrow> bool \<Rightarrow> 's \<Rightarrow> walk_result \<times> 's) \<Rightarrow> string \<Rightarrow> 's \<Rightarrow> 's" where
  "WalkDir fs fn root s =
     (if denied fs root \<or> node_at fs root = None then snd (fn root False True s)
      else snd (walkDir (Suc (Suc (length (fs_nodes fs)))) fs fn root (node_at fs root = Some Dir) s))"

definition gather_fn ::
  "string \<Rightarrow> string \<Rightarrow> string \<Rightarrow> int \<Rightarrow> string \<Rightarrow> bool \<Rightarrow> bool \<Rightarrow> string list \<Rightarrow> walk_result \<times> string list" where
  "gather_fn pgWalDirectory archiveStatusPath requestedWALFile par p isDir err walList =
     (if err then (SkipDir, walList)
      else if int (length walList) \<ge> par then (WalkEnd, walList)
      else if isDir then (if p = archiveStatusPath then (WalkNil, walList) else (SkipDir, walList))
      else if \<not> HasSuffix p ''.ready'' then (WalkNil, walList)
      else
        let walFileName = TrimSuffix (path_base p) ''.ready'' in
        if HasSuffix requestedWALFile walFileName then (WalkNil, walList)
        else (WalkNil, walList @ [path_join [pgWalDirectory, walFileName]]))"

definition GatherWALFilesToArchive :: "'r host \<Rightarrow> string \<Rightarrow> int \<Rightarrow> fs \<Rightarrow> string list go" where
  "GatherWALFilesToArchive h requestedWALFile par fs =
     (let pgWalDirectory = path_join [getenv (h_environ h) ''PGDATA'', ''pg_wal''];
          archiveStatusPath = path_join [pgWalDirectory, ''archive_status''];
          walListLength = (if par < MaxInt - 1 then par + 1 else MaxInt - 1)
      in if walListLength < 1 then Panic ''makeslice: cap out of range''
         else Ret (WalkDir fs (gather_fn pgWalDirectory archiveStatusPath requestedWALFile par)
                     archiveStatusPath [path_join [pgWalDirectory, path_base requestedWALFile]]))"

section \<open>What a batch holds\<close>

text \<open>The status file \<open>n\<close> announces a segment, other than the requested one, ready to be archived.\<close>

definition announces :: "fs \<Rightarrow> string \<Rightarrow> string \<Rightarrow> string \<Rightarrow> bool" where
  "announces fs status requested n \<longleftrightarrow>
     node_at fs (path_join [status, n]) \<noteq> Some Dir \<and> HasSuffix n ''.ready''
     \<and> \<not> HasSuffix requested (TrimSuffix n ''.ready'')"

definition ready_segments :: "fs \<Rightarrow> string \<Rightarrow> string \<Rightarrow> string \<Rightarrow> string list \<Rightarrow> string list" where
  "ready_segments fs status requested waldir names =
     map (\<lambda>n. path_join [waldir, TrimSuffix n ''.ready'']) (filter (announces fs status requested) names)"

lemma suffix_after_slash:
  "slash \<notin> set x \<Longrightarrow> suffix x (p @ slash # n) \<longleftrightarrow> suffix x n"
proof (induction n arbitrary: x rule: rev_induct)
  case Nil
  then show ?case by (cases x rule: rev_cases) (auto simp: suffix_def)
next
  case (snoc c n)
  then show ?case
    by (cases x rule: rev_cases) (auto simp: snoc_suffix_snoc simp flip: append_Cons append_assoc)
qed

lemma HasSuffix_join:
  assumes "plain_name n" "d \<noteq> []" "slash \<notin> set x" "x \<noteq> []"
  shows "HasSuffix (path_join [d, n]) x \<longleftrightarrow> HasSuffix n x"
  using assms join_prefix_cases [of d] by (auto simp: HasSuffix_iff path_join_plain suffix_after_slash)

lemma gather_entry:
  assumes "plain_name n" "d \<noteq> []" "path_clean d = d"
  shows "walkDir (Suc k) fs (gather_fn waldir d requested par) (path_join [d, n])
      (node_at fs (path_join [d, n]) = Some Dir) wl =
    (if int (length wl) \<ge> par then (WalkEnd, wl)
     else (WalkNil, wl @ (if announces fs d requested n
                          then [path_join [waldir, TrimSuffix n ''.ready'']] else [])))"
  using path_join_neq_dir [OF assms(1,2)] assms(3) HasSuffix_join [OF assms(1,2), of "''.ready''"]
  by (simp add: gather_fn_def Let_def announces_def path_base_join [OF assms(1)])

lemma gather_entries:
  assumes "d \<noteq> []" "path_clean d = d" "\<forall>n \<in> set names. plain_name n"
  shows "snd (walkEntries (Suc k) fs (gather_fn waldir d requested par) d names wl) =
    wl @ take (nat par - length wl) (ready_segments fs d requested waldir names)"
  using assms(3)
proof (induction names arbitrary: wl)
  case (Cons n names)
  then have n: "plain_name n" by simp
  show ?case
  proof (cases "int (length wl) \<ge> par")
    case True
    then show ?thesis by (simp add: gather_entry [OF n assms(1,2)] del: walkDir.simps)
  next
    case False
    then have "nat par - length wl = Suc (nat par - Suc (length wl))" by linarith
    with False Cons show ?thesis
      by (auto simp: gather_entry [OF n assms(1,2)] ready_segments_def simp del: walkDir.simps)
  qed
qed (simp add: ready_segments_def)

definition status_dir :: "'r host \<Rightarrow> string" where
  "status_dir h = path_join [path_join [getenv (h_environ h) ''PGDATA'', ''pg_wal''], ''archive_status'']"

definition wal_dir :: "'r host \<Rightarrow> string" where
  "wal_dir h = path_join [getenv (h_environ h) ''PGDATA'', ''pg_wal'']"

lemma plain_constants: "plain_name ''pg_wal''" "plain_name ''archive_status''"
  by (simp_all add: plain_name_def)

lemma wal_dir_nonempty: "wal_dir h \<noteq> []"
  using join_prefix_cases [of "getenv (h_environ h) ''PGDATA''"]
  by (auto simp: wal_dir_def path_join_plain [OF plain_constants(1)])

lemma status_dir_clean: "status_dir h \<noteq> []" "path_clean (status_dir h) = status_dir h"
proof -
  show "status_dir h \<noteq> []"
    by (simp add: status_dir_def path_join_plain [OF plain_constants(2)])
  show "path_clean (status_dir h) = status_dir h"
    using wal_dir_nonempty [of h] by (simp add: status_dir_def wal_dir_def)
qed

text \<open>
  C13. The batch for a request: the requested segment comes first, whatever the status directory
  holds; then, up to the limit, the segments that a status file announces, in the order of the
  directory, the requested one excepted. When the directory cannot be read the batch is the
  requested segment alone.
\<close>

theorem GatherWALFilesToArchive_batch:
  assumes "0 \<le> par" "par < MaxInt - 1"
    and "\<forall>names. os_ReadDir (status_dir h) fs = Ret names \<longrightarrow> (\<forall>n \<in> set names. plain_name n)"
  shows "GatherWALFilesToArchive h requested par fs =
    Ret (path_join [wal_dir h, path_base requested] #
      (case os_ReadDir (status_dir h) fs of
         Ret names \<Rightarrow> take (nat par - 1) (ready_segments fs (status_dir h) requested (wal_dir h) names)
       | _ \<Rightarrow> []))"
proof -
  let ?first = "path_join [wal_dir h, path_base requested]"
  let ?fn = "gather_fn (wal_dir h) (status_dir h) requested par"
  have g: "GatherWALFilesToArchive h requested par fs = Ret (WalkDir fs ?fn (status_dir h) [?first])"
    using assms(1,2) by (simp add: GatherWALFilesToArchive_def Let_def status_dir_def wal_dir_def)
  show ?thesis
  proof (cases "os_ReadDir (status_dir h) fs")
    case (Ret names)
    then have d: "\<not> denied fs (status_dir h)" "node_at fs (status_dir h) = Some Dir"
      by (auto simp: os_ReadDir_def split: if_splits option.splits node.splits)
    have "snd (walkEntries (Suc (length (fs_nodes fs))) fs ?fn (status_dir h) names [?first]) =
        [?first] @ take (nat par - 1) (ready_segments fs (status_dir h) requested (wal_dir h) names)"
      using gather_entries [OF status_dir_clean [of h], of names "length (fs_nodes fs)" fs "wal_dir h" requested par "[?first]"]
        assms(3) Ret by simp
    then show ?thesis using Ret d g
      by (auto simp: WalkDir_def gather_fn_def Let_def)
  next
    case (Fail e)
    then have "denied fs (status_dir h) \<or> node_at fs (status_dir h) \<noteq> Some Dir"
      by (auto simp: os_ReadDir_def split: if_splits option.splits node.splits)
    moreover have "\<not> HasSuffix (status_dir h) ''.ready''"
      using HasSuffix_join [OF plain_constants(2) wal_dir_nonempty [of h], of "''.ready''"]
      by (simp add: status_dir_def wal_dir_def HasSuffix_def)
    ultimately show ?thesis using Fail g
      by (auto simp: WalkDir_def gather_fn_def)
  next
    case (Panic m)
    then show ?thesis by (auto simp: os_ReadDir_def split: if_splits option.splits node.splits)
  qed
qed

section \<open>Every interleaving of a batch\<close>

text \<open>What holds between the start of a batch and a state its workers can reach.\<close>

inductive reaches ::
  "'r host \<Rightarrow> PgbackrestArchiver \<Rightarrow> string list \<Rightarrow> string list \<Rightarrow>
   worker list \<times> 'r world \<Rightarrow> worker list \<times> 'r world \<Rightarrow> bool"
  for h archiver walNames options s where
  reaches_start: "reaches h archiver walNames options s s"
| reaches_step: "reaches h archiver walNames options s t \<Longrightarrow>
     reaches h archiver walNames options s (worker_step h archiver walNames options i t)"

lemma run_schedule_append:
  "run_schedule h a ns os (is @ js) s = run_schedule h a ns os js (run_schedule h a ns os is s)"
  by (induction "is" arbitrary: s) simp_all

lemma reaches_iff_schedule:
  "reaches h a ns os s t \<longleftrightarrow> (\<exists>sched. t = run_schedule h a ns os sched s)"
proof
  assume "reaches h a ns os s t"
  then show "\<exists>sched. t = run_schedule h a ns os sched s"
  proof induction
    case reaches_start
    show ?case by (intro exI [of _ "[]"]) simp
  next
    case (reaches_step t i)
    then obtain sched where "t = run_schedule h a ns os sched s" by blast
    then show ?case by (intro exI [of _ "sched @ [i]"]) (simp add: run_schedule_append)
  qed
next
  assume "\<exists>sched. t = run_schedule h a ns os sched s"
  then obtain sched where t: "t = run_schedule h a ns os sched s" by blast
  have "reaches h a ns os s (run_schedule h a ns os sched s)"
    by (induction sched rule: rev_induct) (simp_all add: run_schedule_append reaches_start reaches_step)
  with t show "reaches h a ns os s t" by simp
qed

text \<open>How many steps a worker has left at most.\<close>

fun steps_left :: "worker \<Rightarrow> nat" where
  "steps_left Todo = 3"
| "steps_left Pushed = 2"
| "steps_left Cleaned = 1"
| "steps_left _ = 0"

lemma steps_left_0: "steps_left s = 0 \<longleftrightarrow> finished s"
  by (cases s) auto

lemma steps_left_next: "steps_left (next_worker r s) \<le> steps_left s"
  by (cases r) auto

lemma worker_step_length [simp]: "length (fst (worker_step h a ns os i s)) = length (fst s)"
  by (auto simp: worker_step_def Let_def split: prod.splits worker.splits)

lemma worker_step_left:
  assumes "j < length (fst s)"
  shows "steps_left (fst (worker_step h a ns os i s) ! j) \<le> steps_left (fst s ! j) - (if i = j then 1 else 0)"
proof (cases "i = j")
  case True
  have "steps_left (next_worker r Cleaned) \<le> 1" "steps_left (next_worker r (Done None)) = 0"
    "steps_left (next_worker r Pushed) \<le> 2" for r
    by (cases r; simp)+
  with True assms show ?thesis
    by (auto simp: worker_step_def Let_def split: prod.splits worker.splits intro: le_trans)
next
  case False
  then show ?thesis
    by (auto simp: worker_step_def Let_def split: prod.splits worker.splits)
qed

lemma run_schedule_left:
  assumes "j < length (fst s)"
  shows "length (fst (run_schedule h a ns os sched s)) = length (fst s)
    \<and> steps_left (fst (run_schedule h a ns os sched s) ! j) \<le> steps_left (fst s ! j) - count (mset sched) j"
  using assms
proof (induction sched arbitrary: s)
  case (Cons i sched)
  let ?s = "worker_step h a ns os i s"
  have "steps_left (fst (run_schedule h a ns os sched ?s) ! j) \<le> steps_left (fst ?s ! j) - count (mset sched) j"
    and l: "length (fst (run_schedule h a ns os sched ?s)) = length (fst s)"
    using Cons.IH [of ?s] Cons.prems by auto
  with worker_step_left [OF Cons.prems, of h a ns os i] show ?case by (auto split: if_splits)
qed simp

lemma run_schedule_length [simp]: "length (fst (run_schedule h a ns os sched s)) = length (fst s)"
  by (induction sched arbitrary: s) simp_all

lemma wait_for_all_count: "j < n \<Longrightarrow> count (mset (wait_for_all n)) j = 3"
  by (induction n) (auto simp: wait_for_all_def less_Suc_eq count_eq_zero_iff)

lemma all_finish:
  assumes "j < length ns"
  shows "finished (fst (run_schedule h a ns os (sched @ wait_for_all (length ns))
      (replicate (length ns) Todo, w)) ! j)"
  using assms run_schedule_left [of j "(replicate (length ns) Todo, w)" h a ns os "sched @ wait_for_all (length ns)"]
  by (simp add: wait_for_all_count flip: steps_left_0)

section \<open>What a batch does to the spool\<close>

text \<open>
  pgBackRest keeps its own lock, spool and temporary directories and does not touch the plugin's
  spool directory; the flag file is not in it either.
\<close>

definition leaves_spool :: "'r executable \<Rightarrow> WALSpool \<Rightarrow> bool" where
  "leaves_spool exec spool \<longleftrightarrow>
     (\<forall>argv env fs r. let fs' = fst (snd (exec argv env fs r)) in
        denied fs' = denied fs
        \<and> node_at fs' (spoolDirectory spool) = node_at fs (spoolDirectory spool)
        \<and> (\<forall>n. plain_name n \<longrightarrow> node_at fs' (spool_file spool n) = node_at fs (spool_file spool n)))"

definition outside_spool :: "WALSpool \<Rightarrow> string \<Rightarrow> bool" where
  "outside_spool spool p \<longleftrightarrow>
     path_clean p \<noteq> path_clean (spoolDirectory spool)
     \<and> (\<forall>n. plain_name n \<longrightarrow> path_clean p \<noteq> path_clean (spool_file spool n))"

definition same_spool :: "WALSpool \<Rightarrow> fs \<Rightarrow> fs \<Rightarrow> bool" where
  "same_spool spool fs fs' \<longleftrightarrow>
     denied fs' = denied fs
     \<and> node_at fs' (spoolDirectory spool) = node_at fs (spoolDirectory spool)
     \<and> (\<forall>n. plain_name n \<longrightarrow> node_at fs' (spool_file spool n) = node_at fs (spool_file spool n))"

lemma same_spool_ready:
  "same_spool spool fs fs' \<Longrightarrow> spool_ready fu spool fs \<Longrightarrow> spool_ready fu spool fs'"
  by (simp add: same_spool_def spool_ready_def)

lemma same_spool_elems: "same_spool spool fs fs' \<Longrightarrow> spool_elems spool fs' = spool_elems spool fs"
  by (auto simp: same_spool_def spool_elems_def)

lemma push_step_spool:
  assumes "leaves_spool (h_pgbackrest h) spool" "push_step h a n os w = (r, w')"
  shows "same_spool spool (w_fs w) (w_fs w')"
proof -
  obtain pr f s where e: "h_pgbackrest h (push_options os n) (pa_Env a) (w_fs w) (w_remote w) = (pr, f, s)"
    by (metis prod.collapse)
  have "same_spool spool (w_fs w) f"
    using assms(1) e unfolding leaves_spool_def same_spool_def Let_def by (metis fst_conv snd_conv)
  moreover have "w_fs w' = w_fs w \<or> w_fs w' = f"
    using assms(2) e
    by (cases pr) (auto simp: push_step_def run_streaming_def run_pgbackrest_def split: if_splits)
  ultimately show ?thesis by (auto simp: same_spool_def)
qed

lemma push_step_ran:
  assumes "push_step h a n os w = (r, w')" "int (length os) < MaxInt - 2"
  shows "w_ran w' = w_ran w @ [push_options os n] \<and> (\<forall>m. r \<noteq> Panic m)"
proof -
  obtain pr f s where "h_pgbackrest h (push_options os n) (pa_Env a) (w_fs w) (w_remote w) = (pr, f, s)"
    by (metis prod.collapse)
  with assms show ?thesis
    by (cases pr) (auto simp: push_step_def run_streaming_def run_pgbackrest_def)
qed

lemma cleanup_step_spool:
  assumes "remove_file_ok (h_fileutils h)" "outside_spool spool (pa_EmptyWalArchivePath a)"
    and "cleanup_step h a w = (r, w')"
  shows "same_spool spool (w_fs w) (w_fs w') \<and> w_ran w' = w_ran w \<and> (\<forall>m. r \<noteq> Panic m)"
proof -
  let ?rm = "fu_RemoveFile (h_fileutils h) (pa_EmptyWalArchivePath a) (w_fs w)"
  from assms(3) have w': "w' = w\<lparr>w_fs := snd ?rm\<rparr>" "r = wrapG ''error while deleting the check WAL file flag'' (fst ?rm)"
    by (auto simp: cleanup_step_def wrapW_def on_files_def split_beta)
  moreover have "snd ?rm = w_fs w \<or> snd ?rm = del_node (pa_EmptyWalArchivePath a) (w_fs w)"
    and "\<forall>m. fst ?rm \<noteq> Panic m"
    using assms(1) by (auto simp: remove_file_ok_def)
  ultimately show ?thesis using assms(2)
    by (cases "fst ?rm") (auto simp: same_spool_def outside_spool_def fun_eq_iff)
qed

text \<open>The invariant of a batch that started with markers \<open>S\<close> and processes \<open>ran0\<close>.\<close>

definition marked :: "string list \<Rightarrow> worker list \<Rightarrow> string set" where
  "marked walNames ws = {path_base (walNames ! i) |i. 0 < i \<and> i < length ws \<and> ws ! i = Done None}"

definition started :: "worker list \<Rightarrow> nat set" where
  "started ws = {i. i < length ws \<and> ws ! i \<noteq> Todo}"

definition batch_inv ::
  "'r host \<Rightarrow> WALSpool \<Rightarrow> string list \<Rightarrow> string list \<Rightarrow> string set \<Rightarrow> string list list \<Rightarrow>
   worker list \<times> 'r world \<Rightarrow> bool" where
  "batch_inv h spool walNames options S ran0 = (\<lambda>(ws, w).
     length ws = length walNames \<and> spool_ready (h_fileutils h) spool (w_fs w)
     \<and> spool_elems spool (w_fs w) = S \<union> marked walNames ws
     \<and> mset (w_ran w) = mset ran0 + image_mset (\<lambda>i. push_options options (walNames ! i)) (mset_set (started ws))
     \<and> (\<forall>i < length ws. (\<forall>m. ws ! i \<noteq> Crashed m) \<and> (ws ! i = Cleaned \<longrightarrow> i \<noteq> 0)))"

lemma marked_update:
  assumes "i < length ws" "ws ! i \<noteq> Done None"
  shows "marked ns (ws[i := x]) = (if x = Done None \<and> 0 < i then insert (path_base (ns ! i)) (marked ns ws) else marked ns ws)"
  using assms by (auto simp: marked_def nth_list_update split: if_splits)

lemma started_update:
  assumes "i < length ws" "x \<noteq> Todo"
  shows "started (ws[i := x]) = insert i (started ws)"
  using assms by (auto simp: started_def nth_list_update)

lemma finite_started [simp]: "finite (started ws)"
  by (simp add: started_def)

lemma next_worker_cases:
  "\<forall>m. r \<noteq> Panic m \<Longrightarrow> next_worker r s = s \<or> (\<exists>e. next_worker r s = Done (Some e))"
  by (cases r) auto

lemma batch_inv_move:
  assumes inv: "batch_inv h spool ns os S ran0 (ws, w)"
    and i: "i < length ws" "\<not> finished (ws ! i)"
    and x: "x \<noteq> Todo" "\<forall>m. x \<noteq> Crashed m" "x = Cleaned \<longrightarrow> i \<noteq> 0"
    and w': "spool_ready (h_fileutils h) spool (w_fs w')"
      "spool_elems spool (w_fs w') =
         (if x = Done None \<and> 0 < i then insert (path_base (ns ! i)) (spool_elems spool (w_fs w))
          else spool_elems spool (w_fs w))"
      "w_ran w' = w_ran w @ (if ws ! i = Todo then [push_options os (ns ! i)] else [])"
  shows "batch_inv h spool ns os S ran0 (ws[i := x], w')"
proof -
  have "ws ! i \<noteq> Done None" using i(2) by auto
  note m = marked_update [OF i(1) this, of ns x] and s = started_update [OF i(1) x(1)]
  have "mset (w_ran w') = mset ran0 + image_mset (\<lambda>i. push_options os (ns ! i)) (mset_set (started (ws[i := x])))"
  proof (cases "ws ! i = Todo")
    case True
    then have "i \<notin> started ws" by (simp add: started_def)
    then show ?thesis using inv w'(3) True by (simp add: batch_inv_def s)
  next
    case False
    then have "insert i (started ws) = started ws" using i(1) by (auto simp: started_def)
    then show ?thesis using inv w'(3) False by (simp add: batch_inv_def s)
  qed
  moreover have "\<forall>j < length ws. (\<forall>m. ws[i := x] ! j \<noteq> Crashed m) \<and> (ws[i := x] ! j = Cleaned \<longrightarrow> j \<noteq> 0)"
    using inv x(2,3) i(1) by (simp add: batch_inv_def nth_list_update)
  moreover have "spool_elems spool (w_fs w') = S \<union> marked ns (ws[i := x])"
    using inv w'(2) m by (simp add: batch_inv_def)
  ultimately show ?thesis
    using inv w'(1) by (simp add: batch_inv_def)
qed

lemma batch_inv_step:
  assumes inv: "batch_inv h spool ns os S ran0 (ws, w)"
    and safe: "leaves_spool (h_pgbackrest h) spool" "outside_spool spool (pa_EmptyWalArchivePath a)"
    and touch: "pa_Touch a = Touch spool"
    and names: "\<forall>n \<in> set ns. spool_name n" and short: "int (length os) < MaxInt - 2"
  shows "batch_inv h spool ns os S ran0 (worker_step h a ns os i (ws, w))"
proof (cases "i < length ws \<and> \<not> finished (ws ! i)")
  case False
  then show ?thesis using inv by (cases "ws ! i") (auto simp: worker_step_def)
next
  case True
  then have i: "i < length ws" "\<not> finished (ws ! i)" by auto
  have r: "spool_ready (h_fileutils h) spool (w_fs w)" and len: "length ws = length ns"
    using inv by (auto simp: batch_inv_def)
  then have rm: "remove_file_ok (h_fileutils h)" by (simp add: spool_ready_def fileutils_ok_def)
  note move = batch_inv_move [OF inv i]
  show ?thesis
  proof (cases "ws ! i")
    case Todo
    obtain q w' where q: "push_step h a (ns ! i) os w = (q, w')" by fastforce
    note sp = push_step_spool [OF safe(1) q] and ran = push_step_ran [OF q short]
    have "batch_inv h spool ns os S ran0 (ws[i := next_worker q Pushed], w')"
      using next_worker_cases [of q Pushed] ran Todo same_spool_ready [OF sp r] same_spool_elems [OF sp]
      by (intro move) auto
    then show ?thesis using q i Todo by (simp add: worker_step_def)
  next
    case Pushed
    obtain q w' where q: "cleanup_step h a w = (q, w')" by fastforce
    note c = cleanup_step_spool [OF rm safe(2) q]
    let ?x = "next_worker q (if i \<noteq> 0 then Cleaned else Done None)"
    have "batch_inv h spool ns os S ran0 (ws[i := ?x], w')"
      using next_worker_cases [of q "if i \<noteq> 0 then Cleaned else Done None"] c Pushed
        same_spool_ready [OF _ r, of "w_fs w'"] same_spool_elems [of spool "w_fs w" "w_fs w'"]
      by (intro move) (auto split: if_splits)
    then show ?thesis using q i Pushed by (simp add: worker_step_def)
  next
    case Cleaned
    then have "i \<noteq> 0" using inv i by (auto simp: batch_inv_def)
    have "spool_name (ns ! i)" using names i len by simp
    with dir_spool.touch_elems [OF r] obtain fs' where t: "Touch spool (ns ! i) (w_fs w) = (Ret (), fs')"
      "spool_ready (h_fileutils h) spool fs'"
      "spool_elems spool fs' = insert (path_base (ns ! i)) (spool_elems spool (w_fs w))" by blast
    then have "batch_inv h spool ns os S ran0 (ws[i := Done None], w\<lparr>w_fs := fs'\<rparr>)"
      using Cleaned \<open>i \<noteq> 0\<close> by (intro move) auto
    then show ?thesis using t i Cleaned touch by (simp add: worker_step_def)
  qed (use i in auto)
qed

lemma batch_inv_reaches:
  assumes "reaches h a ns os (replicate (length ns) Todo, w) t"
    and "spool_ready (h_fileutils h) spool (w_fs w)"
    and "leaves_spool (h_pgbackrest h) spool" "outside_spool spool (pa_EmptyWalArchivePath a)"
    and "pa_Touch a = Touch spool" "\<forall>n \<in> set ns. spool_name n" "int (length os) < MaxInt - 2"
  shows "batch_inv h spool ns os (spool_elems spool (w_fs w)) (w_ran w) t"
  using assms(1)
proof induction
  case reaches_start
  have "started (replicate (length ns) Todo) = {}" "marked ns (replicate (length ns) Todo) = {}"
    by (auto simp: started_def marked_def)
  with assms(2) show ?case by (simp add: batch_inv_def)
next
  case (reaches_step t i)
  then show ?case using batch_inv_step [OF _ assms(3-7)] by (cases t) blast
qed

definition archiver_ok :: "'r host \<Rightarrow> WALArchiver \<Rightarrow> bool" where
  "archiver_ok h archiver \<longleftrightarrow>
     pa_Touch (wa_pgbackrestArchiver archiver) = Touch (wa_spool archiver)
     \<and> outside_spool (wa_spool archiver) (pa_EmptyWalArchivePath (wa_pgbackrestArchiver archiver))
     \<and> leaves_spool (h_pgbackrest h) (wa_spool archiver)"

lemma crash_of_None: "\<forall>i < length ws. \<forall>m. ws ! i \<noteq> Crashed m \<Longrightarrow> crash_of ws = None"
proof (induction ws)
  case (Cons s ws)
  then have "\<forall>i < length ws. \<forall>m. ws ! i \<noteq> Crashed m" by auto
  moreover have "\<forall>m. s \<noteq> Crashed m" using Cons.prems [rule_format, of 0] by simp
  ultimately show ?case using Cons.IH by (cases s) auto
qed simp

lemma mset_nth: "mset xs = image_mset ((!) xs) (mset_set {..<length xs})"
  by (metis map_nth mset_map mset_upt lessThan_atLeast0)


definition archiver_example :: WALArchiver where
  "archiver_example = \<lparr>wa_spool = spool_example, wa_env = [], wa_pgDataDirectory = ''/pg'',
     wa_pgbackrestArchiver = \<lparr>pa_Env = [], pa_Touch = Touch spool_example,
       pa_EmptyWalArchivePath = ''/pg/.check-empty-wal-archive''\<rparr>\<rparr>"

definition spool_world :: "unit world" where
  "spool_world = \<lparr>w_fs = fs_example, w_remote = (), w_ran = []\<rparr>"

lemma spool_file_example: "plain_name n \<Longrightarrow> spool_file spool_example n = ''/s/'' @ n"
  by (simp add: spool_file_def spool_example_def path_join_plain join_prefix_def clean_step_def)

lemma archiver_example_ok: "archiver_ok info_host archiver_example"
proof -
  have "path_clean ''/pg/.check-empty-wal-archive'' = ''/pg/.check-empty-wal-archive''" "path_clean ''/s'' = ''/s''"
    by (simp_all add: path_clean_def clean_step_def)
  moreover have "path_clean (''/s/'' @ n) = ''/s/'' @ n" if "plain_name n" for n
  proof -
    have "path_clean (spool_file spool_example n) = spool_file spool_example n"
      by (rule path_clean_spool_file) (simp add: spool_example_def)
    then show ?thesis by (simp only: spool_file_example [OF that])
  qed
  ultimately have "outside_spool spool_example ''/pg/.check-empty-wal-archive''"
    by (auto simp: outside_spool_def spool_file_example) (simp_all add: spool_example_def)
  then show ?thesis
    by (simp add: archiver_ok_def archiver_example_def leaves_spool_def info_host_def)
qed


definition gather_host :: "unit host" where
  "gather_host = info_host\<lparr>h_environ := [''PGDATA=/pg'']\<rparr>"

definition status_fs :: fs where
  "status_fs = \<lparr>fs_nodes = [(''/'', Dir), (''/pg'', Dir), (''/pg/pg_wal'', Dir), (''/pg/pg_wal/archive_status'', Dir),
     (''/pg/pg_wal/archive_status/D.ready'', File ''''), (''/pg/pg_wal/archive_status/A.ready'', File ''''),
     (''/pg/pg_wal/archive_status/B.done'', File ''''), (''/pg/pg_wal/archive_status/C.ready'', File '''')], fs_denied = []\<rparr>"

theorem GatherWALFilesToArchive_batch_witness:
  "\<exists>rest. GatherWALFilesToArchive gather_host ''pg_wal/A'' 3 status_fs = Ret (''/pg/pg_wal/A'' # rest)
     \<and> rest = [''/pg/pg_wal/C'', ''/pg/pg_wal/D'']"
proof -
  have dir: "os_ReadDir (status_dir gather_host) status_fs = Ret [''A.ready'', ''B.done'', ''C.ready'', ''D.ready'']"
    by code_simp
  then have "\<forall>names. os_ReadDir (status_dir gather_host) status_fs = Ret names \<longrightarrow> (\<forall>n \<in> set names. plain_name n)"
    by (simp add: plain_name_def)
  from GatherWALFilesToArchive_batch [OF _ _ this, of 3 "''pg_wal/A''"] dir
  have "GatherWALFilesToArchive gather_host ''pg_wal/A'' 3 status_fs =
    Ret (path_join [wal_dir gather_host, path_base ''pg_wal/A''] #
      take 2 (ready_segments status_fs (status_dir gather_host) ''pg_wal/A'' (wal_dir gather_host)
        [''A.ready'', ''B.done'', ''C.ready'', ''D.ready'']))"
    by (simp add: MaxInt_def)
  moreover have "path_join [wal_dir gather_host, path_base ''pg_wal/A''] = ''/pg/pg_wal/A''" by code_simp
  moreover have "ready_segments status_fs (status_dir gather_host) ''pg_wal/A'' (wal_dir gather_host)
        [''A.ready'', ''B.done'', ''C.ready'', ''D.ready''] = [''/pg/pg_wal/C'', ''/pg/pg_wal/D'']" by code_simp
  ultimately show ?thesis by simp
qed

section \<open>The archiver and its spool\<close>

lemma DeleteFromSpool_result:
  assumes "spool_ready (h_fileutils h) (wa_spool archiver) fs" "spool_name walName"
  shows "\<exists>fs'. DeleteFromSpool h archiver walName fs = (Ret (path_base walName \<in> spool_elems (wa_spool archiver) fs), fs')
    \<and> spool_ready (h_fileutils h) (wa_spool archiver) fs'
    \<and> spool_elems (wa_spool archiver) fs' = spool_elems (wa_spool archiver) fs - {path_base walName}"
  unfolding DeleteFromSpool_def by (rule dir_spool.deletes [OF assms])

lemma DeleteFromSpool_once:
  assumes "spool_ready (h_fileutils h) (wa_spool archiver) fs" "spool_name walName"
    and "DeleteFromSpool h archiver walName fs = (r, fs')"
  shows "DeleteFromSpool h archiver walName fs' = (Ret False, fs')"
  using assms unfolding DeleteFromSpool_def by (rule dir_spool.deletes_once)

lemma Archiver_New_ok:
  assumes "Archiver_New h env d pgdata flag fs = (Ret archiver, fs')"
    and "outside_spool \<lparr>spoolDirectory = d\<rparr> flag" "leaves_spool (h_pgbackrest h) \<lparr>spoolDirectory = d\<rparr>"
  shows "archiver_ok h archiver \<and> spoolDirectory (wa_spool archiver) = d"
proof -
  obtain r fs1 where e: "fu_EnsureDirectoryExists (h_fileutils h) d fs = (r, fs1)" by fastforce
  with assms show ?thesis
    by (cases r) (auto simp: Archiver_New_def Spool_New_def archiver_ok_def)
qed

section \<open>What a successful batch has pushed\<close>

definition all_pushed :: "'r host \<Rightarrow> PgbackrestArchiver \<Rightarrow> string list \<Rightarrow> string list \<Rightarrow> worker list \<times> 'r world \<Rightarrow> bool" where
  "all_pushed h a ns os = (\<lambda>(ws, w). \<forall>i < length ws. ws ! i \<in> {Pushed, Cleaned, Done None} \<longrightarrow>
     push_options os (ns ! i) \<in> set (w_ran w) \<and> pushed_ok h (pa_Env a) (push_options os (ns ! i)))"

lemma push_step_Ret:
  assumes "push_step h a n os w = (Ret u, w')"
  shows "w_ran w' = w_ran w @ [push_options os n] \<and> pushed_ok h (pa_Env a) (push_options os n)"
proof -
  obtain pr f s where "h_pgbackrest h (push_options os n) (pa_Env a) (w_fs w) (w_remote w) = (pr, f, s)"
    by (metis prod.collapse)
  with assms show ?thesis
    by (cases pr) (auto simp: push_step_def run_streaming_def run_pgbackrest_def split: if_splits
        intro: pushed_okI)
qed

lemma push_step_ran_mono: "push_step h a n os w = (r, w') \<Longrightarrow> set (w_ran w) \<subseteq> set (w_ran w')"
  by (auto simp: push_step_def wrapW_def split: if_splits)

lemma cleanup_step_ran: "cleanup_step h a w = (r, w') \<Longrightarrow> w_ran w' = w_ran w"
  by (auto simp: cleanup_step_def wrapW_def)

lemma next_worker_eq:
  "next_worker r s \<in> {Pushed, Cleaned, Done None} \<Longrightarrow> \<exists>u. r = Ret u"
  by (cases r) auto

lemma all_pushed_step:
  assumes "all_pushed h a ns os (ws, w)"
  shows "all_pushed h a ns os (worker_step h a ns os i (ws, w))"
proof (cases "i < length ws \<and> \<not> finished (ws ! i)")
  case False
  then show ?thesis using assms by (cases "ws ! i") (auto simp: worker_step_def)
next
  case True
  then have i: "i < length ws" "\<not> finished (ws ! i)" by auto
  have keep: "all_pushed h a ns os (ws[i := x], w')"
    if "set (w_ran w) \<subseteq> set (w_ran w')"
      "x \<in> {Pushed, Cleaned, Done None} \<longrightarrow>
         push_options os (ns ! i) \<in> set (w_ran w') \<and> pushed_ok h (pa_Env a) (push_options os (ns ! i))" for x w'
    using assms that i(1) by (auto simp: all_pushed_def nth_list_update)
  show ?thesis
  proof (cases "ws ! i")
    case Todo
    obtain r w' where p: "push_step h a (ns ! i) os w = (r, w')" by fastforce
    have "all_pushed h a ns os (ws[i := next_worker r Pushed], w')"
      using p push_step_Ret [of h a "ns ! i" os w] by (intro keep push_step_ran_mono [OF p]) (cases r; auto)
    with p i Todo show ?thesis by (simp add: worker_step_def)
  next
    case Pushed
    obtain r w' where p: "cleanup_step h a w = (r, w')" by fastforce
    have "all_pushed h a ns os (ws[i := next_worker r (if i \<noteq> 0 then Cleaned else Done None)], w')"
      using assms i(1) Pushed cleanup_step_ran [OF p] by (intro keep) (auto simp: all_pushed_def)
    with p i Pushed show ?thesis by (simp add: worker_step_def)
  next
    case Cleaned
    obtain r w' where p: "on_files (pa_Touch a (ns ! i)) w = (r, w')" by fastforce
    then have "w_ran w' = w_ran w" using on_files_simps(2) [of "pa_Touch a (ns ! i)" w] by simp
    then have "all_pushed h a ns os (ws[i := next_worker r (Done None)], w')"
      using assms i(1) Cleaned by (intro keep) (auto simp: all_pushed_def)
    with p i Cleaned show ?thesis by (simp add: worker_step_def)
  qed (use i in auto)
qed

lemma all_pushed_reaches:
  assumes "reaches h a ns os (replicate (length ns) Todo, w) t" shows "all_pushed h a ns os t"
  using assms
proof induction
  case (reaches_step t i)
  then show ?case using all_pushed_step by (cases t) blast
qed (auto simp: all_pushed_def)

lemma crash_of_None_iff: "crash_of ws = None \<longleftrightarrow> (\<forall>s \<in> set ws. \<forall>m. s \<noteq> Crashed m)"
proof (induction ws)
  case (Cons s ws)
  then show ?case by (cases s) auto
qed simp

lemma ArchiveList_success:
  assumes "ArchiveList h sched archiver ns os w = (Ret results, w')" "\<forall>r \<in> set results. res_Err r = None"
  shows "map res_WalName results = ns \<and> (\<forall>n \<in> set ns. push_options os n \<in> set (w_ran w')
    \<and> pushed_ok h (pa_Env (wa_pgbackrestArchiver archiver)) (push_options os n))"
proof -
  let ?n = "length ns" and ?a = "wa_pgbackrestArchiver archiver"
  obtain ws w1 where run: "run_schedule h ?a ns os (sched @ wait_for_all ?n) (replicate ?n Todo, w) = (ws, w1)"
    by fastforce
  with assms(1) have r: "results = map (\<lambda>(n, s). \<lparr>res_WalName = n, res_Err = worker_error s\<rparr>) (zip ns ws)"
    and w1: "w1 = w'" and crash: "crash_of ws = None"
    by (auto simp: ArchiveList_def Archive_list_def split: option.splits)
  have len: "length ws = ?n"
    using run run_schedule_length [of h ?a ns os "sched @ wait_for_all ?n" "(replicate ?n Todo, w)"] by simp
  have "reaches h ?a ns os (replicate ?n Todo, w) (ws, w')"
    using run w1 by (auto simp: reaches_iff_schedule intro: exI [of _ "sched @ wait_for_all ?n"])
  note pushed = all_pushed_reaches [OF this]
  have "ws ! i = Done None" if "i < ?n" for i
  proof -
    have "finished (ws ! i)" using all_finish [OF that, of h ?a os sched w] run by simp
    moreover have "\<forall>m. ws ! i \<noteq> Crashed m" using crash that len by (auto simp: crash_of_None_iff)
    ultimately obtain e where e: "ws ! i = Done e" by (cases "ws ! i") auto
    have "i < length results" using that len r by simp
    then have "res_Err (results ! i) = None" using assms(2) nth_mem by blast
    with e that len r show ?thesis by simp
  qed
  with pushed len show ?thesis
    by (auto simp: all_pushed_def r in_set_conv_nth split_beta comp_def)
qed

section \<open>The requested segment is always in the batch\<close>

lemma walk_keeps:
  fixes fn :: "string \<Rightarrow> bool \<Rightarrow> bool \<Rightarrow> 'b list \<Rightarrow> walk_result \<times> 'b list"
  shows "(\<forall>p d e s. prefix s (snd (fn p d e s))) \<longrightarrow> prefix s (snd (walkDir n fs fn q isDir s))"
    and "(\<forall>p d e s. prefix s (snd (fn p d e s))) \<longrightarrow> prefix s (snd (walkEntries n fs fn q names s))"
proof (induction n fs fn q isDir s and n fs fn q names s rule: walkDir_walkEntries.induct)
  case (2 n fs fn p isDir s)
  show ?case
  proof (intro impI)
    assume keeps: "\<forall>p d e s. prefix s (snd (fn p d e s))"
    obtain r s1 where f1: "fn p isDir False s = (r, s1)" by fastforce
    obtain r2 s2 where f2: "fn p isDir True s1 = (r2, s2)" by fastforce
    have k: "prefix s s1" "prefix s1 s2"
      using keeps [rule_format, of s p isDir False] keeps [rule_format, of s1 p isDir True] f1 f2 by auto
    show "prefix s (snd (walkDir (Suc n) fs fn p isDir s))"
    proof (cases "r \<noteq> WalkNil \<or> \<not> isDir")
      case False
      have "prefix s1 (snd (walkEntries n fs fn p names s1))" if "os_ReadDir p fs = Ret names" for names
        using "2.IH" [OF refl f1 [symmetric] False that] keeps by simp
      then show ?thesis
        using f1 f2 False k by (auto split: go.splits intro: prefix_order.trans)
    qed (use f1 k in auto)
  qed
next
  case (4 n fs fn p name names s)
  let ?q = "path_join [p, name]"
  obtain r s1 where f: "walkDir n fs fn ?q (node_at fs ?q = Some Dir) s = (r, s1)" by fastforce
  show ?case
    using "4.IH" (1) [OF refl] "4.IH" (2) [OF refl f [symmetric] refl] f
    by (auto intro: prefix_order.trans)
qed auto

lemma gather_keeps_requested:
  assumes "GatherWALFilesToArchive h requested par fs = Ret batch"
  shows "path_join [wal_dir h, path_base requested] \<in> set batch"
proof -
  let ?fn = "gather_fn (wal_dir h) (status_dir h) requested par"
  let ?s = "[path_join [wal_dir h, path_base requested]]"
  have fn: "\<forall>p d e s. prefix s (snd (?fn p d e s))" by (simp add: gather_fn_def Let_def)
  have "batch = WalkDir fs ?fn (status_dir h) ?s"
    using assms by (simp add: GatherWALFilesToArchive_def Let_def status_dir_def wal_dir_def split: if_splits)
  moreover have "prefix ?s (WalkDir fs ?fn (status_dir h) ?s)"
    using walk_keeps(1) [of ?fn] fn by (simp add: WalkDir_def del: walkDir.simps)
  ultimately have "prefix ?s batch" by simp
  then show ?thesis by (auto elim: prefixE)
qed

end
