(* ===== verification/Wal_Restorer.thy ===== *)
theory Wal_Restorer
  imports Wal_Archiver
begin

text \<open>
  WAL restoring (\<^verbatim>\<open>internal/pgbackrest/restorer/wal.go\<close>): segments are fetched in
  parallel, the requested one to its destination and the others into the spool, from where later
  requests are served; a flag in the spool remembers that the end of the archive was seen. Every
  fetch is one run of pgBackRest; a schedule says in which order the goroutines get to it.
\<close>

definition endOfWALStreamFlagFilename :: string where
  "endOfWALStreamFlagFilename = ''end-of-wal-stream''"

definition walNotFoundExitCode :: int where "walNotFoundExitCode = 1"

record WALRestorer =
  wr_spool :: WALSpool
  wr_env :: "string list"

text \<open>Start and end times are not modelled.\<close>

record Restore_Result =
  rr_WalName :: string
  rr_DestinationPath :: string
  rr_Err :: "error option"

definition NewWALRestorer :: "'r host \<Rightarrow> string list \<Rightarrow> string \<Rightarrow> fs \<Rightarrow> WALRestorer go \<times> fs" where
  "NewWALRestorer h env spoolDir fs =
     bindW (wrapW ''while creating spool directory'' (Spool_New (h_fileutils h) spoolDir fs))
       (\<lambda>walRecoverSpool fs. (Ret \<lparr>wr_spool = walRecoverSpool, wr_env = env\<rparr>, fs))"

definition RestoreFromSpool :: "'r host \<Rightarrow> WALRestorer \<Rightarrow> string \<Rightarrow> string \<Rightarrow> fs \<Rightarrow> bool go \<times> fs" where
  "RestoreFromSpool h restorer walName destinationPath fs =
     (case MoveOut (h_fileutils h) (wr_spool restorer) walName destinationPath fs of
        (Fail err, fs') \<Rightarrow> if err = ErrorNonExistentFile then (Ret False, fs') else (Fail err, fs')
      | (Panic m, fs') \<Rightarrow> (Panic m, fs')
      | (Ret _, fs') \<Rightarrow> (Ret True, fs'))"

section \<open>The end of the WAL stream\<close>

definition IsEndOfWALStream :: "'r host \<Rightarrow> WALRestorer \<Rightarrow> fs \<Rightarrow> bool go" where
  "IsEndOfWALStream h restorer fs =
     wrapG ''failed to check end-of-wal-stream flag''
       (Contains (h_fileutils h) (wr_spool restorer) endOfWALStreamFlagFilename fs)"

definition SetEndOfWALStream :: "'r host \<Rightarrow> WALRestorer \<Rightarrow> fs \<Rightarrow> unit go \<times> fs" where
  "SetEndOfWALStream h restorer fs =
     bindW (IsEndOfWALStream h restorer fs, fs) (\<lambda>contains fs.
       if contains then (Ret (), fs)
       else Touch (wr_spool restorer) endOfWALStreamFlagFilename fs)"

definition ResetEndOfWalStream :: "WALRestorer \<Rightarrow> fs \<Rightarrow> unit go \<times> fs" where
  "ResetEndOfWalStream restorer fs =
     wrapW ''failed to remove end-of-wal-stream flag''
       (Remove (wr_spool restorer) endOfWALStreamFlagFilename fs)"

section \<open>Fetching\<close>

text \<open>\<^verbatim>\<open>errors.As(err, &exitError)\<close> finds the exit status in the chain of errors.\<close>

definition walRestoreError :: "string \<Rightarrow> error \<Rightarrow> error" where
  "walRestoreError walName err =
     (case exit_code_of err of
        None \<Rightarrow> ErrWrap (''unexpected failure retrieving '' @ [CHR 0x22] @ walName @ [CHR 0x22] @ '' with pgbackrest archive-get'') err
      | Some c \<Rightarrow>
          if c = walNotFoundExitCode then ErrWALNotFound
          else ErrMsg (''encountered an error: '' @ [CHR 0x27] @ itoa c @ [CHR 0x27] @ '' while executing pgbackrest archive-get''))"

definition get_options :: "string list \<Rightarrow> string \<Rightarrow> string \<Rightarrow> string list" where
  "get_options baseOptions walName destinationPath = baseOptions @ [''archive-get'', walName, destinationPath]"

definition Restore_wal ::
  "'r host \<Rightarrow> WALRestorer \<Rightarrow> string \<Rightarrow> string \<Rightarrow> string list \<Rightarrow> 'r world \<Rightarrow> unit go \<times> 'r world" where
  "Restore_wal h restorer walName destinationPath baseOptions w =
     (if int (length baseOptions) \<ge> MaxInt - 3
      then (Fail (ErrMsg (''can't restore wal file '' @ walName @ '', options too long'')), w)
      else case run_streaming h (get_options baseOptions walName destinationPath) (wr_env restorer) w of
        (Fail err, w') \<Rightarrow> (Fail (walRestoreError walName err), w')
      | r \<Rightarrow> r)"

definition fetch_destination :: "WALRestorer \<Rightarrow> string \<Rightarrow> nat \<Rightarrow> string \<Rightarrow> string" where
  "fetch_destination restorer destinationPath walIndex walName =
     (if walIndex = 0 then destinationPath
      else if HasSuffix walName ''.partial''
      then FileName (wr_spool restorer) (TrimSuffix walName ''.partial'')
      else FileName (wr_spool restorer) walName)"

fun go_error :: "unit go \<Rightarrow> error option" where
  "go_error (Fail e) = Some e"
| "go_error _ = None"

text \<open>One goroutine: fetches its segment and fills its slot of the result list.\<close>

definition fetch_step ::
  "'r host \<Rightarrow> WALRestorer \<Rightarrow> string list \<Rightarrow> string \<Rightarrow> string list \<Rightarrow> nat \<Rightarrow>
   Restore_Result list \<times> 'r world \<Rightarrow> Restore_Result list \<times> 'r world" where
  "fetch_step h restorer fetchList destinationPath options i = (\<lambda>(rs, w).
     let dest = fetch_destination restorer destinationPath i (fetchList ! i);
         (r, w') = Restore_wal h restorer (fetchList ! i) dest options w
     in (rs[i := \<lparr>rr_WalName = fetchList ! i, rr_DestinationPath = dest, rr_Err = go_error r\<rparr>], w'))"

definition fetch_order :: "nat list \<Rightarrow> nat \<Rightarrow> nat list" where
  "fetch_order sched n = remdups (filter (\<lambda>i. i < n) sched @ [0..<n])"

definition RestoreList ::
  "'r host \<Rightarrow> nat list \<Rightarrow> WALRestorer \<Rightarrow> string list \<Rightarrow> string \<Rightarrow> string list \<Rightarrow> 'r world \<Rightarrow>
   Restore_Result list \<times> 'r world" where
  "RestoreList h sched restorer fetchList destinationPath options w =
     fold (fetch_step h restorer fetchList destinationPath options) (fetch_order sched (length fetchList))
       (replicate (length fetchList) \<lparr>rr_WalName = '''', rr_DestinationPath = '''', rr_Err = None\<rparr>, w)"

section \<open>Serving from the spool\<close>

text \<open>
  A request is first served from the spool: with an ordinary destination, a segment found there
  is moved to the destination with the content it was stored with, once, the rest of the spool
  staying as it is; a segment that is not there changes nothing and is no error.
\<close>

theorem RestoreFromSpool_serves:
  assumes "spool_ready (h_fileutils h) (wr_spool restorer) fs" "plain_name w"
    and "\<not> denied fs dest" "node_at fs dest \<noteq> Some Dir" "node_at fs (path_dir dest) = Some Dir"
    and "\<forall>n. plain_name n \<longrightarrow> path_clean dest \<noteq> spool_file (wr_spool restorer) n"
  shows "\<exists>fs'. RestoreFromSpool h restorer w dest fs = (Ret (w \<in> spool_elems (wr_spool restorer) fs), fs')
    \<and> spool_elems (wr_spool restorer) fs' = spool_elems (wr_spool restorer) fs - {w}
    \<and> node_at fs' dest = (if w \<in> spool_elems (wr_spool restorer) fs
         then node_at fs (spool_file (wr_spool restorer) w) else node_at fs dest)
    \<and> spool_ready (h_fileutils h) (wr_spool restorer) fs'"
proof (cases "node_at fs (spool_file (wr_spool restorer) w)")
  case None
  then have "w \<notin> spool_elems (wr_spool restorer) fs" by (simp add: spool_elems_def)
  with None MoveOut_moves [OF assms] assms(1) show ?thesis
    by (simp add: RestoreFromSpool_def)
next
  case (Some x)
  with MoveOut_moves [OF assms] obtain fs' where
    "MoveOut (h_fileutils h) (wr_spool restorer) w dest fs = (Ret (), fs')" "node_at fs' dest = Some x"
    "spool_elems (wr_spool restorer) fs' = spool_elems (wr_spool restorer) fs - {w}"
    "spool_ready (h_fileutils h) (wr_spool restorer) fs'" by auto
  moreover have "w \<in> spool_elems (wr_spool restorer) fs" using Some assms(2) by (simp add: spool_elems_def)
  ultimately show ?thesis using Some by (simp add: RestoreFromSpool_def)
qed

text \<open>
  The spool is the archiver's as well, whose markers are empty files: a segment archived ahead of
  its request and not yet asked for is served to a restore request for its name as an empty segment.
\<close>

lemma marker_served_as_segment:
  assumes "spool_ready (h_fileutils h) (wr_spool restorer) fs" "plain_name w"
    and "\<not> denied fs dest" "node_at fs dest \<noteq> Some Dir" "node_at fs (path_dir dest) = Some Dir"
    and "\<forall>n. plain_name n \<longrightarrow> path_clean dest \<noteq> spool_file (wr_spool restorer) n"
    and "path_clean (path_dir dest) \<noteq> spool_file (wr_spool restorer) w"
  shows "\<exists>fs1 fs2. Touch (wr_spool restorer) w fs = (Ret (), fs1)
    \<and> RestoreFromSpool h restorer w dest fs1 = (Ret True, fs2) \<and> node_at fs2 dest = Some (File '''')"
proof -
  let ?fs1 = "put_node (spool_file (wr_spool restorer) w) (File '''') fs"
  have base: "path_base w = w" "spool_name w" using assms(2) by (simp_all add: path_base_plain spool_name_def)
  have c: "path_clean (spool_file (wr_spool restorer) w) = spool_file (wr_spool restorer) w"
    using assms(1,2) by (simp add: spool_ready_def)
  have t: "Touch (wr_spool restorer) w fs = (Ret (), ?fs1)" using Touch_elems [OF assms(1) base(2)] base(1) by simp
  have dest: "\<not> denied ?fs1 dest" "node_at ?fs1 dest \<noteq> Some Dir" "node_at ?fs1 (path_dir dest) = Some Dir"
    using assms(3-7) c by auto
  from RestoreFromSpool_serves [OF spool_ready_put(1) [OF assms(1,2)] assms(2) dest assms(6)]
    spool_ready_put(2) [OF assms(1,2)] t c show ?thesis by fastforce
qed

definition restorer_example :: WALRestorer where
  "restorer_example = \<lparr>wr_spool = spool_example, wr_env = []\<rparr>"

theorem RestoreFromSpool_serves_witness:
  "\<exists>fs'. RestoreFromSpool info_host restorer_example ''B'' ''/d/B'' fs_example = (Ret True, fs')
     \<and> node_at fs' ''/d/B'' = Some (File ''b'')"
proof -
  have clean: "path_clean ''/d/B'' = ''/d/B''" "path_clean ''/d/'' = ''/d''" "path_clean ''/d'' = ''/d''"
    by (simp_all add: path_clean_def clean_step_def)
  have dir: "path_dir ''/d/B'' = ''/d''"
    by (simp add: path_dir_def upto_last_slash_def clean)
  have out: "\<forall>n. plain_name n \<longrightarrow> path_clean ''/d/B'' \<noteq> spool_file (wr_spool restorer_example) n"
    by (auto simp: restorer_example_def spool_file_example clean)
  have ready: "spool_ready (h_fileutils info_host) (wr_spool restorer_example) fs_example"
    using spool_example_ready by (simp add: info_host_def restorer_example_def)
  have node: "node_at fs_example (spool_file spool_example ''B'') = Some (File ''b'')"
    by (simp add: spool_file_def spool_example_def fs_example_def node_at_def path_join_def
        path_clean_def clean_step_def)
  then have "''B'' \<in> spool_elems (wr_spool restorer_example) fs_example"
    by (simp add: spool_elems_def restorer_example_def plain_name_def)
  then show ?thesis
    using RestoreFromSpool_serves [OF ready, of "''B''" "''/d/B''"] node out
    by (auto simp: plain_name_def denied_def node_at_def fs_example_def clean dir restorer_example_def)
qed

section \<open>The end of the WAL stream, once seen, is reported once\<close>

lemma flag_name: "spool_name endOfWALStreamFlagFilename" "path_base endOfWALStreamFlagFilename = endOfWALStreamFlagFilename"
proof -
  have "plain_name endOfWALStreamFlagFilename" by (simp add: endOfWALStreamFlagFilename_def plain_name_def)
  then show "path_base endOfWALStreamFlagFilename = endOfWALStreamFlagFilename" by (rule path_base_plain)
  with \<open>plain_name endOfWALStreamFlagFilename\<close> show "spool_name endOfWALStreamFlagFilename"
    by (simp add: spool_name_def)
qed

lemma IsEndOfWALStream_elems:
  "spool_ready (h_fileutils h) (wr_spool r) fs \<Longrightarrow>
     IsEndOfWALStream h r fs = Ret (endOfWALStreamFlagFilename \<in> spool_elems (wr_spool r) fs)"
  by (simp add: IsEndOfWALStream_def dir_spool.contains_elems flag_name)

lemma SetEndOfWALStream_touch:
  "spool_ready (h_fileutils h) (wr_spool r) fs \<Longrightarrow>
     SetEndOfWALStream h r fs =
       touch_if_absent (Contains (h_fileutils h) (wr_spool r)) (Touch (wr_spool r)) endOfWALStreamFlagFilename fs"
  by (simp add: SetEndOfWALStream_def IsEndOfWALStream_elems touch_if_absent_def dir_spool.contains_elems flag_name)

lemma SetEndOfWALStream_elems:
  assumes "spool_ready (h_fileutils h) (wr_spool r) fs"
  shows "\<exists>fs'. SetEndOfWALStream h r fs = (Ret (), fs') \<and> spool_ready (h_fileutils h) (wr_spool r) fs'
    \<and> spool_elems (wr_spool r) fs' = insert endOfWALStreamFlagFilename (spool_elems (wr_spool r) fs)"
  using dir_spool.touches [OF assms flag_name(1)] assms by (simp add: SetEndOfWALStream_touch flag_name)

lemma ResetEndOfWalStream_elems:
  assumes "spool_ready (h_fileutils h) (wr_spool r) fs" "endOfWALStreamFlagFilename \<in> spool_elems (wr_spool r) fs"
  shows "\<exists>fs'. ResetEndOfWalStream r fs = (Ret (), fs') \<and> spool_ready (h_fileutils h) (wr_spool r) fs'
    \<and> spool_elems (wr_spool r) fs' = spool_elems (wr_spool r) fs - {endOfWALStreamFlagFilename}"
  using dir_spool.remove_elems [OF assms(1) flag_name(1)] assms(2)
  by (auto simp: ResetEndOfWalStream_def flag_name)

text \<open>
  The end-of-stream flag: setting it, also when it is already set, leaves it set and nothing
  else changed; clearing it then works and the stream is not ended any more; clearing it when it is
  not set is an error.
\<close>

theorem EndOfWALStream_protocol:
  assumes "spool_ready (h_fileutils h) (wr_spool r) fs"
  shows "\<exists>fs1 fs2 e. SetEndOfWALStream h r fs = (Ret (), fs1) \<and> IsEndOfWALStream h r fs1 = Ret True
    \<and> SetEndOfWALStream h r fs1 = (Ret (), fs1)
    \<and> ResetEndOfWalStream r fs1 = (Ret (), fs2) \<and> IsEndOfWALStream h r fs2 = Ret False
    \<and> spool_elems (wr_spool r) fs2 = spool_elems (wr_spool r) fs - {endOfWALStreamFlagFilename}
    \<and> ResetEndOfWalStream r fs2 = (Fail e, fs2)"
proof -
  from SetEndOfWALStream_elems [OF assms] obtain fs1 where
    s: "SetEndOfWALStream h r fs = (Ret (), fs1)" "spool_ready (h_fileutils h) (wr_spool r) fs1"
      "spool_elems (wr_spool r) fs1 = insert endOfWALStreamFlagFilename (spool_elems (wr_spool r) fs)" by blast
  moreover from ResetEndOfWalStream_elems [OF s(2)] s(3) obtain fs2 where
    t: "ResetEndOfWalStream r fs1 = (Ret (), fs2)" "spool_ready (h_fileutils h) (wr_spool r) fs2"
      "spool_elems (wr_spool r) fs2 = spool_elems (wr_spool r) fs1 - {endOfWALStreamFlagFilename}" by blast
  moreover have "ResetEndOfWalStream r fs2
      = (Fail (ErrWrap ''failed to remove end-of-wal-stream flag'' (ErrOs ENOENT)), fs2)"
    using dir_spool.remove_absent [OF t(2) flag_name(1)] t(3) by (simp add: ResetEndOfWalStream_def flag_name)
  ultimately show ?thesis
    by (auto simp: IsEndOfWALStream_elems SetEndOfWALStream_touch touch_if_absent_def
        dir_spool.contains_elems flag_name)
qed

theorem EndOfWALStream_protocol_witness:
  "\<exists>fs1. SetEndOfWALStream info_host restorer_example fs_example = (Ret (), fs1)
     \<and> IsEndOfWALStream info_host restorer_example fs1 = Ret True"
proof -
  have "spool_ready (h_fileutils info_host) (wr_spool restorer_example) fs_example"
    using spool_example_ready by (simp add: info_host_def restorer_example_def)
  from EndOfWALStream_protocol [OF this] show ?thesis by blast
qed

section \<open>What a fetch reports\<close>

text \<open>
  C31. Fetching a segment runs pgBackRest once and succeeds exactly when the process does; the error
  says that the segment is not in the archive exactly when the process exited with status 1, so a
  missing segment is told from every other failure.
\<close>

theorem Restore_wal_outcome:
  assumes "int (length options) < MaxInt - 3"
  shows "w_ran (snd (Restore_wal h r n dest options w)) = w_ran w @ [get_options options n dest]
    \<and> (case h_pgbackrest h (get_options options n dest) (wr_env r) (w_fs w) (w_remote w) of
         (ProcOk out, _, _) \<Rightarrow> fst (Restore_wal h r n dest options w) = Ret ()
       | (ProcExit c, _, _) \<Rightarrow> \<exists>e. fst (Restore_wal h r n dest options w) = Fail e
            \<and> (errors_is e ErrWALNotFound \<longleftrightarrow> c = 1)
       | (ProcFail m, _, _) \<Rightarrow> \<exists>e. fst (Restore_wal h r n dest options w) = Fail e
            \<and> \<not> errors_is e ErrWALNotFound)"
proof -
  obtain pr f s where "h_pgbackrest h (get_options options n dest) (wr_env r) (w_fs w) (w_remote w) = (pr, f, s)"
    by (metis prod.collapse)
  with assms show ?thesis
    by (cases pr) (auto simp: Restore_wal_def run_streaming_def run_pgbackrest_def walRestoreError_def
        walNotFoundExitCode_def errors_is_def)
qed

lemma Restore_wal_ran:
  assumes "int (length options) < MaxInt - 3"
  shows "w_ran (snd (Restore_wal h r n dest options w)) = w_ran w @ [get_options options n dest]"
  using assms run_pgbackrest_ran [of h "get_options options n dest" "wr_env r" w]
  by (auto simp: Restore_wal_def split: prod.splits go.splits simp flip: run_streaming_snd)

lemma fetch_order_set: "set (fetch_order sched n) = {..<n}" "distinct (fetch_order sched n)"
  by (auto simp: fetch_order_def)

text \<open>What a process result means for the segment it was to fetch.\<close>

fun fetch_error :: "string \<Rightarrow> proc_result \<Rightarrow> error option" where
  "fetch_error n (ProcOk out) = None"
| "fetch_error n (ProcExit c) = Some (walRestoreError n (ErrExit c))"
| "fetch_error n (ProcFail m) = Some (walRestoreError n (ErrMsg m))"

definition fetched :: "'r host \<Rightarrow> WALRestorer \<Rightarrow> string \<Rightarrow> string list \<Rightarrow> error option \<Rightarrow> bool" where
  "fetched h r n argv err \<longleftrightarrow>
     (\<exists>fs rem pr s. h_pgbackrest h argv (wr_env r) fs rem = (pr, s) \<and> err = fetch_error n pr)"

lemma Restore_wal_fetched:
  assumes "int (length options) < MaxInt - 3"
  shows "fetched h r n (get_options options n dest) (go_error (fst (Restore_wal h r n dest options w)))"
proof -
  obtain pr f s where p: "h_pgbackrest h (get_options options n dest) (wr_env r) (w_fs w) (w_remote w) = (pr, f, s)"
    by (metis prod.collapse)
  with assms have "go_error (fst (Restore_wal h r n dest options w)) = fetch_error n pr"
    by (cases pr) (auto simp: Restore_wal_def run_streaming_def run_pgbackrest_def)
  with p show ?thesis unfolding fetched_def by blast
qed

definition fetch_slot_ok ::
  "'r host \<Rightarrow> WALRestorer \<Rightarrow> string list \<Rightarrow> string \<Rightarrow> string list \<Rightarrow> nat \<Rightarrow> Restore_Result \<Rightarrow> bool" where
  "fetch_slot_ok h r fetchList dest options i res \<longleftrightarrow>
     rr_WalName res = fetchList ! i \<and> rr_DestinationPath res = fetch_destination r dest i (fetchList ! i)
     \<and> fetched h r (fetchList ! i) (get_options options (fetchList ! i) (fetch_destination r dest i (fetchList ! i)))
          (rr_Err res)"

lemma fetch_fold:
  assumes "distinct order" "set order \<subseteq> {..<length rs}" "int (length options) < MaxInt - 3"
  shows "length (fst (fold (fetch_step h r fl dest options) order (rs, w))) = length rs
    \<and> (\<forall>i < length rs. if i \<in> set order
         then fetch_slot_ok h r fl dest options i (fst (fold (fetch_step h r fl dest options) order (rs, w)) ! i)
         else fst (fold (fetch_step h r fl dest options) order (rs, w)) ! i = rs ! i)
    \<and> mset (w_ran (snd (fold (fetch_step h r fl dest options) order (rs, w)))) = mset (w_ran w)
        + image_mset (\<lambda>i. get_options options (fl ! i) (fetch_destination r dest i (fl ! i))) (mset order)"
  using assms(1,2)
proof (induction order arbitrary: rs w)
  case (Cons i order)
  let ?q = "fetch_step h r fl dest options i (rs, w)"
  have len: "length (fst ?q) = length rs" by (simp add: fetch_step_def Let_def split_beta)
  have slot: "fetch_slot_ok h r fl dest options i (fst ?q ! i)" "\<forall>j < length rs. j \<noteq> i \<longrightarrow> fst ?q ! j = rs ! j"
    using Cons.prems Restore_wal_fetched [OF assms(3)]
    by (auto simp: fetch_step_def Let_def split_beta fetch_slot_ok_def)
  have ran: "w_ran (snd ?q) = w_ran w @ [get_options options (fl ! i) (fetch_destination r dest i (fl ! i))]"
    using Restore_wal_ran [OF assms(3)] by (simp add: fetch_step_def Let_def split_beta)
  from Cons.IH [of "fst ?q" "snd ?q"] Cons.prems len
  have ih: "length (fst (fold (fetch_step h r fl dest options) order ?q)) = length rs"
    "\<forall>j < length rs. if j \<in> set order
         then fetch_slot_ok h r fl dest options j (fst (fold (fetch_step h r fl dest options) order ?q) ! j)
         else fst (fold (fetch_step h r fl dest options) order ?q) ! j = fst ?q ! j"
    "mset (w_ran (snd (fold (fetch_step h r fl dest options) order ?q))) = mset (w_ran (snd ?q))
        + image_mset (\<lambda>i. get_options options (fl ! i) (fetch_destination r dest i (fl ! i))) (mset order)"
    by auto
  with slot ran Cons.prems show ?case by auto
qed simp

lemma RestoreList_slots:
  assumes "int (length options) < MaxInt - 3"
    and "RestoreList h sched r fetchList dest options w = (results, w')"
  shows "length results = length fetchList"
    and "\<forall>i < length fetchList. fetch_slot_ok h r fetchList dest options i (results ! i)"
    and "mset (w_ran w') = mset (w_ran w) + image_mset (\<lambda>i. get_options options (fetchList ! i)
        (rr_DestinationPath (results ! i))) (mset [0..<length fetchList])"
proof -
  let ?n = "length fetchList" and ?order = "fetch_order sched (length fetchList)"
  let ?start = "replicate ?n \<lparr>rr_WalName = [], rr_DestinationPath = [], rr_Err = None\<rparr>"
  have "set ?order \<subseteq> {..<length ?start}" by (simp add: fetch_order_set)
  note f = fetch_fold [OF fetch_order_set(2) this assms(1), of h r fetchList dest w]
  show len: "length results = ?n"
    and slots: "\<forall>i < ?n. fetch_slot_ok h r fetchList dest options i (results ! i)"
    using f assms(2) by (auto simp: RestoreList_def fetch_order_set)
  have ran: "mset (w_ran w') = mset (w_ran w) + image_mset (\<lambda>i. get_options options (fetchList ! i)
        (fetch_destination r dest i (fetchList ! i))) (mset ?order)"
    using f assms(2) by (auto simp: RestoreList_def)
  have order: "mset ?order = mset [0..<?n]"
    by (rule set_eq_iff_mset_eq_distinct [THEN iffD1]) (auto simp: fetch_order_set)
  have "image_mset (\<lambda>i. get_options options (fetchList ! i) (fetch_destination r dest i (fetchList ! i))) (mset [0..<?n])
      = image_mset (\<lambda>i. get_options options (fetchList ! i) (rr_DestinationPath (results ! i))) (mset [0..<?n])"
    using slots by (intro image_mset_cong) (simp add: fetch_slot_ok_def)
  with ran show "mset (w_ran w') = mset (w_ran w) + image_mset (\<lambda>i. get_options options (fetchList ! i)
        (rr_DestinationPath (results ! i))) (mset [0..<?n])"
    by (simp only: order)
qed

lemma fetch_destination_spool:
  "fetch_destination r dest i x =
     (if i = 0 then dest else spool_file (wr_spool r) (TrimSuffix x ''.partial''))"
  by (simp add: fetch_destination_def FileName_def spool_file_def TrimSuffix_def HasSuffix_def)

text \<open>
  C19. Fetching a batch, in whatever order the goroutines run: one result per segment, in the order
  of the list; only the first, the requested one, is fetched to the destination, every other one
  into the spool, a partial segment under the name of the full one; pgBackRest is run exactly once
  for each segment, and each result has the error that the process of its segment gave.
\<close>

theorem RestoreList_fetches:
  assumes "int (length options) < MaxInt - 3"
    and "RestoreList h sched r fetchList dest options w = (results, w')"
  shows "map rr_WalName results = fetchList
    \<and> map rr_DestinationPath results = map (\<lambda>i. if i = 0 then dest
        else spool_file (wr_spool r) (TrimSuffix (fetchList ! i) ''.partial'')) [0..<length fetchList]
    \<and> mset (w_ran w') = mset (w_ran w) + image_mset (\<lambda>i. get_options options (fetchList ! i)
        (rr_DestinationPath (results ! i))) (mset [0..<length fetchList])
    \<and> (\<forall>res \<in> set results. fetched h r (rr_WalName res)
         (get_options options (rr_WalName res) (rr_DestinationPath res)) (rr_Err res))"
proof -
  note slots = RestoreList_slots [OF assms]
  have "map rr_WalName results = fetchList"
    using slots(1,2) by (intro nth_equalityI) (simp_all add: fetch_slot_ok_def)
  moreover have "map rr_DestinationPath results = map (\<lambda>i. if i = 0 then dest
        else spool_file (wr_spool r) (TrimSuffix (fetchList ! i) ''.partial'')) [0..<length fetchList]"
    using slots(1,2) by (intro nth_equalityI)
      (simp_all only: fetch_slot_ok_def fetch_destination_spool length_map length_upt nth_map nth_upt, simp_all)
  moreover have "\<forall>res \<in> set results. fetched h r (rr_WalName res)
         (get_options options (rr_WalName res) (rr_DestinationPath res)) (rr_Err res)"
    using slots(1,2) by (auto simp: in_set_conv_nth fetch_slot_ok_def)
  ultimately show ?thesis using slots(3) by blast
qed

theorem Restore_wal_outcome_witness:
  "fst (Restore_wal info_host restorer_example ''A'' ''/d/A'' [] spool_world) = Ret ()
   \<and> length (w_ran (snd (Restore_wal info_host restorer_example ''A'' ''/d/A'' [] spool_world))) = 1"
proof -
  have "int (length ([] :: string list)) < MaxInt - 3" by (simp add: MaxInt_def)
  from Restore_wal_outcome [OF this, of info_host restorer_example "''A''" "''/d/A''" spool_world] show ?thesis
    by (simp add: info_host_def spool_world_def)
qed

theorem RestoreList_fetches_witness:
  "\<exists>results w'. RestoreList info_host [1] restorer_example [''A'', ''B''] ''/d/A'' [] spool_world = (results, w')
     \<and> map rr_WalName results = [''A'', ''B''] \<and> length (w_ran w') = 2"
proof -
  obtain results w' where r: "RestoreList info_host [1] restorer_example [''A'', ''B''] ''/d/A'' [] spool_world = (results, w')"
    by fastforce
  have "int (length ([] :: string list)) < MaxInt - 3" by (simp add: MaxInt_def)
  note f = RestoreList_fetches [OF this r]
  then have "mset (w_ran w') = {#} + image_mset (\<lambda>i. get_options [] ([''A'', ''B''] ! i)
        (rr_DestinationPath (results ! i))) (mset [0..<length [''A'', ''B'']])"
    by (simp add: spool_world_def)
  then have "size (mset (w_ran w')) = 2" by simp
  then have "length (w_ran w') = 2" by (simp only: size_mset)
  moreover have "map rr_WalName results = [''A'', ''B'']" using f by blast
  ultimately show ?thesis using r by (intro exI [of _ results] exI [of _ w'] conjI)
qed

end
