(* ===== verification/Go_Regexp.thy ===== *)
theory Go_Regexp
  imports Go_Strings
begin

text \<open>
  The fragment of \<^verbatim>\<open>regexp\<close> the program uses: character classes, sequence, alternative,
  option, star and counted repetition, anchored with \<open>^\<close> and optionally with \<open>$\<close>.
  \<open>rest r s\<close> computes what may remain of \<open>s\<close> after \<open>r\<close> has matched a prefix;
  \<open>lang r\<close> is the set of words that \<open>r\<close> denotes, and \<open>rest_lang\<close> relates the two.
\<close>

datatype regex =
    Eps
  | Class "char list"
  | Seq regex regex
  | Alt regex regex
  | Star regex

fun lit :: "string \<Rightarrow> regex" where
  "lit [] = Eps"
| "lit (c # cs) = Seq (Class [c]) (lit cs)"

fun rep :: "nat \<Rightarrow> regex \<Rightarrow> regex" where
  "rep 0 r = Eps"
| "rep (Suc n) r = Seq r (rep n r)"

definition opt :: "regex \<Rightarrow> regex" where
  "opt r = Alt r Eps"

inductive_set star_words :: "string set \<Rightarrow> string set" for A where
  star_Nil: "[] \<in> star_words A"
| star_app: "u \<in> A \<Longrightarrow> v \<in> star_words A \<Longrightarrow> u @ v \<in> star_words A"

fun lang :: "regex \<Rightarrow> string set" where
  "lang Eps = {[]}"
| "lang (Class cs) = {[c] | c. c \<in> set cs}"
| "lang (Seq r s) = {u @ v | u v. u \<in> lang r \<and> v \<in> lang s}"
| "lang (Alt r s) = lang r \<union> lang s"
| "lang (Star r) = star_words (lang r)"

text \<open>
  An iteration of a star that consumes nothing adds no match, so only proper progress is
  followed; this is what makes the recursion stop.
\<close>

function rest :: "regex \<Rightarrow> string \<Rightarrow> string list" where
  "rest Eps w = [w]"
| "rest (Class cs) w = (case w of [] \<Rightarrow> [] | c # v \<Rightarrow> if c \<in> set cs then [v] else [])"
| "rest (Seq r s) w = concat (map (rest s) (rest r w))"
| "rest (Alt r s) w = rest r w @ rest s w"
| "rest (Star r) w =
     w # concat (map (rest (Star r)) (filter (\<lambda>v. length v < length w) (rest r w)))"
  by pat_completeness auto
termination
  by (relation "measures [\<lambda>(r, w). size r, \<lambda>(r, w). length w]") auto

text \<open>Unfolded only where it is named: the star equation repeats itself on an unknown word.\<close>

declare rest.simps(5) [simp del]

lemma rest_Star: 
  "v \<in> set (rest (Star r) w) \<longleftrightarrow>
     v = w \<or> (\<exists>x. x \<in> set (rest r w) \<and> length x < length w \<and> v \<in> set (rest (Star r) x))"
  by (subst rest.simps(5)) auto

definition match_prefix :: "regex \<Rightarrow> string \<Rightarrow> bool" where
  "match_prefix r w \<longleftrightarrow> rest r w \<noteq> []"

definition match_full :: "regex \<Rightarrow> string \<Rightarrow> bool" where
  "match_full r w \<longleftrightarrow> [] \<in> set (rest r w)"

lemma star_words_shrink:
  assumes "w \<in> star_words A" "w \<noteq> []"
  shows "\<exists>u v. w = u @ v \<and> u \<in> A \<and> u \<noteq> [] \<and> v \<in> star_words A"
  using assms
proof (induction rule: star_words.induct)
  case (star_app u v)
  then show ?case by (cases "u = []") auto
qed simp

lemma rest_lang: "v \<in> set (rest r w) \<longleftrightarrow> (\<exists>u. w = u @ v \<and> u \<in> lang r)"
proof (induction r w arbitrary: v rule: rest.induct)
  case (2 cs w)
  then show ?case by (cases w) auto
next
  case (3 r s w)
  show ?case
  proof
    assume "v \<in> set (rest (Seq r s) w)"
    then obtain x where "x \<in> set (rest r w)" "v \<in> set (rest s x)" by auto
    with 3 obtain u u' where "w = u @ x" "u \<in> lang r" "x = u' @ v" "u' \<in> lang s" by blast
    then show "\<exists>u. w = u @ v \<and> u \<in> lang (Seq r s)"
      by (intro exI [of _ "u @ u'"]) auto
  next
    assume "\<exists>u. w = u @ v \<and> u \<in> lang (Seq r s)"
    then obtain a b where w: "w = a @ b @ v" "a \<in> lang r" "b \<in> lang s" by auto
    then have "b @ v \<in> set (rest r w)" using "3.IH"(1) by blast
    moreover from this w have "v \<in> set (rest s (b @ v))" using "3.IH"(2) by blast
    ultimately show "v \<in> set (rest (Seq r s) w)" by auto
  qed
next
  case (5 r w)
  show ?case
  proof
    assume "v \<in> set (rest (Star r) w)"
    then consider "v = w" |
      x where "x \<in> set (rest r w)" "length x < length w" "v \<in> set (rest (Star r) x)"
      by (auto simp: rest_Star [of v r w])
    then show "\<exists>u. w = u @ v \<and> u \<in> lang (Star r)"
    proof cases
      case 1
      then show ?thesis by (auto intro: star_Nil)
    next
      case 2
      from 2(1) obtain u where "w = u @ x" "u \<in> lang r" using "5.IH"(1) by blast
      moreover from 2 have "\<exists>u'. x = u' @ v \<and> u' \<in> lang (Star r)"
        using "5.IH"(2) [of x v] by (simp del: rest.simps lang.simps)
      then obtain u' where "x = u' @ v" "u' \<in> star_words (lang r)" by auto
      ultimately show ?thesis by (intro exI [of _ "u @ u'"]) (auto intro: star_app)
    qed
  next
    assume "\<exists>u. w = u @ v \<and> u \<in> lang (Star r)"
    then obtain u where w: "w = u @ v" "u \<in> star_words (lang r)" by auto
    show "v \<in> set (rest (Star r) w)"
    proof (cases "u = []")
      case False
      then obtain a b where ab: "u = a @ b" "a \<in> lang r" "a \<noteq> []" "b \<in> star_words (lang r)"
        using star_words_shrink w(2) by blast
      then have x: "b @ v \<in> set (rest r w)" using "5.IH"(1) w by force
      have l: "length (b @ v) < length w" using ab w by simp
      have "v \<in> set (rest (Star r) (b @ v))"
        using "5.IH"(2) [of "b @ v" v] x l ab by auto
      with x l show ?thesis by (auto simp: rest_Star [of v r w])
    qed (use w in \<open>simp add: rest_Star [of v r v]\<close>)
  qed
qed auto

lemma match_full_iff: "match_full r w \<longleftrightarrow> w \<in> lang r"
  by (simp add: match_full_def rest_lang)

lemma match_prefix_iff: "match_prefix r w \<longleftrightarrow> (\<exists>u. prefix u w \<and> u \<in> lang r)"
proof -
  have "match_prefix r w \<longleftrightarrow> (\<exists>v. v \<in> set (rest r w))"
    by (cases "rest r w") (auto simp: match_prefix_def)
  then show ?thesis by (auto simp: rest_lang prefix_def)
qed

lemma lang_lit: "lang (lit s) = {s}"
  by (induction s) auto

lemma lang_rep_Class:
  "lang (rep n (Class cs)) = {w. length w = n \<and> set w \<subseteq> set cs}"
proof (induction n)
  case (Suc n)
  show ?case
  proof (intro set_eqI iffI)
    fix w assume "w \<in> lang (rep (Suc n) (Class cs))"
    with Suc show "w \<in> {w. length w = Suc n \<and> set w \<subseteq> set cs}" by auto
  next
    fix w assume "w \<in> {w. length w = Suc n \<and> set w \<subseteq> set cs}"
    then obtain c v where w: "w = [c] @ v" "c \<in> set cs" "length v = n" "set v \<subseteq> set cs"
      by (cases w) auto
    from w(3,4) Suc have "v \<in> lang (rep n (Class cs))" by simp
    moreover from w(2) have "[c] \<in> lang (Class cs)" by simp
    ultimately show "w \<in> lang (rep (Suc n) (Class cs))"
      unfolding rep.simps lang.simps(3) using w(1) by blast
  qed
qed auto

end
