(* ===== verification/Wal_Segment.thy ===== *)
theory Wal_Segment
  imports Go_Regexp "HOL-Library.Word" "HOL-Library.Signed_Division" "HOL-Library.Product_Lexorder"
begin

text \<open>
  WAL segment names (\<^verbatim>\<open>internal/cnpgi/common/wal_import.go\<close>): a segment is three signed
  32-bit numbers, its name their 24 hexadecimal digits; \<open>NextSegments\<close> lists the segments
  that follow one. The lemmas show that names and segments determine each other and that the
  segments listed are strictly increasing.
\<close>

section \<open>Names\<close>

definition hex_class :: "char list" where
  "hex_class = ''0123456789ABCDEFabcdef''"

definition WALHexOctetRe :: regex where
  "WALHexOctetRe = rep 8 (Class hex_class)"

definition WALTimeLineRe :: regex where
  "WALTimeLineRe = WALHexOctetRe"

definition WALSegmentNameRe :: regex where
  "WALSegmentNameRe = Seq WALHexOctetRe WALHexOctetRe"

definition WALRe :: regex where
  "WALRe =
     Seq WALTimeLineRe
       (Alt (Seq WALSegmentNameRe
              (opt (Alt (Seq (lit ''.'') (Seq (rep 8 (Class hex_class)) (lit ''.backup'')))
                        (lit ''.partial''))))
            (lit ''.history''))"

definition WALSegmentRe :: regex where
  "WALSegmentRe = Seq WALTimeLineRe WALSegmentNameRe"

text \<open>
  \<^verbatim>\<open>FindStringSubmatch\<close> for \<open>WALRe\<close>: the whole match and its three groups, which are
  runs of eight characters at fixed positions; the last two are empty when the name is that of
  a history file. No match is the empty list.
\<close>

definition WALRe_submatch :: "string \<Rightarrow> string list" where
  "WALRe_submatch s =
     (if match_full WALRe s then
        (if match_full (Seq WALTimeLineRe (lit ''.history'')) s
         then [s, take 8 s, [], []]
         else [s, take 8 s, take 8 (drop 8 s), take 8 (drop 16 s)])
      else [])"

section \<open>Segments\<close>

record Segment =
  Tli :: "32 word"
  Log :: "32 word"
  Seg :: "32 word"

definition ErrBadWALSegmentName :: error where
  "ErrBadWALSegmentName = ErrMsg ''invalid WAL segment name''"

definition DefaultWALSegmentSize :: "64 word" where
  "DefaultWALSegmentSize = push_bit 24 1"

definition IsWALFile :: "string \<Rightarrow> bool" where
  "IsWALFile name = match_full WALSegmentRe (path_base name)"

definition SegmentFromName :: "string \<Rightarrow> Segment go" where
  "SegmentFromName name =
     (let baseName = path_base name;
          subMatches = WALRe_submatch baseName
      in if length subMatches \<noteq> 4 then Fail ErrBadWALSegmentName
         else if length (subMatches ! 0) \<noteq> 24 then Fail ErrBadWALSegmentName
         else case ParseInt (subMatches ! 1) 16 32 of
           None \<Rightarrow> Fail ErrBadWALSegmentName
         | Some tli \<Rightarrow>
           (case ParseInt (subMatches ! 2) 16 32 of
              None \<Rightarrow> Fail ErrBadWALSegmentName
            | Some log \<Rightarrow>
              (case ParseInt (subMatches ! 3) 16 32 of
                 None \<Rightarrow> Fail ErrBadWALSegmentName
               | Some seg \<Rightarrow>
                   Ret \<lparr>Tli = word_of_int tli, Log = word_of_int log, Seg = word_of_int seg\<rparr>)))"

definition MustSegmentFromName :: "string \<Rightarrow> Segment go" where
  "MustSegmentFromName name =
     (case SegmentFromName name of
        Fail e \<Rightarrow> Panic ''invalid WAL segment name''
      | r \<Rightarrow> r)"

definition Segment_Name :: "Segment \<Rightarrow> string" where
  "Segment_Name segment =
     fmt_08X (sint (Tli segment)) @ fmt_08X (sint (Log segment)) @ fmt_08X (sint (Seg segment))"

text \<open>Integer division by zero panics; the quotient is truncated to 32 bits.\<close>

definition WalSegmentsPerFile :: "64 word \<Rightarrow> 32 word go" where
  "WalSegmentsPerFile walSegmentSize =
     (if walSegmentSize = 0 then Panic ''integer divide by zero''
      else Ret (word_of_int ((0xFFFFFFFF :: int) sdiv sint walSegmentSize)))"

text \<open>One pass of the loop of \<open>NextSegments\<close>: the segment that follows.\<close>

definition next_segment :: "32 word \<Rightarrow> bool \<Rightarrow> Segment \<Rightarrow> Segment" where
  "next_segment walSegPerFile skipLastSegment cur =
     (let seg' = Seg cur + 1 in
      if sint seg' > sint walSegPerFile \<or> (skipLastSegment \<and> seg' = walSegPerFile)
      then cur\<lparr>Log := Log cur + 1, Seg := 0\<rparr>
      else cur\<lparr>Seg := seg'\<rparr>)"

fun next_segments_loop :: "nat \<Rightarrow> 32 word \<Rightarrow> bool \<Rightarrow> Segment \<Rightarrow> Segment list" where
  "next_segments_loop 0 per skip cur = []"
| "next_segments_loop (Suc n) per skip cur =
     \<lparr>Tli = Tli cur, Log = Log cur, Seg = Seg cur\<rparr>
       # next_segments_loop n per skip (next_segment per skip cur)"

definition NextSegments ::
  "Segment \<Rightarrow> int \<Rightarrow> int option \<Rightarrow> 64 word option \<Rightarrow> Segment list go" where
  "NextSegments segment size' postgresVersion segmentSize =
     (if size' < 0 then Panic ''makeslice: cap out of range''
      else bindG (case segmentSize of None \<Rightarrow> WalSegmentsPerFile DefaultWALSegmentSize
                                    | Some sz \<Rightarrow> WalSegmentsPerFile sz)
        (\<lambda>walSegPerFile.
           let skipLastSegment = (case postgresVersion of None \<Rightarrow> False | Some v \<Rightarrow> v < 90300)
           in Ret (next_segments_loop (nat size') walSegPerFile skipLastSegment segment)))"

section \<open>Which names are segment names\<close>

definition wal_name :: "string \<Rightarrow> bool" where
  "wal_name n \<longleftrightarrow> length n = 24 \<and> set n \<subseteq> set hex_class"

lemma lang_octet: "lang WALHexOctetRe = {w. length w = 8 \<and> set w \<subseteq> set hex_class}"
  unfolding WALHexOctetRe_def by (rule lang_rep_Class)

lemma lang_WALSegmentRe: "lang WALSegmentRe = {n. wal_name n}"
proof (intro set_eqI iffI)
  fix n assume "n \<in> lang WALSegmentRe"
  then show "n \<in> {n. wal_name n}"
    by (auto simp: WALSegmentRe_def WALTimeLineRe_def WALSegmentNameRe_def lang_octet wal_name_def)
next
  fix n assume "n \<in> {n. wal_name n}"
  then have n: "length n = 24" "set n \<subseteq> set hex_class" by (auto simp: wal_name_def)
  have split: "n = take 8 n @ take 8 (drop 8 n) @ drop 16 n"
    by (metis append_take_drop_id drop_drop numeral_Bit0 numeral_One add_numeral_left)
  have parts: "take 8 n \<in> lang WALHexOctetRe" "take 8 (drop 8 n) \<in> lang WALHexOctetRe"
    "drop 16 n \<in> lang WALHexOctetRe"
    using n by (auto simp: lang_octet dest!: in_set_takeD in_set_dropD)
  show "n \<in> lang WALSegmentRe"
    unfolding WALSegmentRe_def WALTimeLineRe_def WALSegmentNameRe_def lang.simps(3)
    using split parts by blast
qed

lemma IsWALFile_iff: "IsWALFile n \<longleftrightarrow> wal_name (path_base n)"
  by (simp add: IsWALFile_def match_full_iff lang_WALSegmentRe)

lemma lang_history_length:
  "w \<in> lang (Seq WALTimeLineRe (lit ''.history'')) \<Longrightarrow> length w = 16"
  by (auto simp: WALTimeLineRe_def lang_octet lang_lit)

lemma lang_WALRe_24:
  assumes "length n = 24"
  shows "n \<in> lang WALRe \<longleftrightarrow> wal_name n"
proof
  assume "n \<in> lang WALRe"
  then consider t s x where "n = t @ s @ x" "t \<in> lang WALHexOctetRe" "s \<in> lang WALSegmentNameRe"
      "x = [] \<or> x = ''.partial'' \<or>
        x \<in> lang (Seq (lit ''.'') (Seq (rep 8 (Class hex_class)) (lit ''.backup'')))"
    | t where "n = t @ ''.history''" "t \<in> lang WALHexOctetRe"
    unfolding WALRe_def opt_def WALTimeLineRe_def lang.simps lang_lit by blast
  then show "wal_name n"
  proof cases
    case (1 t s x)
    have "length x = 16"
      if "x \<in> lang (Seq (lit ''.'') (Seq (rep 8 (Class hex_class)) (lit ''.backup'')))"
      using that by (auto simp: lang_rep_Class lang_lit)
    moreover have "length t = 8" "length s = 16"
      using 1 by (auto simp: lang_octet WALSegmentNameRe_def)
    ultimately have "x = []" using 1 assms by auto
    with 1 show ?thesis by (auto simp: lang_octet WALSegmentNameRe_def wal_name_def)
  next
    case (2 t)
    with assms show ?thesis by (simp add: lang_octet)
  qed
next
  assume "wal_name n"
  then have "n \<in> lang WALSegmentRe" by (simp add: lang_WALSegmentRe)
  then obtain t s where "n = t @ s" "t \<in> lang WALTimeLineRe" "s \<in> lang WALSegmentNameRe"
    unfolding WALSegmentRe_def by auto
  moreover from this(3) have "s @ [] \<in> lang (Seq WALSegmentNameRe (opt r))" for r
    unfolding opt_def lang.simps by blast
  ultimately show "n \<in> lang WALRe" unfolding WALRe_def by (simp only: lang.simps) force
qed

lemma WALRe_submatch_24:
  assumes "length n = 24"
  shows "WALRe_submatch n =
    (if wal_name n then [n, take 8 n, take 8 (drop 8 n), take 8 (drop 16 n)] else [])"
  using assms lang_history_length [of n]
  by (auto simp: WALRe_submatch_def match_full_iff lang_WALRe_24)

lemma SegmentFromName_alt:
  "SegmentFromName name =
     (let b = path_base name in
      if \<not> wal_name b then Fail ErrBadWALSegmentName
      else case (ParseInt (take 8 b) 16 32, ParseInt (take 8 (drop 8 b)) 16 32,
                 ParseInt (take 8 (drop 16 b)) 16 32) of
        (Some t, Some l, Some s) \<Rightarrow>
          Ret \<lparr>Tli = word_of_int t, Log = word_of_int l, Seg = word_of_int s\<rparr>
      | _ \<Rightarrow> Fail ErrBadWALSegmentName)"
proof (cases "length (path_base name) = 24")
  case True
  then show ?thesis
    by (auto simp: SegmentFromName_def Let_def WALRe_submatch_24 split: option.splits)
next
  case False
  then show ?thesis
    by (auto simp: SegmentFromName_def Let_def WALRe_submatch_def wal_name_def)
qed

text \<open>A name that is no regular WAL file name is rejected; nothing panics.\<close>

lemma SegmentFromName_cases:
  "SegmentFromName n = Fail ErrBadWALSegmentName \<or> (\<exists>s. SegmentFromName n = Ret s)"
  by (auto simp: SegmentFromName_alt Let_def split: option.splits)

section \<open>Names and segments determine each other\<close>

definition seg_ok :: "Segment \<Rightarrow> bool" where
  "seg_ok s \<longleftrightarrow> 0 \<le> sint (Tli s) \<and> 0 \<le> sint (Log s) \<and> 0 \<le> sint (Seg s)"

definition hex_upper :: "char \<Rightarrow> char" where
  "hex_upper c = (case digit_val c of None \<Rightarrow> c | Some d \<Rightarrow> digit_char d)"

lemma hex_class_digit: "c \<in> set hex_class \<Longrightarrow> \<exists>d<16. digit_val c = Some d"
  by (auto simp: hex_class_def digit_val_def)

lemma digit_char_hex: "d < 16 \<Longrightarrow> digit_char d \<in> set hex_class"
  by (auto simp: digit_char_def hex_class_def numeral_eq_Suc less_Suc_eq)

lemma sint32_bounds: "- (2 ^ 31) \<le> sint (x :: 32 word)" "sint (x :: 32 word) < 2 ^ 31"
  using sint_range_size [of x] by (simp_all add: word_size)

lemma sint_word_of_int32: "- (2 ^ 31) \<le> i \<Longrightarrow> i < 2 ^ 31 \<Longrightarrow> sint (word_of_int i :: 32 word) = i"
  by (simp add: sint_sbintrunc' signed_take_bit_int_eq_self)

lemma fmt_field:
  assumes "0 \<le> sint (x :: 32 word)"
  shows "length (fmt_08X (sint x)) = 8" "set (fmt_08X (sint x)) \<subseteq> set hex_class"
    "ParseInt (fmt_08X (sint x)) 16 32 = Some (sint x)"
  using assms sint32_bounds [of x]
  by (auto simp: length_fmt_08X ParseInt_fmt_08X dest!: fmt_08X_digits [OF assms] intro: digit_char_hex)

lemma wal_name_Name: "seg_ok s \<Longrightarrow> wal_name (Segment_Name s)"
  by (simp add: wal_name_def Segment_Name_def seg_ok_def fmt_field)

lemma wal_name_plain: "wal_name n \<Longrightarrow> plain_name n"
proof -
  assume n: "wal_name n"
  have "slash \<notin> set hex_class" by (simp add: hex_class_def)
  with n show ?thesis by (auto simp: wal_name_def plain_name_def)
qed

lemma wal_name_base [simp]: "wal_name n \<Longrightarrow> path_base n = n"
  by (simp add: path_base_plain wal_name_plain)

lemma pad_zero_snoc:
  assumes "d < 16" "0 < k" "length (fmt_nat 16 a) \<le> k"
  shows "pad_zero (Suc k) (fmt_nat 16 (a * 16 + d)) = pad_zero k (fmt_nat 16 a) @ [digit_char d]"
proof (cases "a = 0")
  case True
  have "fmt_nat 16 d = [digit_char d]" "fmt_nat 16 0 = ''0''"
    using assms by (simp_all add: fmt_nat.simps digit_char_def)
  moreover have "replicate k (CHR ''0'') = replicate (k - 1) (CHR ''0'') @ ''0''"
    using assms by (metis Suc_diff_1 replicate_Suc replicate_append_same)
  ultimately show ?thesis using True by (simp add: pad_zero_def)
next
  case False
  then have "fmt_nat 16 (a * 16 + d) = fmt_nat 16 a @ [digit_char d]"
    using assms by (subst fmt_nat.simps) simp
  then show ?thesis using assms by (simp add: pad_zero_def)
qed

lemma pad_fmt_parse:
  assumes "w \<noteq> []" "set w \<subseteq> set hex_class"
  shows "\<exists>n. parse_digits 16 0 w = Some n \<and> n < 16 ^ length w
           \<and> pad_zero (length w) (fmt_nat 16 n) = map hex_upper w"
  using assms
proof (induction w rule: rev_induct)
  case (snoc c w)
  obtain d where d: "d < 16" "digit_val c = Some d" using hex_class_digit snoc.prems by auto
  show ?case
  proof (cases "w = []")
    case True
    with d show ?thesis
      by (auto simp: fmt_nat.simps pad_zero_def hex_upper_def)
  next
    case False
    then obtain n where n: "parse_digits 16 0 w = Some n" "n < 16 ^ length w"
      "pad_zero (length w) (fmt_nat 16 n) = map hex_upper w"
      using snoc by auto
    have len: "length (fmt_nat 16 n) \<le> length w"
      using n(2) False fmt_nat_length [of 16 n "length w - 1"] by (cases w) auto
    have "parse_digits 16 0 (w @ [c]) = Some (n * 16 + d)"
      using n d by (simp add: parse_digits_append)
    moreover have "n * 16 + d < 16 ^ length (w @ [c])" using n(2) d by simp
    moreover have "pad_zero (length (w @ [c])) (fmt_nat 16 (n * 16 + d)) = map hex_upper (w @ [c])"
      using pad_zero_snoc [OF d(1) _ len] False n(3) d by (simp add: hex_upper_def)
    ultimately show ?thesis by blast
  qed
qed simp

lemma hex_no_sign:
  assumes "w \<noteq> []" "set w \<subseteq> set hex_class"
  shows "hd w \<noteq> CHR ''-''" "hd w \<noteq> CHR ''+''"
proof -
  from assms have "hd w \<in> set hex_class" by (cases w) auto
  then show "hd w \<noteq> CHR ''-''" "hd w \<noteq> CHR ''+''" by (auto simp: hex_class_def)
qed

lemma ParseInt_octet:
  assumes "length w = 8" "set w \<subseteq> set hex_class" "ParseInt w 16 32 = Some v"
  shows "0 \<le> v" "v < 2 ^ 31" "fmt_08X v = map hex_upper w"
proof -
  from assms(1) have "w \<noteq> []" by auto
  then obtain n where n: "parse_digits 16 0 w = Some n"
    "pad_zero 8 (fmt_nat 16 n) = map hex_upper w"
    using pad_fmt_parse [of w] assms by auto
  from assms(3) n(1) \<open>w \<noteq> []\<close> hex_no_sign [OF \<open>w \<noteq> []\<close> assms(2)]
  have v: "v = int n" "v < 2 ^ 31" by (auto simp: ParseInt_def Let_def split: if_splits)
  then show "0 \<le> v" "v < 2 ^ 31" by auto
  from v(1) n(2) show "fmt_08X v = map hex_upper w" by (simp add: fmt_08X_def)
qed

lemma wal_name_parts:
  assumes "wal_name n"
  shows "length (take 8 n) = 8" "length (take 8 (drop 8 n)) = 8" "length (take 8 (drop 16 n)) = 8"
    "set (take 8 n) \<subseteq> set hex_class" "set (take 8 (drop 8 n)) \<subseteq> set hex_class"
    "set (take 8 (drop 16 n)) \<subseteq> set hex_class"
    "n = take 8 n @ take 8 (drop 8 n) @ take 8 (drop 16 n)"
proof -
  from assms have n: "length n = 24" "set n \<subseteq> set hex_class" by (auto simp: wal_name_def)
  show "length (take 8 n) = 8" "length (take 8 (drop 8 n)) = 8" "length (take 8 (drop 16 n)) = 8"
    using n by auto
  show "set (take 8 n) \<subseteq> set hex_class" "set (take 8 (drop 8 n)) \<subseteq> set hex_class"
    "set (take 8 (drop 16 n)) \<subseteq> set hex_class"
    using n by (auto dest!: in_set_takeD in_set_dropD)
  have "take 8 (drop 16 n) = drop 16 n" using n by simp
  then show "n = take 8 n @ take 8 (drop 8 n) @ take 8 (drop 16 n)"
    by (metis append_take_drop_id drop_drop numeral_Bit0 numeral_One add_numeral_left)
qed

text \<open>
  C37. Parsing the name of a segment gives the segment back, for every segment whose three
  numbers are not negative.
\<close>

theorem SegmentFromName_Name:
  assumes "seg_ok s"
  shows "SegmentFromName (Segment_Name s) = Ret s"
proof -
  have f: "0 \<le> sint (Tli s)" "0 \<le> sint (Log s)" "0 \<le> sint (Seg s)"
    using assms by (auto simp: seg_ok_def)
  have t: "take 8 (Segment_Name s) = fmt_08X (sint (Tli s))"
    "take 8 (drop 8 (Segment_Name s)) = fmt_08X (sint (Log s))"
    "take 8 (drop 16 (Segment_Name s)) = fmt_08X (sint (Seg s))"
    using f by (simp_all add: Segment_Name_def fmt_field(1))
  show ?thesis
    using f assms by (simp add: SegmentFromName_alt wal_name_Name t fmt_field(3))
qed

theorem SegmentFromName_Name_witness:
  "SegmentFromName (Segment_Name \<lparr>Tli = 3, Log = 7, Seg = 255\<rparr>) = Ret \<lparr>Tli = 3, Log = 7, Seg = 255\<rparr>"
  by (rule SegmentFromName_Name) (simp add: seg_ok_def)

lemma SegmentFromName_result:
  assumes "SegmentFromName n = Ret s"
  shows "IsWALFile n \<and> seg_ok s \<and> Segment_Name s = map hex_upper (path_base n)"
proof -
  let ?b = "path_base n"
  from assms obtain t l g where w: "wal_name ?b"
    and p: "ParseInt (take 8 ?b) 16 32 = Some t" "ParseInt (take 8 (drop 8 ?b)) 16 32 = Some l"
      "ParseInt (take 8 (drop 16 ?b)) 16 32 = Some g"
    and s: "s = \<lparr>Tli = word_of_int t, Log = word_of_int l, Seg = word_of_int g\<rparr>"
    by (auto simp: SegmentFromName_alt Let_def split: if_splits option.splits)
  note parts = wal_name_parts [OF w]
  note pt = ParseInt_octet [OF parts(1,4) p(1)] ParseInt_octet [OF parts(2,5) p(2)]
    ParseInt_octet [OF parts(3,6) p(3)]
  have "Segment_Name s = map hex_upper (take 8 ?b @ take 8 (drop 8 ?b) @ take 8 (drop 16 ?b))"
    using pt by (simp add: Segment_Name_def s sint_word_of_int32)
  then have "Segment_Name s = map hex_upper ?b" using parts(7) by simp
  moreover have "seg_ok s" using pt by (simp add: seg_ok_def s sint_word_of_int32)
  ultimately show ?thesis using w by (simp add: IsWALFile_iff)
qed

text \<open>
  C38. Whatever \<open>SegmentFromName\<close> accepts (a name or a path) ends in a regular WAL file name,
  and the segment prints as that name in upper case: no two WAL files are confused.
\<close>

theorem SegmentFromName_sound:
  assumes "SegmentFromName n = Ret s"
  shows "IsWALFile n \<and> seg_ok s \<and> Segment_Name s = map hex_upper (path_base n)"
  by (rule SegmentFromName_result [OF assms])

theorem SegmentFromName_sound_witness:
  "IsWALFile ''pg_wal/0000000100000000000000ab'' \<and>
   Segment_Name \<lparr>Tli = 1, Log = 0, Seg = 171\<rparr> = ''0000000100000000000000AB''"
proof -
  have p: "SegmentFromName ''pg_wal/0000000100000000000000ab'' = Ret \<lparr>Tli = 1, Log = 0, Seg = 171\<rparr>"
    by code_simp
  have "map hex_upper (path_base ''pg_wal/0000000100000000000000ab'') = ''0000000100000000000000AB''"
    by code_simp
  with SegmentFromName_sound [OF p] show ?thesis by simp
qed

section \<open>The order of segments and the segments that follow one\<close>

text \<open>Segments are ordered by timeline, then log, then segment number.\<close>

instantiation Segment_ext :: (linorder) linorder
begin

definition less_eq_Segment_ext :: "'a Segment_scheme \<Rightarrow> 'a Segment_scheme \<Rightarrow> bool" where
  "less_eq_Segment_ext x y \<longleftrightarrow>
     (sint (Tli x), sint (Log x), sint (Seg x), Segment.more x)
       \<le> (sint (Tli y), sint (Log y), sint (Seg y), Segment.more y)"

definition less_Segment_ext :: "'a Segment_scheme \<Rightarrow> 'a Segment_scheme \<Rightarrow> bool" where
  "less_Segment_ext x y \<longleftrightarrow>
     (sint (Tli x), sint (Log x), sint (Seg x), Segment.more x)
       < (sint (Tli y), sint (Log y), sint (Seg y), Segment.more y)"

instance
proof
  fix x y z :: "'a Segment_scheme"
  show "(x < y) = (x \<le> y \<and> \<not> y \<le> x)"
    by (simp only: less_eq_Segment_ext_def less_Segment_ext_def less_le_not_le)
  show "x \<le> x" by (simp only: less_eq_Segment_ext_def order_refl)
  show "x \<le> y \<Longrightarrow> y \<le> z \<Longrightarrow> x \<le> z"
    unfolding less_eq_Segment_ext_def by (rule order_trans)
  show "x \<le> y \<Longrightarrow> y \<le> x \<Longrightarrow> x = y"
    unfolding less_eq_Segment_ext_def
    by (drule (1) antisym) (auto intro!: Segment.equality dest: signed_word_eqI)
  show "x \<le> y \<or> y \<le> x" unfolding less_eq_Segment_ext_def by (rule linear)
qed

end

text \<open>
  The position of a segment on its timeline, when a log file holds \<open>per + 1\<close> segments.
\<close>

definition seg_index :: "int \<Rightarrow> Segment \<Rightarrow> int" where
  "seg_index per s = sint (Log s) * (per + 1) + sint (Seg s)"

definition seg_in_range :: "int \<Rightarrow> Segment \<Rightarrow> bool" where
  "seg_in_range per s \<longleftrightarrow> seg_ok s \<and> sint (Seg s) \<le> per"

lemma sint32_Suc: "sint (x :: 32 word) < 2 ^ 31 - 1 \<Longrightarrow> sint (x + 1) = sint x + 1"
proof -
  assume x: "sint x < 2 ^ 31 - 1"
  have "x + 1 = word_of_int (sint x + 1)" by simp
  then have "sint (x + 1) = sint (word_of_int (sint x + 1) :: 32 word)" by simp
  also have "\<dots> = sint x + 1" using x sint32_bounds [of x] by (intro sint_word_of_int32) auto
  finally show ?thesis .
qed

lemma next_segment_step:
  assumes s: "seg_in_range (sint per) s" and per: "sint per < 2 ^ 31 - 1"
    and room: "seg_index (sint per) s + 1 < 2 ^ 31 * (sint per + 1)"
  shows "seg_in_range (sint per) (next_segment per False s)"
    "seg_index (sint per) (next_segment per False s) = seg_index (sint per) s + 1"
    "Tli (next_segment per False s) = Tli s"
proof -
  have f: "0 \<le> sint (Tli s)" "0 \<le> sint (Log s)" "0 \<le> sint (Seg s)" "sint (Seg s) \<le> sint per"
    using s by (auto simp: seg_in_range_def seg_ok_def)
  have sg: "sint (Seg s + 1) = sint (Seg s) + 1" using f per by (intro sint32_Suc) simp
  show "Tli (next_segment per False s) = Tli s" by (simp add: next_segment_def Let_def)
  show "seg_in_range (sint per) (next_segment per False s)"
    "seg_index (sint per) (next_segment per False s) = seg_index (sint per) s + 1"
  proof -
    have "seg_in_range (sint per) (next_segment per False s) \<and>
      seg_index (sint per) (next_segment per False s) = seg_index (sint per) s + 1"
    proof (cases "sint (Seg s) = sint per")
      case True
      have "sint (Log s) < 2 ^ 31 - 1"
      proof (rule ccontr)
        assume "\<not> ?thesis"
        then have "(2 ^ 31 - 1) * (sint per + 1) \<le> sint (Log s) * (sint per + 1)"
          using f by (intro mult_right_mono) auto
        with room True show False by (simp add: seg_index_def algebra_simps)
      qed
      then have "sint (Log s + 1) = sint (Log s) + 1" by (rule sint32_Suc)
      with True f sg show ?thesis
        by (simp add: next_segment_def seg_in_range_def seg_ok_def seg_index_def Let_def algebra_simps)
    next
      case False
      with f sg show ?thesis
        by (simp add: next_segment_def seg_in_range_def seg_ok_def seg_index_def Let_def)
    qed
    then show "seg_in_range (sint per) (next_segment per False s)"
      "seg_index (sint per) (next_segment per False s) = seg_index (sint per) s + 1" by auto
  qed
qed

lemma length_next_segments_loop [simp]: "length (next_segments_loop n per skip s) = n"
  by (induction n arbitrary: s) auto

lemma next_segments_loop_nth:
  assumes "seg_in_range (sint per) s" "sint per < 2 ^ 31 - 1"
    "seg_index (sint per) s + int n \<le> 2 ^ 31 * (sint per + 1)" "k < n"
  shows "seg_in_range (sint per) (next_segments_loop n per False s ! k)
    \<and> seg_index (sint per) (next_segments_loop n per False s ! k) = seg_index (sint per) s + int k
    \<and> Tli (next_segments_loop n per False s ! k) = Tli s"
  using assms
proof (induction n arbitrary: s k)
  case (Suc n)
  show ?case
  proof (cases k)
    case 0
    then show ?thesis using Suc.prems by (simp add: seg_in_range_def seg_ok_def seg_index_def)
  next
    case k: (Suc j)
    let ?t = "next_segment per False s"
    have step: "seg_in_range (sint per) ?t" "seg_index (sint per) ?t = seg_index (sint per) s + 1"
      "Tli ?t = Tli s"
      using Suc.prems k by (auto intro!: next_segment_step)
    have "seg_index (sint per) ?t + int n \<le> 2 ^ 31 * (sint per + 1)"
      using step(2) Suc.prems(3) by simp
    from Suc.IH [OF step(1) Suc.prems(2) this, of j] Suc.prems(4) k step show ?thesis by simp
  qed
qed simp

text \<open>Positions order the segments of one timeline.\<close>

lemma seg_index_less:
  assumes "seg_in_range per s" "seg_in_range per t" "Tli s = Tli t"
    "seg_index per s < seg_index per t"
  shows "s < t"
proof -
  have f: "0 \<le> sint (Seg s)" "sint (Seg s) \<le> per" "0 \<le> sint (Seg t)" "sint (Seg t) \<le> per"
    using assms by (auto simp: seg_in_range_def seg_ok_def)
  have "sint (Log s) < sint (Log t) \<or> sint (Log s) = sint (Log t) \<and> sint (Seg s) < sint (Seg t)"
  proof (rule ccontr)
    assume "\<not> ?thesis"
    then consider "sint (Log t) < sint (Log s)" |
      "sint (Log s) = sint (Log t)" "sint (Seg t) \<le> sint (Seg s)" by linarith
    then show False
    proof cases
      case 1
      then have "(sint (Log t) + 1) * (per + 1) \<le> sint (Log s) * (per + 1)"
        using f by (intro mult_right_mono) auto
      with assms(4) f show False by (simp add: seg_index_def algebra_simps)
    next
      case 2
      with assms(4) show False by (simp add: seg_index_def)
    qed
  qed
  with assms(3) show ?thesis by (auto simp: less_Segment_ext_def)
qed

lemma WalSegmentsPerFile_default: "WalSegmentsPerFile DefaultWALSegmentSize = Ret 255"
  by code_simp

lemma NextSegments_default:
  "0 \<le> n \<Longrightarrow> NextSegments s n None None = Ret (next_segments_loop (nat n) 255 False s)"
  by (simp add: NextSegments_def WalSegmentsPerFile_default)

text \<open>The names of the segments listed, also of one the counters wrapped on.\<close>

lemma fmt_08X_class: "set (fmt_08X i) \<subseteq> insert (CHR ''-'') (set hex_class)"
proof -
  have n: "set (fmt_nat 16 n) \<subseteq> set hex_class" for n
    using fmt_nat_digits [of 16 _ n] digit_char_hex by fastforce
  have z: "set (pad_zero k xs) \<subseteq> insert (CHR ''0'') (set xs)" for k xs by (auto simp: pad_zero_def)
  have "CHR ''0'' \<in> set hex_class" by (simp add: hex_class_def)
  with z n have "set (pad_zero k (fmt_nat 16 m)) \<subseteq> set hex_class" for k m by blast
  then show ?thesis by (auto simp: fmt_08X_def split: if_splits)
qed

lemma Segment_Name_class: "set (Segment_Name s) \<subseteq> insert (CHR ''-'') (set hex_class)" "Segment_Name s \<noteq> []"
proof -
  show "set (Segment_Name s) \<subseteq> insert (CHR ''-'') (set hex_class)"
    using fmt_08X_class by (simp add: Segment_Name_def)
  show "Segment_Name s \<noteq> []"
    using fmt_nat_not_Nil by (simp add: Segment_Name_def fmt_08X_def pad_zero_def)
qed

lemma Segment_Name_no_char: "c \<noteq> CHR ''-'' \<Longrightarrow> c \<notin> set hex_class \<Longrightarrow> c \<notin> set (Segment_Name s)"
  using Segment_Name_class(1) by blast

lemma plain_Segment_Name [simp]: "plain_name (Segment_Name s)"
proof -
  have "slash \<notin> set (Segment_Name s)" "CHR ''.'' \<notin> set (Segment_Name s)"
    by (rule Segment_Name_no_char; simp add: hex_class_def)+
  with Segment_Name_class(2) show ?thesis by (auto simp: plain_name_def)
qed

lemma TrimSuffix_Segment_Name [simp]:
  "TrimSuffix (Segment_Name s) ''.partial'' = Segment_Name s"
  "TrimSuffix (Segment_Name s @ ''.partial'') ''.partial'' = Segment_Name s"
proof -
  have "CHR ''.'' \<notin> set (Segment_Name s)" by (rule Segment_Name_no_char; simp add: hex_class_def)
  then have "\<not> HasSuffix (Segment_Name s) ''.partial''" by (auto simp: HasSuffix_iff suffix_def)
  then show "TrimSuffix (Segment_Name s) ''.partial'' = Segment_Name s" by (simp add: TrimSuffix_def)
  show "TrimSuffix (Segment_Name s @ ''.partial'') ''.partial'' = Segment_Name s"
    by (simp add: TrimSuffix_def HasSuffix_iff suffix_def)
qed

text \<open>
  C39. With the default segment size, \<open>NextSegments\<close> returns exactly the requested number of
  segments; they stay on the timeline, occupy consecutive positions starting with the segment
  itself (256 segments per log file) and are strictly increasing. The bound says that the
  positions asked for exist, i.e. that the log number does not pass the largest 32-bit value.
\<close>

theorem NextSegments_consecutive:
  assumes "seg_in_range 255 s" "0 \<le> n" "seg_index 255 s + n \<le> 2 ^ 31 * 256"
  shows "\<exists>ts. NextSegments s n None None = Ret ts \<and> length ts = nat n
    \<and> (\<forall>k < nat n. seg_in_range 255 (ts ! k) \<and> Tli (ts ! k) = Tli s
          \<and> seg_index 255 (ts ! k) = seg_index 255 s + int k)
    \<and> sorted_wrt (<) ts"
proof -
  let ?ts = "next_segments_loop (nat n) 255 False s"
  have nth: "seg_in_range 255 (?ts ! k) \<and> seg_index 255 (?ts ! k) = seg_index 255 s + int k
      \<and> Tli (?ts ! k) = Tli s" if "k < nat n" for k
    using next_segments_loop_nth [of 255 s "nat n" k] assms that by simp
  have "sorted_wrt (<) ?ts"
    unfolding sorted_wrt_iff_nth_less
    using nth by (auto intro!: seg_index_less [where per = 255])
  with nth assms(2) show ?thesis by (auto simp: NextSegments_default)
qed

theorem NextSegments_consecutive_witness:
  "\<exists>ts. NextSegments \<lparr>Tli = 1, Log = 0, Seg = 254\<rparr> 3 None None = Ret ts \<and> length ts = 3
    \<and> sorted_wrt (<) ts"
proof -
  have "seg_in_range 255 \<lparr>Tli = 1, Log = 0, Seg = 254\<rparr>"
    "seg_index 255 \<lparr>Tli = 1, Log = 0, Seg = 254\<rparr> + 3 \<le> 2 ^ 31 * 256"
    by (simp_all add: seg_in_range_def seg_ok_def seg_index_def)
  from NextSegments_consecutive [OF this(1) _ this(2)] show ?thesis by auto
qed

text \<open>
  Past that bound the signed 32-bit log number wraps to a negative value, and the name
  printed is no segment name: it carries a minus sign.
\<close>

lemma NextSegments_wraps:
  "NextSegments \<lparr>Tli = 1, Log = 0x7FFFFFFF, Seg = 255\<rparr> 2 None None =
     Ret [\<lparr>Tli = 1, Log = 0x7FFFFFFF, Seg = 255\<rparr>, \<lparr>Tli = 1, Log = 0x80000000, Seg = 0\<rparr>]"
  by (simp add: NextSegments_default next_segment_def numeral_2_eq_2)

lemma Segment_Name_wrapped:
  "length (Segment_Name \<lparr>Tli = 1, Log = 0x80000000, Seg = 0\<rparr>) = 25"
  "Segment_Name \<lparr>Tli = 1, Log = 0x80000000, Seg = 0\<rparr> ! 8 = CHR ''-''"
proof -
  have one: "fmt_08X 1 = replicate 7 (CHR ''0'') @ ''1''"
    by (simp add: fmt_08X_def fmt_nat.simps pad_zero_def digit_char_def)
  have "length (fmt_08X (- 2147483648)) = 9" "fmt_08X (- 2147483648) ! 0 = CHR ''-''"
    by (simp_all add: fmt_08X_def fmt_nat.simps pad_zero_def)
  then show "length (Segment_Name \<lparr>Tli = 1, Log = 0x80000000, Seg = 0\<rparr>) = 25"
    "Segment_Name \<lparr>Tli = 1, Log = 0x80000000, Seg = 0\<rparr> ! 8 = CHR ''-''"
    by (simp_all add: Segment_Name_def one length_fmt_08X nth_append)
qed

end
