(* ===== verification/Credentials.thy ===== *)
theory Credentials
  imports Host Command_Builder Go_Regexp
begin

text \<open>
  The environment of pgBackRest processes (\<^verbatim>\<open>internal/pgbackrest/credentials/credentials.go\<close>,
  \<^verbatim>\<open>internal/pgbackrest/utils/env_utils.go\<close>): the plugin's own environment without the
  service variables, then the entries of each repository, read from the secrets it refers to. The
  lemmas give the environment in closed form, show that no name is set twice and none would be
  taken for a service variable, and which secrets are read.
\<close>

section \<open>The plugin's own environment\<close>

definition upper_digit_class :: "char list" where
  "upper_digit_class = ''ABCDEFGHIJKLMNOPQRSTUVWXYZ0123456789''"

definition PgbackrestServiceEnvVarPattern :: regex where
  "PgbackrestServiceEnvVarPattern =
     Seq (lit ''PGBACKREST_'')
      (Seq (Star (Seq (Seq (Class upper_digit_class) (Star (Class upper_digit_class))) (lit ''_'')))
           (Alt (lit ''PORT'') (lit ''SERVICE'')))"

fun stripServicesFromEnv :: "string list \<Rightarrow> string list" where
  "stripServicesFromEnv [] = []"
| "stripServicesFromEnv (variable # env) =
     (if \<not> match_prefix PgbackrestServiceEnvVarPattern variable
      then variable # stripServicesFromEnv env else stripServicesFromEnv env)"

definition SanitizedEnviron :: "'r host \<Rightarrow> string list" where
  "SanitizedEnviron h = stripServicesFromEnv (h_environ h)"

section \<open>Credentials\<close>

definition ScratchDataDirectory :: string where "ScratchDataDirectory = ''/controller''"
definition CertificatesDir :: string where "CertificatesDir = ScratchDataDirectory @ ''/certificates/''"
definition PgBackRestEndpointCACertificateFileName :: string where
  "PgBackRestEndpointCACertificateFileName = ''pgbackrest-ca.crt''"

definition PgBackRestBackupEndpointCACertificateLocation :: "nat \<Rightarrow> string" where
  "PgBackRestBackupEndpointCACertificateLocation repoIndex =
     CertificatesDir @ ''backup-repo'' @ fmt_nat 10 (repoIndex + 1) @ ''-'' @ PgBackRestEndpointCACertificateFileName"

definition PgBackRestRestoreEndpointCACertificateLocation :: "nat \<Rightarrow> string" where
  "PgBackRestRestoreEndpointCACertificateLocation repoIndex =
     CertificatesDir @ ''restore-repo'' @ fmt_nat 10 (repoIndex + 1) @ ''-'' @ PgBackRestEndpointCACertificateFileName"

definition extractValueFromSecret :: "'r host \<Rightarrow> SecretKeySelector \<Rightarrow> string \<Rightarrow> string go" where
  "extractValueFromSecret h ref namespace =
     bindG (wrapG (''while getting secret '' @ sks_Name ref) (h_get_secret h namespace (sks_Name ref)))
       (\<lambda>secret_data.
          case map_of secret_data (sks_Key ref) of
            None \<Rightarrow> Fail (ErrMsg (''missing key '' @ sks_Key ref @ '', inside secret '' @ sks_Name ref))
          | Some v \<Rightarrow> Ret v)"

definition writeEndpointCACertificate ::
  "'r host \<Rightarrow> SecretKeySelector \<Rightarrow> string \<Rightarrow> string \<Rightarrow> fs \<Rightarrow> unit go \<times> fs" where
  "writeEndpointCACertificate h ref namespace filePath fs =
     bindW (wrapG (''reading endpoint CA secret '' @ namespace @ ''/'' @ sks_Name ref)
              (extractValueFromSecret h ref namespace), fs)
       (\<lambda>caData fs.
          bindW (wrapW (''creating certificates directory '' @ CertificatesDir)
                   (os_MkdirAll CertificatesDir fs))
            (\<lambda>_ fs. wrapW (''writing endpoint CA certificate to '' @ filePath)
                       (os_WriteFile filePath caData fs)))"

definition envSetAWSCredentials ::
  "'r host \<Rightarrow> string \<Rightarrow> S3Credentials option \<Rightarrow> nat \<Rightarrow> string list \<Rightarrow> string list go" where
  "envSetAWSCredentials h namespace s3credentials repoIndex env =
     (case s3credentials of
        None \<Rightarrow> Fail (ErrMsg ''missing S3 credentials'')
      | Some c \<Rightarrow>
          bindG
            (if s3_KeyType c = KeyTypeShared then
               (case s3_AccessKeyIDReference c of
                  None \<Rightarrow> Fail (ErrMsg ''missing access key ID'')
                | Some idRef \<Rightarrow>
                    bindG (extractValueFromSecret h idRef namespace) (\<lambda>accessKeyID.
                      case s3_SecretAccessKeyReference c of
                        None \<Rightarrow> Fail (ErrMsg ''missing secret access key'')
                      | Some keyRef \<Rightarrow>
                          bindG (extractValueFromSecret h keyRef namespace) (\<lambda>secretAccessKey.
                            Ret (env @ [FormatRepoEnv repoIndex ''S3_KEY'' accessKeyID,
                                        FormatRepoEnv repoIndex ''S3_KEY_SECRET'' secretAccessKey]))))
             else Ret env)
            (\<lambda>env. Ret (env @ [FormatRepoEnv repoIndex ''S3_KEY_TYPE'' (s3_KeyType c),
                                FormatRepoEnv repoIndex ''S3_REGION'' (s3_Region c)])))"

definition envSetEncryptionCredentials ::
  "'r host \<Rightarrow> EncryptionType \<Rightarrow> SecretKeySelector option \<Rightarrow> string \<Rightarrow> nat \<Rightarrow> string list \<Rightarrow> string list go" where
  "envSetEncryptionCredentials h encryptionType encryptionKeyRef namespace repoIndex env =
     (case encryptionKeyRef of
        None \<Rightarrow> Fail (ErrMsg ''missing encryption key'')
      | Some ref \<Rightarrow>
          bindG (extractValueFromSecret h ref namespace) (\<lambda>encryptionKey.
            Ret (env @ [FormatRepoEnv repoIndex ''CIPHER_TYPE'' encryptionType,
                        FormatRepoEnv repoIndex ''CIPHER_PASS'' encryptionKey])))"

fun cloud_credentials_loop ::
  "'r host \<Rightarrow> string \<Rightarrow> nat \<Rightarrow> PgbackrestRepository list \<Rightarrow> string list \<Rightarrow> string list go" where
  "cloud_credentials_loop h namespace index [] env = Ret env"
| "cloud_credentials_loop h namespace index (repo # repos) env =
     bindG (if cred_AWS (repo_Credentials repo) \<noteq> None
            then envSetAWSCredentials h namespace (cred_AWS (repo_Credentials repo)) index env else Ret env)
       (\<lambda>env.
     bindG (if length (repo_Encryption repo) \<noteq> 0
            then envSetEncryptionCredentials h (repo_Encryption repo) (repo_EncryptionKey repo) namespace index env
            else Ret env)
       (cloud_credentials_loop h namespace (index + 1) repos))"

definition envSetCloudCredentials ::
  "'r host \<Rightarrow> string \<Rightarrow> PgbackrestConfiguration \<Rightarrow> string list \<Rightarrow> string list go" where
  "envSetCloudCredentials h namespace configuration env =
     cloud_credentials_loop h namespace 0 (cfg_Repositories configuration) env"

text \<open>The loop over the endpoint CA certificates, the same for backup and restore but for the
  file and the message.\<close>

fun ca_loop ::
  "'r host \<Rightarrow> string \<Rightarrow> (nat \<Rightarrow> string) \<Rightarrow> string \<Rightarrow> nat \<Rightarrow> PgbackrestRepository list \<Rightarrow>
   string list \<Rightarrow> fs \<Rightarrow> string list go \<times> fs" where
  "ca_loop h message location namespace index [] env fs = (Ret env, fs)"
| "ca_loop h message location namespace index (repo # repos) env fs =
     (case repo_EndpointCA repo of
        None \<Rightarrow> ca_loop h message location namespace (index + 1) repos env fs
      | Some ref \<Rightarrow>
          bindW (wrapW message (writeEndpointCACertificate h ref namespace (location index) fs))
            (\<lambda>_. ca_loop h message location namespace (index + 1) repos
                   (env @ [FormatRepoEnv index ''STORAGE_CA_FILE'' (location index)])))"

definition EnvSetBackupCloudCredentials ::
  "'r host \<Rightarrow> string \<Rightarrow> PgbackrestConfiguration \<Rightarrow> string list \<Rightarrow> fs \<Rightarrow> string list go \<times> fs" where
  "EnvSetBackupCloudCredentials h namespace configuration env fs =
     bindW (ca_loop h ''writing backup endpoint CA certificate''
              PgBackRestBackupEndpointCACertificateLocation namespace 0 (cfg_Repositories configuration) env fs)
       (\<lambda>env fs. (envSetCloudCredentials h namespace configuration env, fs))"

definition EnvSetRestoreCloudCredentials ::
  "'r host \<Rightarrow> string \<Rightarrow> PgbackrestConfiguration \<Rightarrow> string list \<Rightarrow> fs \<Rightarrow> string list go \<times> fs" where
  "EnvSetRestoreCloudCredentials h namespace configuration env fs =
     bindW (ca_loop h ''writing restore endpoint CA certificate''
              PgBackRestRestoreEndpointCACertificateLocation namespace 0 (cfg_Repositories configuration) env fs)
       (\<lambda>env fs. (envSetCloudCredentials h namespace configuration env, fs))"

section \<open>The entries in closed form\<close>

definition credential_names :: "string list" where
  "credential_names = [''STORAGE_CA_FILE'', ''S3_KEY'', ''S3_KEY_SECRET'', ''S3_KEY_TYPE'', ''S3_REGION'',
     ''CIPHER_TYPE'', ''CIPHER_PASS'']"

text \<open>The name of an entry, the part before the first equals sign.\<close>

definition env_name :: "string \<Rightarrow> string" where
  "env_name e = takeWhile (\<lambda>c. c \<noteq> CHR ''='') e"

type_synonym setting = "(nat \<times> string) \<times> string"

definition entry :: "setting \<Rightarrow> string" where
  "entry s = FormatRepoEnv (fst (fst s)) (snd (fst s)) (snd s)"

text \<open>Settings of the repositories from an index on, with names of a given list, none twice.\<close>

definition settings_from :: "string list \<Rightarrow> nat \<Rightarrow> setting list \<Rightarrow> bool" where
  "settings_from names index kvs \<longleftrightarrow>
     distinct (map fst kvs) \<and> (\<forall>s \<in> set kvs. index \<le> fst (fst s) \<and> snd (fst s) \<in> set names)"

lemma settings_from_Nil [simp]: "settings_from names i []"
  by (simp add: settings_from_def)

lemma settings_from_Cons_block:
  assumes "settings_from names (Suc i) kvs" "distinct ns" "set ns \<subseteq> set names" "length vs = length ns"
  shows "settings_from names i (zip (map (Pair i) ns) vs @ kvs)"
proof -
  have k: "map fst (zip (map (Pair i) ns) vs) = map (Pair i) ns" using assms(4) by simp
  have "distinct (map (Pair i) ns)" using assms(2) by (simp add: distinct_map inj_on_def)
  moreover have "set (map (Pair i) ns) \<inter> fst ` set kvs = {}"
    using assms(1) by (fastforce simp: settings_from_def)
  moreover have "i \<le> fst (fst s) \<and> snd (fst s) \<in> set names" if "s \<in> set (zip (map (Pair i) ns) vs)" for s
  proof -
    have "fst s \<in> set (map fst (zip (map (Pair i) ns) vs))" using that by simp
    then show ?thesis using k assms(3) by auto
  qed
  ultimately show ?thesis using assms(1) k
    by (fastforce simp: settings_from_def simp del: map_fst_zip)
qed

lemma aws_entries:
  assumes "envSetAWSCredentials h ns (Some c) i env = Ret env'"
  shows "\<exists>names vs. env' = env @ map entry (zip (map (Pair i) names) vs) \<and> length vs = length names
    \<and> (names = [''S3_KEY_TYPE'', ''S3_REGION'']
       \<or> names = [''S3_KEY'', ''S3_KEY_SECRET'', ''S3_KEY_TYPE'', ''S3_REGION''])"
proof (cases "s3_KeyType c = KeyTypeShared")
  case True
  with assms obtain a b where "env' = env @ map entry (zip (map (Pair i)
      [''S3_KEY'', ''S3_KEY_SECRET'', ''S3_KEY_TYPE'', ''S3_REGION'']) [a, b, s3_KeyType c, s3_Region c])"
    by (auto simp: envSetAWSCredentials_def go_iffs entry_def split: option.splits)
  then show ?thesis
    by (intro exI [of _ "[''S3_KEY'', ''S3_KEY_SECRET'', ''S3_KEY_TYPE'', ''S3_REGION'']"]
        exI [of _ "[a, b, s3_KeyType c, s3_Region c]"]) simp
next
  case False
  with assms have "env' = env @ map entry (zip (map (Pair i)
      [''S3_KEY_TYPE'', ''S3_REGION'']) [s3_KeyType c, s3_Region c])"
    by (auto simp: envSetAWSCredentials_def go_iffs entry_def)
  then show ?thesis
    by (intro exI [of _ "[''S3_KEY_TYPE'', ''S3_REGION'']"] exI [of _ "[s3_KeyType c, s3_Region c]"]) simp
qed

lemma cipher_entries:
  assumes "envSetEncryptionCredentials h t ref ns i env = Ret env'"
  shows "\<exists>vs. env' = env @ map entry (zip (map (Pair i) [''CIPHER_TYPE'', ''CIPHER_PASS'']) vs) \<and> length vs = 2"
proof -
  from assms obtain v where "env' = env @ map entry (zip (map (Pair i) [''CIPHER_TYPE'', ''CIPHER_PASS'']) [t, v])"
    by (auto simp: envSetEncryptionCredentials_def go_iffs entry_def split: option.splits)
  then show ?thesis by (intro exI [of _ "[t, v]"]) simp
qed

lemma cloud_loop_entries:
  assumes "cloud_credentials_loop h ns i repos env = Ret env'"
  shows "\<exists>kvs. env' = env @ map entry kvs \<and> settings_from (tl credential_names) i kvs"
  using assms
proof (induction repos arbitrary: i env)
  case (Cons repo repos)
  from Cons.prems obtain e1 e2 where
    e1: "(if cred_AWS (repo_Credentials repo) \<noteq> None
          then envSetAWSCredentials h ns (cred_AWS (repo_Credentials repo)) i env else Ret env) = Ret e1"
    and e2: "(if length (repo_Encryption repo) \<noteq> 0
          then envSetEncryptionCredentials h (repo_Encryption repo) (repo_EncryptionKey repo) ns i e1
          else Ret e1) = Ret e2"
    and rest: "cloud_credentials_loop h ns (Suc i) repos e2 = Ret env'"
    by (auto simp: go_iffs simp del: split_paired_Ex split_paired_All)
  from Cons.IH [OF rest] obtain kvs where
    kvs: "env' = e2 @ map entry kvs" "settings_from (tl credential_names) (Suc i) kvs" by blast
  obtain n1 v1 where b1: "e1 = env @ map entry (zip (map (Pair i) n1) v1)" "length v1 = length n1"
    "n1 = [] \<or> n1 = [''S3_KEY_TYPE'', ''S3_REGION'']
       \<or> n1 = [''S3_KEY'', ''S3_KEY_SECRET'', ''S3_KEY_TYPE'', ''S3_REGION'']"
  proof (cases "cred_AWS (repo_Credentials repo)")
    case None
    then show ?thesis using e1 that [of "[]" "[]"] by simp
  next
    case (Some c)
    then show ?thesis using e1 aws_entries [of h ns c i env e1] that by auto
  qed
  obtain n2 v2 where b2: "e2 = e1 @ map entry (zip (map (Pair i) n2) v2)" "length v2 = length n2"
    "n2 = [] \<or> n2 = [''CIPHER_TYPE'', ''CIPHER_PASS'']"
  proof (cases "length (repo_Encryption repo) \<noteq> 0")
    case False
    then show ?thesis using e2 that [of "[]" "[]"] by simp
  next
    case True
    then show ?thesis
      using e2 cipher_entries [of h "repo_Encryption repo" "repo_EncryptionKey repo" ns i e1 e2]
        that [of "[''CIPHER_TYPE'', ''CIPHER_PASS'']"] by auto
  qed
  have "distinct (n1 @ n2)" "set (n1 @ n2) \<subseteq> set (tl credential_names)"
    using b1(3) b2(3) by (auto simp: credential_names_def)
  from settings_from_Cons_block [OF kvs(2) this, of "v1 @ v2"] b1 b2 kvs(1)
  show ?case by (intro exI [of _ "zip (map (Pair i) (n1 @ n2)) (v1 @ v2) @ kvs"]) (simp add: zip_append)
qed (intro exI [of _ "[]"], simp)

lemma ca_loop_entries:
  assumes "ca_loop h m loc ns i repos env fs = (Ret env', fs')"
  shows "\<exists>kvs. env' = env @ map entry kvs \<and> settings_from [''STORAGE_CA_FILE''] i kvs"
  using assms
proof (induction repos arbitrary: i env fs)
  case (Cons repo repos)
  show ?case
  proof (cases "repo_EndpointCA repo")
    case None
    with Cons.prems Cons.IH [of "Suc i" env fs] obtain kvs where
      "env' = env @ map entry kvs" "settings_from [''STORAGE_CA_FILE''] (Suc i) kvs" by auto
    then show ?thesis by (intro exI [of _ kvs]) (auto simp: settings_from_def)
  next
    case (Some ref)
    let ?s = "((i, ''STORAGE_CA_FILE''), loc i)"
    from Some Cons.prems obtain fs1 where
      "ca_loop h m loc ns (Suc i) repos (env @ [FormatRepoEnv i ''STORAGE_CA_FILE'' (loc i)]) fs1 = (Ret env', fs')"
      by (auto simp: go_iffs)
    moreover have "FormatRepoEnv i ''STORAGE_CA_FILE'' (loc i) = entry ?s" by (simp add: entry_def)
    ultimately obtain kvs where
      kvs: "env' = env @ map entry (?s # kvs)" "settings_from [''STORAGE_CA_FILE''] (Suc i) kvs"
      using Cons.IH by fastforce
    then have "settings_from [''STORAGE_CA_FILE''] i (?s # kvs)" by (fastforce simp: settings_from_def)
    with kvs show ?thesis by blast
  qed
qed (intro exI [of _ "[]"], simp)

lemma settings_from_append:
  assumes "settings_from ns1 i a" "settings_from ns2 i b" "set ns1 \<inter> set ns2 = {}"
  shows "settings_from (ns1 @ ns2) i (a @ b)"
  using assms by (fastforce simp: settings_from_def)

lemma env_with_ca_entries:
  assumes "bindW (ca_loop h m loc ns 0 repos env fs) (\<lambda>env fs. (cloud_credentials_loop h ns 0 repos env, fs))
      = (Ret env', fs')"
  shows "\<exists>kvs. env' = env @ map entry kvs \<and> settings_from credential_names 0 kvs"
proof -
  from assms obtain e1 fs1 where "ca_loop h m loc ns 0 repos env fs = (Ret e1, fs1)"
    "cloud_credentials_loop h ns 0 repos e1 = Ret env'" by (auto simp: go_iffs)
  with ca_loop_entries cloud_loop_entries obtain a b where
    ab: "e1 = env @ map entry a" "settings_from [''STORAGE_CA_FILE''] 0 a"
      "env' = e1 @ map entry b" "settings_from (tl credential_names) 0 b" by metis
  have "settings_from ([''STORAGE_CA_FILE''] @ tl credential_names) 0 (a @ b)"
    by (rule settings_from_append [OF ab(2,4)]) (simp add: credential_names_def)
  then show ?thesis using ab(1,3) by (intro exI [of _ "a @ b"]) (simp add: credential_names_def)
qed

lemma backup_env_entries:
  "EnvSetBackupCloudCredentials h ns cfg env fs = (Ret env', fs') \<Longrightarrow>
     \<exists>kvs. env' = env @ map entry kvs \<and> settings_from credential_names 0 kvs"
  unfolding EnvSetBackupCloudCredentials_def envSetCloudCredentials_def by (rule env_with_ca_entries)

lemma restore_env_entries:
  "EnvSetRestoreCloudCredentials h ns cfg env fs = (Ret env', fs') \<Longrightarrow>
     \<exists>kvs. env' = env @ map entry kvs \<and> settings_from credential_names 0 kvs"
  unfolding EnvSetRestoreCloudCredentials_def envSetCloudCredentials_def by (rule env_with_ca_entries)

lemma takeWhile_no_eq: "CHR ''='' \<notin> set a \<Longrightarrow> takeWhile (\<lambda>c. c \<noteq> CHR ''='') (a @ CHR ''='' # v) = a"
  by (induction a) auto

lemma fmt_nat_no_eq: "CHR ''='' \<notin> set (fmt_nat 10 n)"
  by (simp add: fmt_nat_no_char digit_val_def)

lemma env_name_entry:
  assumes "CHR ''='' \<notin> set (snd (fst s))"
  shows "env_name (entry s) = ''PGBACKREST_REPO'' @ fmt_nat 10 (fst (fst s) + 1) @ ''_'' @ snd (fst s)"
proof -
  let ?n = "''PGBACKREST_REPO'' @ fmt_nat 10 (fst (fst s) + 1) @ ''_'' @ snd (fst s)"
  have "CHR ''='' \<notin> set ?n" using assms fmt_nat_no_eq by simp
  moreover have "entry s = ?n @ CHR ''='' # snd s" by (simp add: entry_def FormatRepoEnv_def)
  ultimately show ?thesis unfolding env_name_def by (metis takeWhile_no_eq)
qed

lemma credential_names_no_eq: "n \<in> set credential_names \<Longrightarrow> CHR ''='' \<notin> set n"
  by (auto simp: credential_names_def)

lemma settings_names_distinct:
  assumes "settings_from credential_names i kvs"
  shows "distinct (map env_name (map entry kvs))"
proof -
  let ?f = "\<lambda>(i, n). ''PGBACKREST_REPO'' @ fmt_nat 10 (i + 1) @ ''_'' @ n"
  have "env_name (entry s) = ?f (fst s)" if "s \<in> set kvs" for s
    using that assms credential_names_no_eq [of "snd (fst s)"] env_name_entry [of s]
    by (auto simp: settings_from_def split_beta)
  then have "map env_name (map entry kvs) = map ?f (map fst kvs)" by simp
  moreover have "inj_on ?f (set (map fst kvs))"
    by (intro inj_onI) (auto simp: append_sep_inject_env)
  moreover have "distinct (map fst kvs)" using assms by (simp add: settings_from_def)
  ultimately show ?thesis by (metis distinct_map)
qed

section \<open>Service variables\<close>

definition token :: "string \<Rightarrow> bool" where
  "token a \<longleftrightarrow> a \<noteq> [] \<and> set a \<subseteq> set upper_digit_class"

text \<open>What the pattern asks of a name after the prefix: tokens, each with an underscore, then
  one of the two words.\<close>

inductive service_tail :: "string \<Rightarrow> bool" where
  tail_word: "prefix ''PORT'' s \<or> prefix ''SERVICE'' s \<Longrightarrow> service_tail s"
| tail_token: "token a \<Longrightarrow> service_tail s \<Longrightarrow> service_tail (a @ CHR ''_'' # s)"

inductive_cases service_tailE: "service_tail s"

lemma star_Class: "star_words {[c] |c. c \<in> C} = {w. set w \<subseteq> C}"
proof (intro set_eqI iffI)
  fix w assume "w \<in> star_words {[c] |c. c \<in> C}"
  then show "w \<in> {w. set w \<subseteq> C}" by induction auto
next
  fix w assume "w \<in> {w. set w \<subseteq> C}"
  then show "w \<in> star_words {[c] |c. c \<in> C}"
  proof (induction w)
    case (Cons c w)
    then have "[c] @ w \<in> star_words {[c] |c. c \<in> C}" by (intro star_app) auto
    then show ?case by simp
  qed (simp add: star_Nil)
qed

lemma lang_token_chars:
  "lang (Seq (Class upper_digit_class) (Star (Class upper_digit_class))) = {a. token a}"
proof (intro set_eqI iffI)
  fix w assume "w \<in> lang (Seq (Class upper_digit_class) (Star (Class upper_digit_class)))"
  then show "w \<in> {a. token a}" by (auto simp: star_Class token_def)
next
  fix w assume "w \<in> {a. token a}"
  then obtain c v where "w = [c] @ v" "c \<in> set upper_digit_class" "set v \<subseteq> set upper_digit_class"
    by (cases w) (auto simp: token_def)
  then show "w \<in> lang (Seq (Class upper_digit_class) (Star (Class upper_digit_class)))"
    unfolding lang.simps star_Class by blast
qed

lemma lang_token:
  "lang (Seq (Seq (Class upper_digit_class) (Star (Class upper_digit_class))) (lit ''_''))
     = {a @ ''_'' |a. token a}"
  unfolding lang.simps(3) [of _ "lit ''_''"] lang_lit lang_token_chars by auto

lemma service_pattern_iff:
  "match_prefix PgbackrestServiceEnvVarPattern e \<longleftrightarrow> (\<exists>s. e = ''PGBACKREST_'' @ s \<and> service_tail s)"
proof -
  let ?S = "star_words {a @ ''_'' |a. token a}"
  have alt: "lang (Alt (lit ''PORT'') (lit ''SERVICE'')) = {''PORT'', ''SERVICE''}"
    by (simp only: lang.simps(4) lang_lit) auto
  have inner: "lang (Seq (Star (Seq (Seq (Class upper_digit_class) (Star (Class upper_digit_class))) (lit ''_'')))
      (Alt (lit ''PORT'') (lit ''SERVICE''))) = {u @ x |u x. u \<in> ?S \<and> x \<in> {''PORT'', ''SERVICE''}}"
    by (subst lang.simps(3), subst lang.simps(5), subst lang_token, subst alt) (rule refl)
  have l: "lang PgbackrestServiceEnvVarPattern =
      {p @ y |p y. p \<in> {''PGBACKREST_''} \<and> y \<in> {u @ x |u x. u \<in> ?S \<and> x \<in> {''PORT'', ''SERVICE''}}}"
    unfolding PgbackrestServiceEnvVarPattern_def by (subst lang.simps(3), subst inner, subst lang_lit) (rule refl)
  have fwd: "service_tail (u @ x @ v)" if "u \<in> ?S" "x = ''PORT'' \<or> x = ''SERVICE''" for u x v
    using that
  proof (induction rule: star_words.induct)
    case star_Nil
    then show ?case by (intro tail_word) auto
  next
    case (star_app a b)
    then obtain t where "a = t @ ''_''" "token t" by auto
    with star_app tail_token [of t "b @ x @ v"] show ?case by simp
  qed
  have bwd: "\<exists>u x v. s = u @ x @ v \<and> u \<in> ?S \<and> (x = ''PORT'' \<or> x = ''SERVICE'')" if "service_tail s" for s
    using that
  proof induction
    case (tail_word s)
    then obtain x v where "s = [] @ x @ v" "x = ''PORT'' \<or> x = ''SERVICE''" by (auto elim!: prefixE)
    with star_Nil show ?case by blast
  next
    case (tail_token a s)
    then obtain u x v where "s = u @ x @ v" "u \<in> ?S" "x = ''PORT'' \<or> x = ''SERVICE''" by blast
    moreover have "(a @ ''_'') @ u \<in> ?S" using tail_token(1) calculation(2) by (intro star_app) auto
    ultimately show ?case by (intro exI [of _ "(a @ ''_'') @ u"] exI [of _ x] exI [of _ v]) simp
  qed
  show ?thesis
  proof
    assume "match_prefix PgbackrestServiceEnvVarPattern e"
    then obtain q v where q: "e = q @ v" "q \<in> lang PgbackrestServiceEnvVarPattern"
      unfolding match_prefix_iff prefix_def by blast
    from q(2) obtain u x where "q = ''PGBACKREST_'' @ u @ x" "u \<in> ?S" "x = ''PORT'' \<or> x = ''SERVICE''"
      unfolding l by blast
    with fwd [of u x v] q(1) show "\<exists>s. e = ''PGBACKREST_'' @ s \<and> service_tail s"
      by (simp only: append_assoc) blast
  next
    assume "\<exists>s. e = ''PGBACKREST_'' @ s \<and> service_tail s"
    then obtain s where "e = ''PGBACKREST_'' @ s" "service_tail s" by blast
    moreover from bwd [OF this(2)] obtain u x v where
      "s = u @ x @ v" "u \<in> ?S" "x = ''PORT'' \<or> x = ''SERVICE''" by blast
    ultimately have "prefix (''PGBACKREST_'' @ u @ x) e \<and> ''PGBACKREST_'' @ u @ x \<in> lang PgbackrestServiceEnvVarPattern"
      unfolding l by auto
    then show "match_prefix PgbackrestServiceEnvVarPattern e" unfolding match_prefix_iff by blast
  qed
qed

lemma token_no_sep: "token a \<Longrightarrow> CHR ''_'' \<notin> set a \<and> CHR ''='' \<notin> set a"
  by (auto simp: token_def upper_digit_class_def)

lemma prefix_before_sep:
  "c \<notin> set p \<Longrightarrow> prefix p (s @ c # y) \<longleftrightarrow> prefix p s"
  by (induction p arbitrary: s) (case_tac s; auto)+

definition plain_token :: "string \<Rightarrow> bool" where
  "plain_token a \<longleftrightarrow> token a \<and> \<not> prefix ''PORT'' a \<and> \<not> prefix ''SERVICE'' a"

lemma service_tail_after_token:
  assumes "plain_token a" "c = CHR ''_'' \<or> c = CHR ''=''" "service_tail (a @ c # y)"
  shows "c = CHR ''_'' \<and> service_tail y"
  using assms(3)
proof cases
  case tail_word
  moreover have "c \<notin> set ''PORT''" "c \<notin> set ''SERVICE''" using assms(2) by auto
  ultimately have "prefix ''PORT'' a \<or> prefix ''SERVICE'' a"
    using prefix_before_sep [of c "''PORT''" a y] prefix_before_sep [of c "''SERVICE''" a y] by blast
  then show ?thesis using assms(1) by (simp only: plain_token_def) blast
next
  case (tail_token b s)
  let ?P = "\<lambda>x. x \<noteq> CHR ''_'' \<and> x \<noteq> CHR ''=''"
  have tw: "takeWhile ?P (t @ d # z) = t" if "token t" "d = CHR ''_'' \<or> d = CHR ''=''" for t d z
    using that token_no_sep [OF that(1)] by (subst takeWhile_append2) auto
  have "takeWhile ?P (a @ c # y) = takeWhile ?P (b @ CHR ''_'' # s)" using tail_token(1) by (simp only:)
  then have "a = b" using tw [of a c y] tw [of b "CHR ''_''" s] tail_token(2) assms(1,2)
    by (simp add: plain_token_def)
  then show ?thesis using tail_token by simp
qed

lemma no_service_tail:
  assumes "toks \<noteq> []" "\<forall>a \<in> set toks. plain_token a"
  shows "\<not> service_tail (join_on (CHR ''_'') toks @ CHR ''='' # v)"
  using assms
proof (induction toks)
  case (Cons a toks)
  show ?case
  proof (cases toks)
    case Nil
    then show ?thesis using service_tail_after_token [of a "CHR ''=''" v] Cons.prems by auto
  next
    case (Cons b bs)
    then show ?thesis
      using service_tail_after_token [of a "CHR ''_''" "join_on (CHR ''_'') toks @ CHR ''='' # v"]
        Cons.IH Cons.prems by auto
  qed
qed simp

lemma credential_tokens:
  "n \<in> set credential_names \<Longrightarrow> \<forall>a \<in> set (split_on (CHR ''_'') n). plain_token a"
  by (auto simp: credential_names_def plain_token_def token_def upper_digit_class_def)

lemma repo_token: "plain_token (''REPO'' @ fmt_nat 10 n)"
proof -
  have "set (fmt_nat 10 n) \<subseteq> set upper_digit_class"
  proof
    fix c assume "c \<in> set (fmt_nat 10 n)"
    then obtain d where d: "d < 10" "c = digit_char d" using fmt_nat_digits [of 10 c n] by force
    then have "d \<in> {0,1,2,3,4,5,6,7,8,9}" by auto
    then show "c \<in> set upper_digit_class" using d by (auto simp: digit_char_def upper_digit_class_def)
  qed
  then show ?thesis by (auto simp: plain_token_def token_def upper_digit_class_def)
qed

lemma entry_not_service:
  assumes "snd (fst s) \<in> set credential_names"
  shows "\<not> match_prefix PgbackrestServiceEnvVarPattern (entry s)"
proof
  let ?toks = "(''REPO'' @ fmt_nat 10 (fst (fst s) + 1)) # split_on (CHR ''_'') (snd (fst s))"
  assume "match_prefix PgbackrestServiceEnvVarPattern (entry s)"
  moreover have "entry s = ''PGBACKREST_'' @ join_on (CHR ''_'') ?toks @ CHR ''='' # snd s"
  proof -
    obtain y ys where y: "split_on (CHR ''_'') (snd (fst s)) = y # ys"
      by (cases "split_on (CHR ''_'') (snd (fst s))") auto
    with join_on_split_on [of "CHR ''_''" "snd (fst s)"] show ?thesis
      by (simp add: entry_def FormatRepoEnv_def)
  qed
  ultimately have "service_tail (join_on (CHR ''_'') ?toks @ CHR ''='' # snd s)"
    by (auto simp: service_pattern_iff)
  moreover have "\<forall>a \<in> set ?toks. plain_token a" using credential_tokens [OF assms] repo_token by simp
  ultimately show False using no_service_tail by blast
qed

section \<open>Properties\<close>

lemma strip_filter:
  "stripServicesFromEnv env = filter (\<lambda>e. \<not> match_prefix PgbackrestServiceEnvVarPattern e) env"
  by (induction env) auto

lemma service_tail_iff:
  "service_tail s \<longleftrightarrow> (\<exists>toks w v. (\<forall>a \<in> set toks. token a) \<and> w \<in> {''PORT'', ''SERVICE''}
     \<and> s = concat (map (\<lambda>a. a @ ''_'') toks) @ w @ v)"
proof
  assume "service_tail s"
  then show "\<exists>toks w v. (\<forall>a \<in> set toks. token a) \<and> w \<in> {''PORT'', ''SERVICE''}
     \<and> s = concat (map (\<lambda>a. a @ ''_'') toks) @ w @ v"
  proof induction
    case (tail_word s)
    then obtain w v where "w \<in> {''PORT'', ''SERVICE''}" "s = w @ v" by (auto elim!: prefixE)
    then show ?case by (intro exI [of _ "[]"] exI [of _ w] exI [of _ v]) simp
  next
    case (tail_token a s)
    then obtain toks w v where "\<forall>a \<in> set toks. token a" "w \<in> {''PORT'', ''SERVICE''}"
      "s = concat (map (\<lambda>a. a @ ''_'') toks) @ w @ v" by blast
    with tail_token(1) show ?case by (intro exI [of _ "a # toks"] exI [of _ w] exI [of _ v]) simp
  qed
next
  have "service_tail (concat (map (\<lambda>a. a @ ''_'') toks) @ w @ v)"
    if "\<forall>a \<in> set toks. token a" "w \<in> {''PORT'', ''SERVICE''}" for toks w v
    using that
  proof (induction toks)
    case Nil
    then show ?case by (intro tail_word) auto
  next
    case (Cons a toks)
    then show ?case using tail_token [of a "concat (map (\<lambda>a. a @ ''_'') toks) @ w @ v"] by simp
  qed
  then show "\<exists>toks w v. (\<forall>a \<in> set toks. token a) \<and> w \<in> {''PORT'', ''SERVICE''}
     \<and> s = concat (map (\<lambda>a. a @ ''_'') toks) @ w @ v \<Longrightarrow> service_tail s" by blast
qed

text \<open>
  C36. The environment passed on is the plugin's own one, in its order, less exactly the variables
  whose name after \<open>PGBACKREST_\<close> is a sequence of upper case tokens, each followed by an
  underscore, and then begins with \<open>PORT\<close> or \<open>SERVICE\<close>.
\<close>

theorem SanitizedEnviron_drops_services:
  "SanitizedEnviron h = filter (\<lambda>e. \<not> (\<exists>toks w v. list_all token toks \<and> w \<in> {''PORT'', ''SERVICE''}
     \<and> e = ''PGBACKREST_'' @ concat (map (\<lambda>a. a @ ''_'') toks) @ w @ v)) (h_environ h)"
proof -
  have "match_prefix PgbackrestServiceEnvVarPattern e \<longleftrightarrow>
      (\<exists>toks w v. list_all token toks \<and> w \<in> {''PORT'', ''SERVICE''}
        \<and> e = ''PGBACKREST_'' @ concat (map (\<lambda>a. a @ ''_'') toks) @ w @ v)" for e
    unfolding service_pattern_iff service_tail_iff list_all_iff by blast
  then show ?thesis by (simp only: SanitizedEnviron_def strip_filter)
qed

lemma settings_survive:
  "settings_from credential_names i kvs \<Longrightarrow> stripServicesFromEnv (map entry kvs) = map entry kvs"
  using entry_not_service by (auto simp: strip_filter settings_from_def filter_id_conv)


definition aws_example :: S3Credentials where
  "aws_example = \<lparr>s3_KeyType = KeyTypeShared,
     s3_AccessKeyIDReference = Some \<lparr>sks_Name = ''s3'', sks_Key = ''id''\<rparr>,
     s3_SecretAccessKeyReference = Some \<lparr>sks_Name = ''s3'', sks_Key = ''key''\<rparr>,
     s3_Region = ''eu'', s3_URIStyle = ''''\<rparr>"

definition secret_repo_example :: PgbackrestRepository where
  "secret_repo_example = repo_example\<lparr>repo_Credentials := \<lparr>cred_AWS = Some aws_example\<rparr>,
     repo_Encryption := EncryptionTypeAES256, repo_EncryptionKey := Some \<lparr>sks_Name = ''enc'', sks_Key = ''pass''\<rparr>,
     repo_EndpointCA := Some \<lparr>sks_Name = ''ca'', sks_Key = ''crt''\<rparr>\<rparr>"

definition secret_cfg_example :: PgbackrestConfiguration where
  "secret_cfg_example = cfg_example\<lparr>cfg_Repositories := [secret_repo_example]\<rparr>"

definition secrets_example :: "string \<Rightarrow> string \<Rightarrow> (string \<times> string) list go" where
  "secrets_example ns name =
     (if name = ''s3'' then Ret [(''id'', ''I''), (''key'', ''K'')]
      else if name = ''enc'' then Ret [(''pass'', ''P'')]
      else if name = ''ca'' then Ret [(''crt'', ''C'')] else Fail (ErrApi NotFound))"

definition archive_example :: Archive where
  "archive_example = \<lparr>arch_Namespace = ''ns'', arch_Name = ''a'',
     arch_Spec = \<lparr>spec_Configuration = secret_cfg_example, spec_InstanceSidecarConfiguration =
       \<lparr>side_Env = [], side_Resources = '''', side_SecurityContext = None\<rparr>\<rparr>\<rparr>"

definition host_example :: "unit host" where
  "host_example = \<lparr>h_pgbackrest = (\<lambda>argv env fs r. (ProcOk '''', fs, r)),
     h_fileutils = posix_fileutils, h_environ = [''PGDATA=/pg''],
     h_get_secret = secrets_example, h_get_archive = (\<lambda>ns n. Ret archive_example),
     h_parse_json = (\<lambda>s. None)\<rparr>"

definition root_fs :: fs where
  "root_fs = \<lparr>fs_nodes = [(''/'', Dir), (''/controller'', Dir), (''/controller/certificates'', Dir)], fs_denied = []\<rparr>"

lemma env_example:
  "fst (EnvSetBackupCloudCredentials host_example ''ns'' secret_cfg_example [''X=1''] root_fs) =
     Ret [''X=1'', ''PGBACKREST_REPO1_STORAGE_CA_FILE=/controller/certificates/backup-repo1-pgbackrest-ca.crt'',
       ''PGBACKREST_REPO1_S3_KEY=I'', ''PGBACKREST_REPO1_S3_KEY_SECRET=K'',
       ''PGBACKREST_REPO1_S3_KEY_TYPE=shared'', ''PGBACKREST_REPO1_S3_REGION=eu'',
       ''PGBACKREST_REPO1_CIPHER_TYPE=aes-256-cbc'', ''PGBACKREST_REPO1_CIPHER_PASS=P'']"
  by code_simp


section \<open>The files the credentials are written to\<close>

definition certificate_paths :: "(nat \<Rightarrow> string) \<Rightarrow> string set" where
  "certificate_paths location = path_clean ` (set (path_prefixes CertificatesDir) \<union> range location)"

lemma snd_wrapW: "snd (wrapW m x) = snd x"
  by (cases x) (simp add: wrapW_def)

lemma same_but_writeEndpointCACertificate:
  "same_but (certificate_paths location) fs (snd (writeEndpointCACertificate h ref ns (location i) fs))"
  unfolding writeEndpointCACertificate_def
  by (intro same_but_bindW) (auto simp: snd_wrapW certificate_paths_def intro!: same_but_MkdirAll same_but_WriteFile)

lemma same_but_ca_loop:
  "same_but (certificate_paths location) fs (snd (ca_loop h m location ns i repos env fs))"
proof (induction repos arbitrary: i env fs)
  case (Cons repo repos)
  then show ?case
    by (cases "repo_EndpointCA repo")
      (auto intro!: same_but_bindW simp: snd_wrapW same_but_writeEndpointCACertificate)
qed simp

lemma same_but_credentials:
  "same_but (certificate_paths PgBackRestBackupEndpointCACertificateLocation) fs
     (snd (EnvSetBackupCloudCredentials h ns cfg env fs))"
  "same_but (certificate_paths PgBackRestRestoreEndpointCACertificateLocation) fs
     (snd (EnvSetRestoreCloudCredentials h ns cfg env fs))"
  unfolding EnvSetBackupCloudCredentials_def EnvSetRestoreCloudCredentials_def
  by (auto intro!: same_but_bindW same_but_ca_loop)

end
