(* ===== verification/Wal_Service.thy ===== *)
theory Wal_Service
  imports Wal_Restorer Wal_Segment Credentials Plugin_Config
begin

text \<open>
  The WAL service of the plugin (\<^verbatim>\<open>internal/cnpgi/common/wal.go\<close>): the handlers
  that archive and restore segments for PostgreSQL and report the archive's state. The instance's
  archiver and restorer share one spool directory.
\<close>

section \<open>Data\<close>

record WALServiceImplementation =
  svc_InstanceName :: string
  svc_SpoolDirectory :: string
  svc_PGDataPath :: string
  svc_PGWALPath :: string

datatype wal_capability = RPC_TYPE_ARCHIVE_WAL | RPC_TYPE_RESTORE_WAL | RPC_TYPE_STATUS

definition newWALNotFoundError :: error where
  "newWALNotFoundError = ErrStatus CodeNotFound ''WAL file not found''"

definition ErrEndOfWALStreamReached :: error where
  "ErrEndOfWALStreamReached = ErrStatus CodeOutOfRange ''end of WAL reached''"

definition ErrMissingPermissions :: error where
  "ErrMissingPermissions = ErrStatus CodeFailedPrecondition
     ''backup credentials don't yet have access permissions. Will retry reconciliation loop''"

definition GetCapabilities :: "wal_capability list" where
  "GetCapabilities = [RPC_TYPE_ARCHIVE_WAL, RPC_TYPE_RESTORE_WAL, RPC_TYPE_STATUS]"

section \<open>Archive\<close>

fun last_error :: "error option \<Rightarrow> WALArchiverResult list \<Rightarrow> error option" where
  "last_error lastErr [] = lastErr"
| "last_error lastErr (r # rs) =
     last_error (case res_Err r of None \<Rightarrow> lastErr | Some e \<Rightarrow> Some e) rs"

definition max_parallel :: "PgbackrestConfiguration \<Rightarrow> int" where
  "max_parallel cfg =
     (case cfg_Wal cfg of None \<Rightarrow> 1 | Some wal \<Rightarrow> if wal_MaxParallel wal > 1 then wal_MaxParallel wal else 1)"

definition archive_batch ::
  "'r host \<Rightarrow> nat list \<Rightarrow> WALArchiver \<Rightarrow> PgbackrestConfiguration \<Rightarrow> string \<Rightarrow> string \<Rightarrow>
   'r world \<Rightarrow> unit go \<times> 'r world" where
  "archive_batch h sched arch cfg stanza sourceFileName w =
     bindW (PgbackrestWalArchiveOptions cfg stanza, w) (\<lambda>options w.
     bindW (GatherWALFilesToArchive h sourceFileName (max_parallel cfg) (w_fs w), w) (\<lambda>walList w.
     bindW (ArchiveList h sched arch walList options w) (\<lambda>result w.
       ((case last_error None result of None \<Rightarrow> Ret () | Some e \<Rightarrow> Fail e), w))))"

text \<open>The destination check, with the stanza created when it is missing and the policy says so; a
  failure to create it is only logged.\<close>

definition check_destination ::
  "'r host \<Rightarrow> WALServiceImplementation \<Rightarrow> PgbackrestConfiguration \<Rightarrow> string \<Rightarrow> string list \<Rightarrow>
   'r world \<Rightarrow> unit go \<times> 'r world" where
  "check_destination h svc cfg stanza env w =
     (case CheckWalArchiveDestination h cfg stanza env w of
        (Fail err, w) \<Rightarrow>
          if errors_is err ErrStanzaMissing then
            if ShouldCreateStanzaOnArchive cfg then
              (case CreatePgbackrestStanza h (NewBackupCommand cfg None (svc_PGDataPath svc)) stanza env w of
                 (Panic m, w) \<Rightarrow> (Panic m, w)
               | (_, w) \<Rightarrow> (Ret (), w))
            else (Ret (), w)
          else (Fail err, w)
      | r \<Rightarrow> r)"

definition Service_Archive ::
  "'r host \<Rightarrow> cnpg \<Rightarrow> nat list \<Rightarrow> WALServiceImplementation \<Rightarrow> string \<Rightarrow> string \<Rightarrow>
   'r world \<Rightarrow> unit go \<times> 'r world" where
  "Service_Archive h cn sched svc clusterDefinition sourceFileName w =
     bindW (NewFromClusterJSON cn clusterDefinition, w) (\<lambda>configuration w.
     bindW (case GetArchiveObjectKey configuration of (ns, n) \<Rightarrow> h_get_archive h ns n, w) (\<lambda>archive w.
     let cfg = archive_cfg archive in
     case on_files (EnvSetBackupCloudCredentials h (arch_Namespace archive) cfg (SanitizedEnviron h)) w of
       (Panic m, w) \<Rightarrow> (Panic m, w)
     | (Fail err, w) \<Rightarrow> (Fail (if is_forbidden err then ErrMissingPermissions else err), w)
     | (Ret envArchive, w) \<Rightarrow>
         bindW (on_files (Archiver_New h envArchive (svc_SpoolDirectory svc) (svc_PGDataPath svc)
                  (path_join [svc_PGDataPath svc, CheckEmptyWalArchiveFile])) w) (\<lambda>arch w.
         bindW (on_files (DeleteFromSpool h arch sourceFileName) w) (\<lambda>wasInSpool w.
           if wasInSpool then (Ret (), w)
           else
             bindW (check_destination h svc cfg (pc_Stanza configuration) envArchive w) (\<lambda>_ w.
               archive_batch h sched arch cfg (pc_Stanza configuration) sourceFileName w)))))"

section \<open>Restore\<close>

definition isStreamingAvailable :: "cnpg \<Rightarrow> Cluster option \<Rightarrow> string \<Rightarrow> bool go" where
  "isStreamingAvailable cn cluster podName =
     (case cluster of
        None \<Rightarrow> Ret False
      | Some cluster \<Rightarrow>
          if cl_CurrentPrimary cluster = '''' then Ret False
          else if cl_CurrentPrimary cluster \<noteq> podName then Ret True
          else if cn_IsReplica cn cluster then
            (case cl_ReplicaCluster cluster of
               None \<Rightarrow> Panic ''nil pointer dereference''
             | Some rc \<Rightarrow>
                 (case cn_ExternalCluster cn cluster (rc_Source rc) of
                    None \<Rightarrow> Ret False
                  | Some externalCluster \<Rightarrow> Ret (ec_ConnectionParameters externalCluster \<noteq> None)))
          else Ret False)"

definition gatherWALFilesToRestore :: "string \<Rightarrow> int \<Rightarrow> bool \<Rightarrow> string list go" where
  "gatherWALFilesToRestore walName par controlledPromotion =
     (case SegmentFromName walName of
        Ret segment \<Rightarrow>
          bindG (NextSegments segment par None None) (\<lambda>segmentList.
            let walList = map Segment_Name segmentList in
            if controlledPromotion \<and> (int (length segmentList) < par \<or> par = 1)
            then if walList = [] then Panic ''index out of range''
                 else Ret (walList @ [last walList @ ''.partial''])
            else Ret walList)
      | Fail _ \<Rightarrow> Ret [walName]
      | Panic m \<Rightarrow> Panic m)"

definition checkEndOfWALStreamFlag :: "'r host \<Rightarrow> WALRestorer \<Rightarrow> fs \<Rightarrow> unit go \<times> fs" where
  "checkEndOfWALStreamFlag h walRestorer fs =
     bindW (IsEndOfWALStream h walRestorer fs, fs) (\<lambda>contain fs.
       if contain
       then bindW (ResetEndOfWalStream walRestorer fs) (\<lambda>_ fs. (Fail ErrEndOfWALStreamReached, fs))
       else (Ret (), fs))"

fun isEndOfWALStream :: "Restore_Result list \<Rightarrow> bool" where
  "isEndOfWALStream [] = False"
| "isEndOfWALStream (result # results) =
     (if (case rr_Err result of None \<Rightarrow> False | Some e \<Rightarrow> errors_is e ErrWALNotFound) then True
      else isEndOfWALStream results)"

definition wal_files_list :: "PgbackrestConfiguration \<Rightarrow> string \<Rightarrow> bool \<Rightarrow> string list go" where
  "wal_files_list cfg walName controlledPromotion =
     (if IsWALFile walName
      then wrapG ''while generating the list of WAL files to restore''
             (gatherWALFilesToRestore walName (max_parallel cfg) controlledPromotion)
      else Ret [walName])"

definition finish_restore ::
  "'r host \<Rightarrow> bool \<Rightarrow> WALRestorer \<Rightarrow> Restore_Result list \<Rightarrow> 'r world \<Rightarrow> unit go \<times> 'r world" where
  "finish_restore h streaming walRestorer walStatus w =
     (case walStatus of
        [] \<Rightarrow> (Panic ''index out of range'', w)
      | first # _ \<Rightarrow>
          (case rr_Err first of
             Some e \<Rightarrow> (Fail (if errors_is e ErrWALNotFound then newWALNotFoundError else e), w)
           | None \<Rightarrow>
               if streaming \<and> isEndOfWALStream walStatus
               then on_files (SetEndOfWALStream h walRestorer) w
               else (Ret (), w)))"

definition restoreFromPgbackrestArchive ::
  "'r host \<Rightarrow> cnpg \<Rightarrow> nat list \<Rightarrow> WALServiceImplementation \<Rightarrow> Cluster option \<Rightarrow> Archive \<Rightarrow> string \<Rightarrow>
   string \<Rightarrow> string \<Rightarrow> bool \<Rightarrow> 'r world \<Rightarrow> unit go \<times> 'r world" where
  "restoreFromPgbackrestArchive h cn sched svc cluster archive stanza walName destinationPath controlledPromotion w =
     (let cfg = archive_cfg archive in
      bindW (wrapW ''while getting recover credentials''
              (on_files (EnvSetRestoreCloudCredentials h (arch_Namespace archive) cfg (SanitizedEnviron h)) w)) (\<lambda>env w.
      bindW (wrapG ''while getting pgbackrest archive-get options''
              (CloudWalRestoreOptions cfg stanza (svc_PGDataPath svc)), w) (\<lambda>options w.
      bindW (wrapW ''while creating the restorer''
              (on_files (NewWALRestorer h env (svc_SpoolDirectory svc)) w)) (\<lambda>walRestorer w.
      bindW (wrapW ''while restoring a file from the spool directory''
              (on_files (RestoreFromSpool h walRestorer walName destinationPath) w)) (\<lambda>wasInSpool w.
        if wasInSpool then (Ret (), w)
        else
          bindW (isStreamingAvailable cn cluster (svc_InstanceName svc), w) (\<lambda>streaming w.
          bindW (if streaming then on_files (checkEndOfWALStreamFlag h walRestorer) w else (Ret (), w)) (\<lambda>_ w.
          bindW (wal_files_list cfg walName controlledPromotion, w) (\<lambda>walFilesList w.
          let (walStatus, w) = RestoreList h sched walRestorer walFilesList destinationPath options w
          in finish_restore h streaming walRestorer walStatus w))))))))"

text \<open>The stanza, the key of the Archive object, and whether this is a controlled promotion.\<close>

definition restore_source ::
  "cnpg \<Rightarrow> WALServiceImplementation \<Rightarrow> PluginConfiguration \<Rightarrow> string \<times> NamespacedName \<times> bool" where
  "restore_source cn svc configuration =
     (let cluster = pc_Cluster configuration;
          promotionToken = (case cl_ReplicaCluster cluster of None \<Rightarrow> '''' | Some rc \<Rightarrow> rc_PromotionToken rc)
      in if promotionToken \<noteq> '''' \<and> cl_LastPromotionToken cluster \<noteq> promotionToken
         then (pc_ReplicaSourceStanza configuration, GetReplicaSourceArchiveObjectKey configuration, True)
         else if cn_IsReplica cn cluster \<and> cl_CurrentPrimary cluster = svc_InstanceName svc
         then (pc_ReplicaSourceStanza configuration, GetReplicaSourceArchiveObjectKey configuration, False)
         else if cl_CurrentPrimary cluster = ''''
         then (pc_RecoveryStanza configuration, GetRecoveryArchiveObjectKey configuration, False)
         else (pc_Stanza configuration, GetArchiveObjectKey configuration, False))"

definition Service_Restore ::
  "'r host \<Rightarrow> cnpg \<Rightarrow> nat list \<Rightarrow> WALServiceImplementation \<Rightarrow> string \<Rightarrow> string \<Rightarrow> string \<Rightarrow>
   'r world \<Rightarrow> unit go \<times> 'r world" where
  "Service_Restore h cn sched svc clusterDefinition walName destinationPath w =
     bindW (NewFromClusterJSON cn clusterDefinition, w) (\<lambda>configuration w.
       let (stanza, archiveKey, controlledPromotion) = restore_source cn svc configuration in
       bindW (h_get_archive h (fst archiveKey) (snd archiveKey), w) (\<lambda>archive w.
         restoreFromPgbackrestArchive h cn sched svc (Some (pc_Cluster configuration)) archive stanza walName
           destinationPath controlledPromotion w))"

section \<open>Status\<close>

definition Service_Status ::
  "'r host \<Rightarrow> cnpg \<Rightarrow> string \<Rightarrow> 'r world \<Rightarrow> (string \<times> string) go \<times> 'r world" where
  "Service_Status h cn clusterDefinition w =
     bindW (NewFromClusterJSON cn clusterDefinition, w) (\<lambda>configuration w.
     bindW (case GetArchiveObjectKey configuration of (ns, n) \<Rightarrow> h_get_archive h ns n, w) (\<lambda>archive w.
     case on_files (EnvSetBackupCloudCredentials h (arch_Namespace archive) (archive_cfg archive) (SanitizedEnviron h)) w of
       (Panic m, w) \<Rightarrow> (Panic m, w)
     | (Fail err, w) \<Rightarrow> (Fail (if is_forbidden err then ErrMissingPermissions else err), w)
     | (Ret env, w) \<Rightarrow>
         bindW (GetBackupList h (archive_cfg archive) (pc_Stanza configuration) env w) (\<lambda>backupCatalog w.
           ((case cat_Archive backupCatalog of
               [] \<Rightarrow> Fail (ErrMsg ''no WAL files found in the archive'')
             | first # _ \<Rightarrow> Ret (wa_Min first, wa_Max first)), w))))"

definition SetFirstRequired :: "unit go" where
  "SetFirstRequired = Panic ''implement me''"

section \<open>Which segments are prefetched\<close>

lemma hd_next_segments: "0 < n \<Longrightarrow> hd (next_segments_loop n per skip s) = s"
  by (cases n) auto

text \<open>
  C32. Prefetching: for a request that names a segment the list starts with the requested segment
  and goes on with the segments that follow it on the timeline, as many as the limit says; the
  partial segment is asked for, once and last, only in a controlled promotion with a limit of one.
\<close>

theorem gatherWALFilesToRestore_list:
  assumes "SegmentFromName walName = Ret seg" "1 \<le> par"
  shows "\<exists>segs names. NextSegments seg par None None = Ret segs \<and> length segs = nat par
    \<and> gatherWALFilesToRestore walName par promotion = Ret names
    \<and> hd names = map hex_upper (path_base walName)
    \<and> names = map Segment_Name segs @ (if promotion \<and> par = 1 then [hd names @ ''.partial''] else [])"
proof -
  let ?segs = "next_segments_loop (nat par) 255 False seg"
  have n: "NextSegments seg par None None = Ret ?segs" using assms(2) by (simp add: NextSegments_default)
  have ne: "?segs \<noteq> []" using assms(2) by (simp flip: length_greater_0_conv)
  then have hd: "hd (map Segment_Name ?segs) = map hex_upper (path_base walName)"
    using SegmentFromName_result [OF assms(1)] hd_next_segments [of "nat par" 255 False seg] assms(2)
    by (simp add: hd_map)
  have one: "par = 1 \<Longrightarrow> last (map Segment_Name ?segs) = hd (map Segment_Name ?segs)" by simp
  have "gatherWALFilesToRestore walName par promotion = Ret (map Segment_Name ?segs @
      (if promotion \<and> par = 1 then [hd (map Segment_Name ?segs) @ ''.partial''] else []))"
    using assms n ne one by (auto simp: gatherWALFilesToRestore_def Let_def)
  moreover have "hd (map Segment_Name ?segs @ xs) = hd (map Segment_Name ?segs)" for xs using ne by (simp add: hd_append)
  ultimately show ?thesis using n hd by (intro exI [of _ ?segs]) simp
qed

theorem gatherWALFilesToRestore_list_witness:
  "\<exists>names. gatherWALFilesToRestore ''0000000100000000000000AB'' 1 True = Ret names
     \<and> hd names = ''0000000100000000000000AB'' \<and> length names = 2"
proof -
  have p: "SegmentFromName ''0000000100000000000000AB'' = Ret \<lparr>Tli = 1, Log = 0, Seg = 171\<rparr>" by code_simp
  have u: "map hex_upper (path_base ''0000000100000000000000AB'') = ''0000000100000000000000AB''" by code_simp
  from gatherWALFilesToRestore_list [OF p, of 1 True] u show ?thesis by auto
qed

text \<open>With a limit above one no partial segment is ever asked for: \<open>NextSegments\<close> always
  returns as many segments as the limit.\<close>

lemma no_partial_with_prefetch:
  assumes "SegmentFromName walName = Ret seg" "1 < par"
  shows "gatherWALFilesToRestore walName par True = Ret (map Segment_Name (next_segments_loop (nat par) 255 False seg))"
  using assms by (simp add: gatherWALFilesToRestore_def Let_def NextSegments_default)

section \<open>What an acknowledged archive request means\<close>

lemma last_error_None:
  "last_error e rs = None \<longleftrightarrow> e = None \<and> (\<forall>r \<in> set rs. res_Err r = None)"
  by (induction rs arbitrary: e) (auto split: option.splits)

lemma Archiver_New_env:
  "Archiver_New h env d pgdata flag fs = (Ret arch, fs') \<Longrightarrow>
     pa_Env (wa_pgbackrestArchiver arch) = env \<and> wa_spool arch = \<lparr>spoolDirectory = d\<rparr>
     \<and> pa_Touch (wa_pgbackrestArchiver arch) = Touch (wa_spool arch)
     \<and> pa_EmptyWalArchivePath (wa_pgbackrestArchiver arch) = flag"
  by (cases "fu_EnsureDirectoryExists (h_fileutils h) d fs"; cases "fst (fu_EnsureDirectoryExists (h_fileutils h) d fs)")
    (auto simp: Archiver_New_def Spool_New_def)

lemma archive_batch_success:
  assumes "archive_batch h sched arch cfg stanza src w = (Ret (), w')"
  shows "\<exists>options batch. PgbackrestWalArchiveOptions cfg stanza = Ret options
    \<and> GatherWALFilesToArchive h src (max_parallel cfg) (w_fs w) = Ret batch
    \<and> (\<forall>n \<in> set batch. push_options options n \<in> set (w_ran w')
         \<and> pushed_ok h (pa_Env (wa_pgbackrestArchiver arch)) (push_options options n))"
proof -
  from assms obtain options batch results where r:
    "PgbackrestWalArchiveOptions cfg stanza = Ret options"
    "GatherWALFilesToArchive h src (max_parallel cfg) (w_fs w) = Ret batch"
    "ArchiveList h sched arch batch options w = (Ret results, w')" "last_error None results = None"
    by (auto simp: archive_batch_def bindW_Ret_iff split: option.splits)
  from ArchiveList_success [OF r(3)] r(4) have "\<forall>n \<in> set batch. push_options options n \<in> set (w_ran w')
         \<and> pushed_ok h (pa_Env (wa_pgbackrestArchiver arch)) (push_options options n)"
    by (simp add: last_error_None)
  with r(1,2) show ?thesis by blast
qed

text \<open>The environment a request works with.\<close>

definition archive_env ::
  "'r host \<Rightarrow> cnpg \<Rightarrow> string \<Rightarrow> 'r world \<Rightarrow> PluginConfiguration \<Rightarrow> Archive \<Rightarrow> string list \<Rightarrow> fs \<Rightarrow> bool" where
  "archive_env h cn def w configuration archive env fs' \<longleftrightarrow>
     NewFromClusterJSON cn def = Ret configuration
     \<and> h_get_archive h (fst (GetArchiveObjectKey configuration)) (snd (GetArchiveObjectKey configuration)) = Ret archive
     \<and> EnvSetBackupCloudCredentials h (arch_Namespace archive) (archive_cfg archive) (SanitizedEnviron h) (w_fs w)
         = (Ret env, fs')"

lemma Service_Archive_unfold:
  assumes "archive_env h cn def w configuration archive env fs'"
  shows "Service_Archive h cn sched svc def src w =
    bindW (on_files (Archiver_New h env (svc_SpoolDirectory svc) (svc_PGDataPath svc)
             (path_join [svc_PGDataPath svc, CheckEmptyWalArchiveFile])) (w\<lparr>w_fs := fs'\<rparr>)) (\<lambda>arch w.
    bindW (on_files (DeleteFromSpool h arch src) w) (\<lambda>wasInSpool w.
      if wasInSpool then (Ret (), w)
      else bindW (check_destination h svc (archive_cfg archive) (pc_Stanza configuration) env w) (\<lambda>_ w.
             archive_batch h sched arch (archive_cfg archive) (pc_Stanza configuration) src w)))"
  using assms by (simp add: Service_Archive_def archive_env_def split_beta Let_def)

lemma Service_Archive_Ret_env:
  assumes "Service_Archive h cn sched svc def src w = (Ret (), w')"
  shows "\<exists>configuration archive env fs'. archive_env h cn def w configuration archive env fs'"
proof -
  from assms obtain configuration archive where c: "NewFromClusterJSON cn def = Ret configuration"
    "h_get_archive h (fst (GetArchiveObjectKey configuration)) (snd (GetArchiveObjectKey configuration)) = Ret archive"
    by (auto simp: Service_Archive_def bindW_Ret_iff split_beta)
  let ?e = "EnvSetBackupCloudCredentials h (arch_Namespace archive) (archive_cfg archive) (SanitizedEnviron h) (w_fs w)"
  obtain r fs' where e: "?e = (r, fs')" by fastforce
  with assms c obtain env where "r = Ret env"
    by (cases r) (simp_all add: Service_Archive_def split_beta Let_def)
  with c e show ?thesis by (auto simp: archive_env_def)
qed


lemma Spool_New_existing:
  assumes "spool_ready (h_fileutils h) \<lparr>spoolDirectory = d\<rparr> fs"
  shows "Spool_New (h_fileutils h) d fs = (Ret \<lparr>spoolDirectory = d\<rparr>, fs)"
  using assms by (simp add: spool_ready_def fileutils_ok_def ensure_dir_ok_def Spool_New_def)

lemma Archiver_New_existing:
  assumes "spool_ready (h_fileutils h) \<lparr>spoolDirectory = d\<rparr> fs"
  shows "\<exists>arch. Archiver_New h env d pgdata flag fs = (Ret arch, fs) \<and> wa_spool arch = \<lparr>spoolDirectory = d\<rparr>"
  using Spool_New_existing [OF assms] by (simp add: Archiver_New_def)

text \<open>
  C17. An archive request for a segment the spool holds a marker for is acknowledged at once: no
  process is run, the remote side is untouched, and the marker is used up, every other one staying.
\<close>

theorem Service_Archive_spooled:
  assumes "archive_env h cn def w configuration archive env fs'"
    and "spool_ready (h_fileutils h) \<lparr>spoolDirectory = svc_SpoolDirectory svc\<rparr> fs'"
    and "spool_name src" "path_base src \<in> spool_elems \<lparr>spoolDirectory = svc_SpoolDirectory svc\<rparr> fs'"
  shows "\<exists>w'. Service_Archive h cn sched svc def src w = (Ret (), w')
    \<and> w_ran w' = w_ran w \<and> w_remote w' = w_remote w
    \<and> spool_elems \<lparr>spoolDirectory = svc_SpoolDirectory svc\<rparr> (w_fs w')
        = spool_elems \<lparr>spoolDirectory = svc_SpoolDirectory svc\<rparr> fs' - {path_base src}"
proof -
  let ?d = "svc_SpoolDirectory svc" and ?flag = "path_join [svc_PGDataPath svc, CheckEmptyWalArchiveFile]"
  from Archiver_New_existing [OF assms(2)] obtain arch where
    a: "Archiver_New h env ?d (svc_PGDataPath svc) ?flag fs' = (Ret arch, fs')" "wa_spool arch = \<lparr>spoolDirectory = ?d\<rparr>"
    by blast
  with DeleteFromSpool_result [of h arch fs' src] assms(2-4) obtain fs2 where
    d: "DeleteFromSpool h arch src fs' = (Ret True, fs2)"
      "spool_elems \<lparr>spoolDirectory = ?d\<rparr> fs2 = spool_elems \<lparr>spoolDirectory = ?d\<rparr> fs' - {path_base src}"
    by auto
  have "Service_Archive h cn sched svc def src w = (Ret (), w\<lparr>w_fs := fs2\<rparr>)"
    unfolding Service_Archive_unfold [OF assms(1)] by (simp add: on_files_def a(1) d(1))
  with d(2) show ?thesis by simp
qed

section \<open>The destination check and the stanza\<close>

text \<open>
  C26. When the repository has no stanza yet, an archive request goes on: it creates the stanza
  first, with one run of pgBackRest, exactly if the Archive asks for it, and whether or not that
  run succeeds. With a stanza nothing more is run.
\<close>

theorem check_destination_creates_stanza:
  assumes "GetBackupList h cfg stanza env w = (Ret catalog, w1)"
  shows "\<exists>w2. check_destination h svc cfg stanza env w = (Ret (), w2)
    \<and> w_ran w2 = w_ran w1 @
        (if StanzaMissing catalog \<and> ShouldCreateStanzaOnArchive cfg
         then [[''stanza-create''] @ repos_flags cloud_flags 0 (cfg_Repositories cfg)
               @ stanza_flags (svc_PGDataPath svc) True @ log_flags (Some cfg)
               @ [''--stanza'', stanza, ''--lock-path'', lock_path]]
         else [])"
proof -
  let ?b = "NewBackupCommand cfg None (svc_PGDataPath svc)"
  obtain argv where g: "getStanzaCreateOptions ?b stanza = Ret argv"
    and argv: "argv = [''stanza-create''] @ repos_flags cloud_flags 0 (cfg_Repositories cfg)
       @ stanza_flags (svc_PGDataPath svc) True @ log_flags (Some cfg)
       @ [''--stanza'', stanza, ''--lock-path'', lock_path]"
    by (simp add: stanza_create_flags NewBackupCommand_def)
  obtain r w2 where c: "CreatePgbackrestStanza h ?b stanza env w1 = (r, w2)" by fastforce
  then have run: "wrapW ''unexpected failure invoking pgbackrest stanza-create'' (run_streaming h argv env w1) = (r, w2)"
    by (simp add: CreatePgbackrestStanza_def g)
  then have "w2 = snd (run_pgbackrest h argv env w1)" by (auto simp: wrapW_def)
  then have ran: "w_ran w2 = w_ran w1 @ [argv]" by simp
  have "r \<noteq> Panic m" for m
    using run run_never_panics(2) [of h argv env w1] by (cases "fst (run_streaming h argv env w1)") (auto simp: wrapW_def)
  then have "(case (r, w2) of (Panic m, w) \<Rightarrow> (Panic m, w) | (_, w) \<Rightarrow> (Ret (), w)) = (Ret (), w2)"
    by (cases r) auto
  with assms c ran argv show ?thesis
    by (auto simp: check_destination_def CheckWalArchiveDestination_def errors_is_def)
qed

section \<open>Examples\<close>

definition service_archive :: Archive where
  "service_archive = archive_example\<lparr>arch_Spec := (arch_Spec archive_example)\<lparr>spec_Configuration :=
     cfg_example\<lparr>cfg_Repositories := [secret_repo_example\<lparr>repo_EndpointCA := None\<rparr>]\<rparr>\<rparr>\<rparr>"

definition service_host :: "unit host" where
  "service_host = host_example\<lparr>h_get_archive := (\<lambda>ns n. Ret service_archive),
     h_pgbackrest := h_pgbackrest info_host, h_parse_json := h_parse_json info_host\<rparr>"

definition service_example :: "string \<Rightarrow> WALServiceImplementation" where
  "service_example name =
     \<lparr>svc_InstanceName = name, svc_SpoolDirectory = ''/s'', svc_PGDataPath = ''/pg'', svc_PGWALPath = ''/pg/pg_wal''\<rparr>"

lemma service_archive_env:
  "\<exists>env. archive_env service_host cnpg_example [] spool_world (NewFromCluster cnpg_example cluster_example)
     service_archive env fs_example"
proof -
  let ?r = "EnvSetBackupCloudCredentials service_host ''ns'' (archive_cfg service_archive) (SanitizedEnviron service_host) fs_example"
  have "returns (fst ?r)" "snd ?r = fs_example" by code_simp+
  then obtain env where "?r = (Ret env, fs_example)" by (cases ?r; cases "fst ?r") auto
  moreover have "arch_Namespace service_archive = ''ns''" by (simp add: service_archive_def archive_example_def)
  ultimately show ?thesis
    by (simp add: archive_env_def NewFromClusterJSON_def cnpg_example_def service_host_def spool_world_def)
qed

theorem Service_Archive_spooled_witness:
  "\<exists>w'. Service_Archive service_host cnpg_example [] (service_example ''c-1'') [] ''pg_wal/B'' spool_world = (Ret (), w')
     \<and> w_ran w' = []"
proof -
  from service_archive_env obtain env where e: "archive_env service_host cnpg_example [] spool_world
      (NewFromCluster cnpg_example cluster_example) service_archive env fs_example" by blast
  have s: "\<lparr>spoolDirectory = svc_SpoolDirectory (service_example ''c-1'')\<rparr> = spool_example"
    by (simp add: service_example_def spool_example_def)
  have b: "path_base ''pg_wal/B'' = ''B''" by (simp add: path_base_def after_last_slash_def)
  have "''B'' \<in> spool_elems spool_example fs_example"
    by (simp add: spool_elems_def plain_name_def spool_file_def spool_example_def fs_example_def node_at_def
        path_join_def path_clean_def clean_step_def)
  moreover have "spool_ready (h_fileutils service_host) spool_example fs_example"
    using spool_example_ready by (simp add: service_host_def host_example_def)
  ultimately show ?thesis
    using Service_Archive_spooled [OF e, of "service_example ''c-1''" "''pg_wal/B''" "[]"]
    by (auto simp: s b spool_name_def plain_name_def spool_world_def)
qed

theorem check_destination_creates_stanza_witness:
  "\<exists>w2. check_destination service_host (service_example ''c-1'') cfg_example ''main'' [] spool_world = (Ret (), w2)
     \<and> length (w_ran w2) = 1"
proof -
  have "h_parse_json service_host = h_parse_json info_host" "h_pgbackrest service_host = h_pgbackrest info_host"
    by (simp_all add: service_host_def)
  then have "\<exists>w1. GetBackupList service_host cfg_example ''main'' [] spool_world = (Ret listed_catalog, w1) \<and> length (w_ran w1) = 1"
    using decode_example by (simp add: GetBackupList_def executeQueryCommand_def run_pgbackrest_def info_options_flags)
      (simp add: info_host_def spool_world_def)
  then obtain w1 where l: "GetBackupList service_host cfg_example ''main'' [] spool_world = (Ret listed_catalog, w1)"
    "length (w_ran w1) = 1" by blast
  have "\<not> StanzaMissing listed_catalog" by code_simp
  with check_destination_creates_stanza [OF l(1), of "service_example ''c-1''"] l(2) show ?thesis by auto
qed


section \<open>What a restore request does\<close>

text \<open>What a request works with once the source is chosen.\<close>

definition restore_env ::
  "'r host \<Rightarrow> cnpg \<Rightarrow> WALServiceImplementation \<Rightarrow> string \<Rightarrow> 'r world \<Rightarrow> PluginConfiguration \<Rightarrow> Archive \<Rightarrow> bool \<Rightarrow>
   string list \<Rightarrow> string list \<Rightarrow> fs \<Rightarrow> bool" where
  "restore_env h cn svc def w configuration archive promotion env options fs' \<longleftrightarrow>
     NewFromClusterJSON cn def = Ret configuration
     \<and> (\<exists>stanza key. restore_source cn svc configuration = (stanza, key, promotion)
         \<and> h_get_archive h (fst key) (snd key) = Ret archive
         \<and> CloudWalRestoreOptions (archive_cfg archive) stanza (svc_PGDataPath svc) = Ret options)
     \<and> EnvSetRestoreCloudCredentials h (arch_Namespace archive) (archive_cfg archive) (SanitizedEnviron h) (w_fs w)
         = (Ret env, fs')"

lemma Service_Restore_unfold:
  assumes "restore_env h cn svc def w configuration archive promotion env options fs'"
  shows "Service_Restore h cn sched svc def walName dest w =
    bindW (wrapW ''while creating the restorer''
      (on_files (NewWALRestorer h env (svc_SpoolDirectory svc)) (w\<lparr>w_fs := fs'\<rparr>))) (\<lambda>r w.
    bindW (wrapW ''while restoring a file from the spool directory''
      (on_files (RestoreFromSpool h r walName dest) w)) (\<lambda>wasInSpool w.
    if wasInSpool then (Ret (), w)
    else bindW (isStreamingAvailable cn (Some (pc_Cluster configuration)) (svc_InstanceName svc), w) (\<lambda>streaming w.
         bindW (if streaming then on_files (checkEndOfWALStreamFlag h r) w else (Ret (), w)) (\<lambda>_ w.
         bindW (wal_files_list (archive_cfg archive) walName promotion, w) (\<lambda>names w.
         let (walStatus, w) = RestoreList h sched r names dest options w
         in finish_restore h streaming r walStatus w)))))"
  using assms by (auto simp: Service_Restore_def restore_env_def restoreFromPgbackrestArchive_def Let_def)

lemma NewWALRestorer_existing:
  assumes "spool_ready (h_fileutils h) \<lparr>spoolDirectory = d\<rparr> fs"
  shows "NewWALRestorer h env d fs = (Ret \<lparr>wr_spool = \<lparr>spoolDirectory = d\<rparr>, wr_env = env\<rparr>, fs)"
  using Spool_New_existing [OF assms] by (simp add: NewWALRestorer_def)

lemma checkEndOfWALStreamFlag_set:
  assumes "spool_ready (h_fileutils h) (wr_spool r) fs" "endOfWALStreamFlagFilename \<in> spool_elems (wr_spool r) fs"
  shows "\<exists>fs'. checkEndOfWALStreamFlag h r fs = (Fail ErrEndOfWALStreamReached, fs')
    \<and> spool_elems (wr_spool r) fs' = spool_elems (wr_spool r) fs - {endOfWALStreamFlagFilename}"
  using ResetEndOfWalStream_elems [OF assms] assms
  by (auto simp: checkEndOfWALStreamFlag_def IsEndOfWALStream_elems)

text \<open>
  C18. A restore request of an instance that can stream, made after a prefetch ran past the end of
  the archive, for a segment the spool does not hold: the instance is told, once, that the archive
  has ended, so that it goes on by streaming; nothing is fetched, and the flag is gone.
\<close>

theorem Service_Restore_stream_end:
  assumes "restore_env h cn svc def w configuration archive promotion env options fs'"
    and "spool_ready (h_fileutils h) \<lparr>spoolDirectory = svc_SpoolDirectory svc\<rparr> fs'"
    and "isStreamingAvailable cn (Some (pc_Cluster configuration)) (svc_InstanceName svc) = Ret True"
    and "plain_name walName" "walName \<notin> spool_elems \<lparr>spoolDirectory = svc_SpoolDirectory svc\<rparr> fs'"
    and "endOfWALStreamFlagFilename \<in> spool_elems \<lparr>spoolDirectory = svc_SpoolDirectory svc\<rparr> fs'"
  shows "\<exists>w'. Service_Restore h cn sched svc def walName dest w = (Fail ErrEndOfWALStreamReached, w')
    \<and> w_ran w' = w_ran w \<and> w_remote w' = w_remote w
    \<and> spool_elems \<lparr>spoolDirectory = svc_SpoolDirectory svc\<rparr> (w_fs w')
        = spool_elems \<lparr>spoolDirectory = svc_SpoolDirectory svc\<rparr> fs' - {endOfWALStreamFlagFilename}"
proof -
  let ?spool = "\<lparr>spoolDirectory = svc_SpoolDirectory svc\<rparr>"
  let ?r = "\<lparr>wr_spool = ?spool, wr_env = env\<rparr>"
  have "node_at fs' (spool_file ?spool walName) = None" using assms(4,5) by (simp add: spool_elems_def)
  with assms(2,4) have "MoveOut (h_fileutils h) ?spool walName dest fs' = (Fail ErrorNonExistentFile, fs')"
    by (intro MoveOut_absent)
  then have spool: "RestoreFromSpool h ?r walName dest fs' = (Ret False, fs')"
    by (simp add: RestoreFromSpool_def)
  from checkEndOfWALStreamFlag_set [of h ?r fs'] assms(2,6) obtain fs2 where
    c: "checkEndOfWALStreamFlag h ?r fs' = (Fail ErrEndOfWALStreamReached, fs2)"
      "spool_elems ?spool fs2 = spool_elems ?spool fs' - {endOfWALStreamFlagFilename}" by auto
  have "Service_Restore h cn sched svc def walName dest w = (Fail ErrEndOfWALStreamReached, w\<lparr>w_fs := fs2\<rparr>)"
    unfolding Service_Restore_unfold [OF assms(1)]
    by (simp add: on_files_def NewWALRestorer_existing [OF assms(2)] spool c(1) assms(3))
  with c(2) show ?thesis by simp
qed

definition flag_world :: "unit world" where
  "flag_world = spool_world\<lparr>w_fs := snd (SetEndOfWALStream info_host restorer_example fs_example)\<rparr>"

lemma flag_world_spool:
  "spool_ready (h_fileutils service_host) spool_example (w_fs flag_world)"
  "spool_elems spool_example (w_fs flag_world) = insert endOfWALStreamFlagFilename (spool_elems spool_example fs_example)"
proof -
  have fu: "h_fileutils info_host = posix_fileutils" "h_fileutils service_host = posix_fileutils"
    and sp: "wr_spool restorer_example = spool_example"
    by (simp_all add: info_host_def service_host_def host_example_def restorer_example_def)
  obtain fs' where s: "SetEndOfWALStream info_host restorer_example fs_example = (Ret (), fs')"
    "spool_ready posix_fileutils spool_example fs'"
    "spool_elems spool_example fs' = insert endOfWALStreamFlagFilename (spool_elems spool_example fs_example)"
    using SetEndOfWALStream_elems [of info_host restorer_example fs_example] spool_example_ready
    unfolding fu sp by blast
  have "w_fs flag_world = fs'" by (simp add: flag_world_def s(1))
  with s fu show "spool_ready (h_fileutils service_host) spool_example (w_fs flag_world)"
    "spool_elems spool_example (w_fs flag_world) = insert endOfWALStreamFlagFilename (spool_elems spool_example fs_example)"
    by simp_all
qed

lemma service_restore_env:
  assumes "w = spool_world \<or> w = flag_world"
  shows "\<exists>env options. restore_env service_host cnpg_example (service_example ''c-2'') [] w
     (NewFromCluster cnpg_example cluster_example) service_archive False env options (w_fs w)
     \<and> int (length options) < MaxInt - 3"
proof -
  let ?r = "\<lambda>w. EnvSetRestoreCloudCredentials service_host ''ns'' (archive_cfg service_archive) (SanitizedEnviron service_host) (w_fs w)"
  let ?c = "NewFromCluster cnpg_example cluster_example"
  have "returns (fst (?r spool_world)) \<and> snd (?r spool_world) = w_fs spool_world"
    "returns (fst (?r flag_world)) \<and> snd (?r flag_world) = w_fs flag_world" by code_simp+
  with assms have "returns (fst (?r w))" "snd (?r w) = w_fs w" by blast+
  then obtain env where env: "?r w = (Ret env, w_fs w)" by (cases "?r w"; cases "fst (?r w)") auto
  have s: "restore_source cnpg_example (service_example ''c-2'') ?c = (pc_Stanza ?c, GetArchiveObjectKey ?c, False)"
    by (simp add: restore_source_def cnpg_example_def cluster_example_def NewFromCluster_def Let_def)
  have "case CloudWalRestoreOptions (archive_cfg service_archive) (pc_Stanza ?c) ''/pg'' of
      Ret options \<Rightarrow> length options < 100 | _ \<Rightarrow> False"
    by code_simp
  then obtain options where o: "CloudWalRestoreOptions (archive_cfg service_archive) (pc_Stanza ?c) ''/pg'' = Ret options"
    "int (length options) < MaxInt - 3" by (auto simp: MaxInt_def split: go.splits)
  have "arch_Namespace service_archive = ''ns''" by (simp add: service_archive_def archive_example_def)
  then have "restore_env service_host cnpg_example (service_example ''c-2'') [] w ?c service_archive False env options (w_fs w)"
    using env s o(1) by (simp add: restore_env_def NewFromClusterJSON_def)
      (simp add: cnpg_example_def service_host_def service_example_def)
  with o(2) show ?thesis by blast
qed

theorem Service_Restore_stream_end_witness:
  "\<exists>w'. Service_Restore service_host cnpg_example [] (service_example ''c-2'') [] ''A'' ''/d/A'' flag_world
      = (Fail ErrEndOfWALStreamReached, w')
    \<and> endOfWALStreamFlagFilename \<notin> spool_elems spool_example (w_fs w')"
proof -
  from service_restore_env [of flag_world] obtain env options where
    e: "restore_env service_host cnpg_example (service_example ''c-2'') [] flag_world
     (NewFromCluster cnpg_example cluster_example) service_archive False env options (w_fs flag_world)" by blast
  have s: "\<lparr>spoolDirectory = svc_SpoolDirectory (service_example ''c-2'')\<rparr> = spool_example"
    by (simp add: service_example_def spool_example_def)
  have streaming: "isStreamingAvailable cnpg_example (Some (pc_Cluster (NewFromCluster cnpg_example cluster_example)))
      (svc_InstanceName (service_example ''c-2'')) = Ret True" by code_simp
  have "''A'' \<notin> spool_elems spool_example (w_fs flag_world)"
    by (simp add: flag_world_spool endOfWALStreamFlagFilename_def)
      (simp add: spool_elems_def plain_name_def spool_file_def spool_example_def fs_example_def node_at_def
        path_join_def path_clean_def clean_step_def)
  then show ?thesis
    using Service_Restore_stream_end [OF e _ streaming, of "''A''" "[]" "''/d/A''"] flag_world_spool
    by (auto simp: s plain_name_def)
qed

text \<open>
  C6. A restore request that succeeds has put the segment at the destination: either the spool held
  it and it was moved there, with nothing run; or pgBackRest was run for the first name of the
  list of segments, with the destination as its target, and ended with success.
\<close>

theorem Service_Restore_success:
  assumes "restore_env h cn svc def w configuration archive promotion env options fs'"
    and "int (length options) < MaxInt - 3"
    and "Service_Restore h cn sched svc def walName dest w = (Ret (), w')"
  shows "\<exists>r fs1. NewWALRestorer h env (svc_SpoolDirectory svc) fs' = (Ret r, fs1) \<and> wr_env r = env \<and>
    (RestoreFromSpool h r walName dest fs1 = (Ret True, w_fs w') \<and> w_ran w' = w_ran w
     \<or> (\<exists>first names. wal_files_list (archive_cfg archive) walName promotion = Ret (first # names)
          \<and> get_options options first dest \<in> set (w_ran w')
          \<and> fetched h r first (get_options options first dest) None))"
proof -
  let ?d = "svc_SpoolDirectory svc"
  from assms(3) [unfolded Service_Restore_unfold [OF assms(1)]] obtain r w1 wasInSpool w2 where
    n: "wrapW ''while creating the restorer'' (on_files (NewWALRestorer h env ?d) (w\<lparr>w_fs := fs'\<rparr>)) = (Ret r, w1)"
    and sp: "wrapW ''while restoring a file from the spool directory''
        (on_files (RestoreFromSpool h r walName dest) w1) = (Ret wasInSpool, w2)"
    and k: "(if wasInSpool then (Ret (), w2)
      else bindW (isStreamingAvailable cn (Some (pc_Cluster configuration)) (svc_InstanceName svc), w2) (\<lambda>streaming w.
         bindW (if streaming then on_files (checkEndOfWALStreamFlag h r) w else (Ret (), w)) (\<lambda>_ w.
         bindW (wal_files_list (archive_cfg archive) walName promotion, w) (\<lambda>names w.
         let (walStatus, w) = RestoreList h sched r names dest options w
         in finish_restore h streaming r walStatus w)))) = (Ret (), w')"
    unfolding bindW_Ret_iff by blast
  obtain fs1 where new: "NewWALRestorer h env ?d fs' = (Ret r, fs1)" and w1: "w1 = w\<lparr>w_fs := fs1\<rparr>"
    using n by (cases "NewWALRestorer h env ?d fs'") (auto simp: on_files_def)
  have env: "wr_env r = env"
    using new by (auto simp: NewWALRestorer_def bindW_Ret_iff)
  obtain fs2 where served: "RestoreFromSpool h r walName dest fs1 = (Ret wasInSpool, fs2)" and w2: "w2 = w1\<lparr>w_fs := fs2\<rparr>"
    using sp w1 by (cases "RestoreFromSpool h r walName dest fs1") (auto simp: on_files_def)
  show ?thesis
  proof (cases wasInSpool)
    case True
    then have "RestoreFromSpool h r walName dest fs1 = (Ret True, w_fs w') \<and> w_ran w' = w_ran w"
      using k served w1 w2 by auto
    with new env show ?thesis by blast
  next
    case False
    with k obtain streaming names w3 where
      names: "wal_files_list (archive_cfg archive) walName promotion = Ret names"
      and f: "(let (walStatus, w) = RestoreList h sched r names dest options w3
         in finish_restore h streaming r walStatus w) = (Ret (), w')"
      by (auto simp: bindW_Ret_iff)
    obtain results w4 where l: "RestoreList h sched r names dest options w3 = (results, w4)" by fastforce
    note slots = RestoreList_slots [OF assms(2) l]
    from f l have fin: "finish_restore h streaming r results w4 = (Ret (), w')" by simp
    then obtain res rest where res: "results = res # rest" "rr_Err res = None"
      by (auto simp: finish_restore_def split: list.splits option.splits)
    with slots(1) obtain first others where ne: "names = first # others" by (cases names) auto
    have slot: "fetch_slot_ok h r names dest options 0 res" using slots(2) res(1) ne by fastforce
    then have ok: "fetched h r first (get_options options first dest) None"
      using res(2) ne by (simp add: fetch_slot_ok_def fetch_destination_def)
    have "w_ran w' = w_ran w4"
      using fin res by (auto simp: finish_restore_def prod_eq_iff dest: arg_cong [where f = "w_ran \<circ> snd"]
          split: if_splits)
    moreover have "get_options options (names ! 0) (rr_DestinationPath (results ! 0)) \<in># mset (w_ran w4)"
      unfolding slots(3) using ne by (intro union_iff [THEN iffD2] disjI2)
        (simp del: upt_Suc add: image_iff, rule bexI [of _ 0], simp_all)
    ultimately have "get_options options first dest \<in> set (w_ran w')"
      using slot res(1) ne by (simp add: fetch_slot_ok_def fetch_destination_def)
    with ok names ne new env show ?thesis by blast
  qed
qed

theorem Service_Restore_success_witness:
  "returns (fst (Service_Restore service_host cnpg_example [] (service_example ''c-2'') [] ''A'' ''/d/A'' spool_world))
   \<and> (\<exists>argv \<in> set (w_ran (snd (Service_Restore service_host cnpg_example [] (service_example ''c-2'') []
         ''A'' ''/d/A'' spool_world))). sublist [''archive-get'', ''A'', ''/d/A''] argv)"
proof -
  let ?r = "Service_Restore service_host cnpg_example [] (service_example ''c-2'') [] ''A'' ''/d/A'' spool_world"
  have ok: "returns (fst ?r)" and ran: "w_ran (snd ?r) \<noteq> w_ran spool_world" by code_simp+
  then obtain w' where r: "?r = (Ret (), w')" by (cases ?r; cases "fst ?r") auto
  from service_restore_env [of spool_world] obtain env options where
    e: "restore_env service_host cnpg_example (service_example ''c-2'') [] spool_world
     (NewFromCluster cnpg_example cluster_example) service_archive False env options (w_fs spool_world)"
    "int (length options) < MaxInt - 3" by blast
  have "wal_files_list (archive_cfg service_archive) ''A'' False = Ret [''A'']" by code_simp
  with Service_Restore_success [OF e r] r ran have "get_options options ''A'' ''/d/A'' \<in> set (w_ran w')" by auto
  moreover have "suffix [''archive-get'', ''A'', ''/d/A''] (get_options options ''A'' ''/d/A'')"
    by (simp add: get_options_def suffix_def)
  ultimately show ?thesis using ok r suffix_imp_sublist by auto
qed

end
