(* ===== verification/Instance_Backup.thy ===== *)
theory Instance_Backup
  imports Backup_Command Credentials Plugin_Config
begin

text \<open>
  The backup service of an instance (\<^verbatim>\<open>internal/cnpgi/instance/backup.go\<close>): from
  the backup request to the runs of pgBackRest and the result that is reported. The decoder of the
  backup definition, the directory CloudNativePG reserves for temporary files and the time stamp
  are parameters.
\<close>

section \<open>The handler\<close>

record BackupServiceImplementation =
  bs_InstanceName :: string
  bs_PGDataPath :: string

text \<open>\<open>bh_DecodeBackup\<close> gives the plugin configuration of the backup, nil or its parameters.\<close>

record backup_host =
  bh_DecodeBackup :: "string \<Rightarrow> (string \<times> string) list option go"
  bh_BackupTemporaryDirectory :: string
  bh_TimeStamp :: string

record BackupResult =
  bres_BackupId :: string
  bres_BackupName :: string
  bres_StartedAt :: int
  bres_StoppedAt :: int
  bres_BeginWal :: string
  bres_EndWal :: string
  bres_BeginLsn :: string
  bres_EndLsn :: string
  bres_InstanceId :: string
  bres_Online :: bool
  bres_Metadata :: "(string \<times> string) list"

datatype backup_capability = RPC_TYPE_BACKUP

definition Backup_GetCapabilities :: "backup_capability list" where
  "Backup_GetCapabilities = [RPC_TYPE_BACKUP]"

definition Data_metadata :: "(string \<times> string) list" where
  "Data_metadata = [(''version'', md_Version Data), (''name'', md_Name Data), (''displayName'', md_DisplayName Data)]"

text \<open>What is reported of the catalog read back; nil and empty catalogs are dereferenced.\<close>

definition backup_result :: "string \<Rightarrow> Catalog option \<Rightarrow> BackupResult go" where
  "backup_result instance info =
     (case info of
        None \<Rightarrow> Panic ''nil pointer dereference''
      | Some c \<Rightarrow>
          (case cat_Backups c of
             [] \<Rightarrow> Panic ''index out of range''
           | b # _ \<Rightarrow> Ret
               \<lparr>bres_BackupId = bk_ID b,
                bres_BackupName = (case map_of (bk_Annotations b) BackupNameAnnotation of None \<Rightarrow> '''' | Some n \<Rightarrow> n),
                bres_StartedAt = time_Start (bk_Time b), bres_StoppedAt = time_Stop (bk_Time b),
                bres_BeginWal = bw_Start (bk_WAL b), bres_EndWal = bw_Stop (bk_WAL b),
                bres_BeginLsn = lsn_Start (bk_LSN b), bres_EndLsn = lsn_Stop (bk_LSN b),
                bres_InstanceId = instance, bres_Online = True, bres_Metadata = Data_metadata\<rparr>))"

definition backup_name :: "backup_host \<Rightarrow> string" where
  "backup_name bh = ''backup-'' @ bh_TimeStamp bh"

definition Backup ::
  "'r host \<Rightarrow> cnpg \<Rightarrow> backup_host \<Rightarrow> BackupServiceImplementation \<Rightarrow> string \<Rightarrow> string \<Rightarrow>
   'r world \<Rightarrow> BackupResult go \<times> 'r world" where
  "Backup h cn bh svc clusterDefinition backupDefinition w =
     bindW (bh_DecodeBackup bh backupDefinition, w) (\<lambda>backupConfig w.
     bindW (NewFromClusterJSON cn clusterDefinition, w) (\<lambda>configuration w.
     bindW (case GetArchiveObjectKey configuration of (ns, n) \<Rightarrow> h_get_archive h ns n, w) (\<lambda>archive w.
     bindW (on_files (fu_EnsureDirectoryExists (h_fileutils h) (bh_BackupTemporaryDirectory bh)) w) (\<lambda>_ w.
     let cfg = archive_cfg archive;
         backupCmd = NewBackupCommand cfg backupConfig (bs_PGDataPath svc);
         stanza = pc_Stanza configuration
     in
     bindW (on_files (EnvSetBackupCloudCredentials h (arch_Namespace archive) cfg (SanitizedEnviron h)) w) (\<lambda>env w.
     bindW (if ShouldCreateStanzaOnBackup cfg then CreatePgbackrestStanza h backupCmd stanza env w else (Ret (), w)) (\<lambda>_ w.
     let backupName = backup_name bh in
     bindW (Take h backupCmd backupName stanza env (bh_BackupTemporaryDirectory bh) w) (\<lambda>_ w.
     bindW (GetExecutedBackupInfo h backupCmd backupName stanza env w) (\<lambda>executedBackupInfo w.
       (backup_result (bs_InstanceName svc) executedBackupInfo, w)))))))))"

section \<open>What a reported backup is\<close>

lemma CreateStanza_Ret:
  assumes "CreatePgbackrestStanza h b stanza env w = (Ret (), w')"
  shows "\<exists>argv. getStanzaCreateOptions b stanza = Ret argv \<and> w_ran w' = w_ran w @ [argv]"
  using assms by (auto simp: CreatePgbackrestStanza_def bindW_Ret_iff wrapW_Ret_iff dest: run_streaming_Ret)

lemma Take_Ret:
  assumes "Take h b name stanza env tmp w = (Ret (), w')"
  shows "\<exists>argv. GetPgbackrestBackupOptions b name stanza = Ret argv \<and> w_ran w' = w_ran w @ [argv]
    \<and> pushed_ok h (env @ [''TMPDIR='' @ tmp]) argv"
proof -
  from assms obtain argv where g: "GetPgbackrestBackupOptions b name stanza = Ret argv"
    and "(case run_streaming h argv (env @ [''TMPDIR='' @ tmp]) w of
         (Fail err, w') \<Rightarrow>
           if error_text err = ''3''
           then (Fail (ErrMsg ''invalid arguments for pgbackrest backup. Ensure that the additionalCommandArgs field is correctly populated''), w')
           else (Fail err, w')
       | r \<Rightarrow> r) = (Ret (), w')"
    by (auto simp: Take_def bindW_Ret_iff)
  then have "run_streaming h argv (env @ [''TMPDIR='' @ tmp]) w = (Ret (), w')"
    by (auto split: prod.splits go.splits if_splits)
  with g show ?thesis using run_streaming_Ret by blast
qed

lemma GetBackupList_Ret:
  assumes "GetBackupList h cfg stanza env w = (Ret c, w')"
  shows "\<exists>argv. info_options cfg stanza [] = Ret argv \<and> w_ran w' = w_ran w @ [argv]"
  using assms by (auto simp: GetBackupList_def executeQueryCommand_def bindW_Ret_iff dest: run_pgbackrest_Ret)

lemma GetBackupByAnnotatedName_Ret:
  assumes "GetBackupByAnnotatedName h name stanza cfg env w = (Ret (Some c), w')"
  shows "\<exists>listed argv1 argv2 w1. GetBackupList h cfg stanza env w = (Ret listed, w1)
    \<and> info_options cfg stanza [] = Ret argv1
    \<and> info_options cfg stanza [''--set'', GetBackupIDFromAnnotatedName listed name] = Ret argv2
    \<and> GetBackupIDFromAnnotatedName listed name \<noteq> [] \<and> w_ran w' = w_ran w @ [argv1, argv2]
    \<and> (\<exists>raw. NewSingleBackupCatalogFromPgbackrestInfo (h_parse_json h) raw = Ret c)"
proof -
  from assms obtain listed w1 where l: "GetBackupList h cfg stanza env w = (Ret listed, w1)"
    and id: "GetBackupIDFromAnnotatedName listed name \<noteq> []"
    and k: "bindW (executeQueryCommand h cfg stanza [''--set'', GetBackupIDFromAnnotatedName listed name] env w1) (\<lambda>rawJSON w.
      (bindG (NewSingleBackupCatalogFromPgbackrestInfo (h_parse_json h) rawJSON) (\<lambda>c. Ret (Some c)), w)) = (Ret (Some c), w')"
    by (auto simp: GetBackupByAnnotatedName_def bindW_Ret_iff Let_def split: if_splits)
  from GetBackupList_Ret [OF l] obtain argv1 where a1: "info_options cfg stanza [] = Ret argv1" "w_ran w1 = w_ran w @ [argv1]" by blast
  from k obtain argv2 raw where a2: "info_options cfg stanza [''--set'', GetBackupIDFromAnnotatedName listed name] = Ret argv2"
    and r: "run_pgbackrest h argv2 env w1 = (Ret raw, w')"
    and n: "NewSingleBackupCatalogFromPgbackrestInfo (h_parse_json h) raw = Ret c"
    by (auto simp: executeQueryCommand_def bindW_Ret_iff bindG_Ret_iff)
  from run_pgbackrest_Ret [OF r] a1(2) have "w_ran w' = w_ran w @ [argv1, argv2]" by simp
  with l a1(1) a2 id n show ?thesis by blast
qed


section \<open>An example\<close>

definition made_report :: json where
  "made_report = JArr [JObj [(''name'', JStr ''c''), (''backup'', JArr [JObj [(''label'', JStr ''F1''),
     (''annotation'', JObj [(''cnpg-backup-name'', JStr ''backup-1'')])]])]]"

definition backup_host_example :: "unit host" where
  "backup_host_example = host_example\<lparr>h_parse_json := (\<lambda>s. Some made_report)\<rparr>"

definition backup_params_example :: backup_host where
  "backup_params_example = \<lparr>bh_DecodeBackup = (\<lambda>s. Ret (Some [])), bh_BackupTemporaryDirectory = ''/controller/tmp'',
     bh_TimeStamp = ''1''\<rparr>"

definition backup_world :: "unit world" where
  "backup_world = \<lparr>w_fs = root_fs, w_remote = (), w_ran = []\<rparr>"


end
