(* ===== verification/Restore_Job.thy ===== *)
theory Restore_Job
  imports Wal_Archiver Wal_Restorer Credentials Plugin_Config
begin

text \<open>
  The restore job (\<^verbatim>\<open>internal/cnpgi/restore/restore.go\<close>): from a restore request to
  the chosen backup, its restore and the move of the WAL directory to its own volume. The check
  switch of CloudNativePG, its log file name and the directory utilities of the machinery library
  are parameters.
\<close>

section \<open>Data\<close>

record JobHookImpl =
  jh_SpoolDirectory :: string
  jh_PgDataPath :: string
  jh_PgWalFolderToSymlink :: string

record job_host =
  jo_IsEmptyWalArchiveCheckEnabled :: "Cluster \<Rightarrow> bool"
  jo_EnsureParentDirectoryExists :: "string \<Rightarrow> fs \<Rightarrow> unit go \<times> fs"
  jo_MoveDirectoryContent :: "string \<Rightarrow> string \<Rightarrow> fs \<Rightarrow> unit go \<times> fs"
  jo_LogPath :: string
  jo_LogFileName :: string

definition RecoveryTemporaryDirectory :: string where
  "RecoveryTemporaryDirectory = ScratchDataDirectory @ ''/recovery''"

datatype restore_capability = KIND_RESTORE

definition Restore_GetCapabilities :: "restore_capability list" where
  "Restore_GetCapabilities = [KIND_RESTORE]"

text \<open>The fields of the in-memory Backup object.\<close>

record job_backup =
  jb_Cluster :: string
  jb_ServerName :: string
  jb_BackupID :: string
  jb_StartedAt :: int
  jb_StoppedAt :: int
  jb_BeginWal :: string
  jb_EndWal :: string
  jb_BeginLSN :: string
  jb_EndLSN :: string
  jb_PluginMetadata :: "(string \<times> string) list"

section \<open>The steps\<close>

definition restoreDataDir ::
  "'r host \<Rightarrow> JobHookImpl \<Rightarrow> job_backup \<Rightarrow> string list \<Rightarrow> PgbackrestConfiguration \<Rightarrow> 'r world \<Rightarrow> unit go \<times> 'r world" where
  "restoreDataDir h impl backup env configuration w =
     Restore_backup h (NewRestoreCommand configuration (jh_PgDataPath impl)) (jb_BackupID backup) (jb_ServerName backup) env w"

text \<open>Not called; the removal of the temporary file is deferred and its error only logged.\<close>

definition ensureArchiveContainsLastCheckpointRedoWAL ::
  "'r host \<Rightarrow> job_host \<Rightarrow> JobHookImpl \<Rightarrow> string list \<Rightarrow> job_backup \<Rightarrow> PgbackrestConfiguration \<Rightarrow>
   'r world \<Rightarrow> unit go \<times> 'r world" where
  "ensureArchiveContainsLastCheckpointRedoWAL h jo impl env backup configuration w =
     (let testWALPath = RecoveryTemporaryDirectory @ ''/test.wal'';
          (r, w) =
            bindW (on_files (jo_EnsureParentDirectoryExists jo testWALPath) w) (\<lambda>_ w.
            bindW (on_files (NewWALRestorer h env (jh_SpoolDirectory impl)) w) (\<lambda>rest w.
            bindW (CloudWalRestoreOptions configuration (jb_ServerName backup) testWALPath, w) (\<lambda>opts w.
              wrapW ''encountered an error while checking the presence of first needed WAL in the archive''
                (Restore_wal h rest (jb_BeginWal backup) testWALPath opts w))))
      in (r, snd (on_files (fu_RemoveFile (h_fileutils h) testWALPath) w)))"

definition checkBackupDestination ::
  "'r host \<Rightarrow> cnpg \<Rightarrow> job_host \<Rightarrow> JobHookImpl \<Rightarrow> Cluster \<Rightarrow> PgbackrestConfiguration \<Rightarrow> 'r world \<Rightarrow> unit go \<times> 'r world" where
  "checkBackupDestination h cn jo impl cluster configuration w =
     bindW (wrapW (''can'' @ [CHR 0x27] @ ''t get credentials for cluster '' @ cl_Name cluster)
              (on_files (EnvSetRestoreCloudCredentials h (cl_Namespace cluster) configuration (SanitizedEnviron h)) w)) (\<lambda>env w.
       if length env = 0 then (Ret (), w)
       else
         bindW (wrapW ''while creating the archiver''
                  (on_files (Archiver_New h env (jh_SpoolDirectory impl) (jh_PgDataPath impl)
                     (path_join [jh_PgDataPath impl, CheckEmptyWalArchiveFile])) w)) (\<lambda>walArchiver w.
           let stanza = stanza_loop cn (cl_Plugins cluster) (cl_Name cluster)
           in if jo_IsEmptyWalArchiveCheckEnabled jo cluster
              then (case CheckWalArchiveDestination h configuration stanza env w of
                      (Fail err, w) \<Rightarrow> ((if errors_is err ErrStanzaMissing then Ret () else Fail err), w)
                    | r \<Rightarrow> r)
              else (Ret (), w)))"

text \<open>
  Symbolic links, beside the files: the path of a link and its target. A path that is a link stands
  for its target where a call follows links.
\<close>

type_synonym links = "(string \<times> string) list"

definition os_Readlink :: "string \<Rightarrow> links \<Rightarrow> string" where
  "os_Readlink p links = (case map_of links (path_clean p) of None \<Rightarrow> '''' | Some t \<Rightarrow> t)"

definition follow_link :: "string \<Rightarrow> links \<Rightarrow> string" where
  "follow_link p links = (case map_of links (path_clean p) of None \<Rightarrow> p | Some t \<Rightarrow> t)"

definition os_Symlink :: "string \<Rightarrow> string \<Rightarrow> fs \<Rightarrow> links \<Rightarrow> unit go \<times> links" where
  "os_Symlink target p fs links =
     (if denied fs p then (Fail (ErrOs EACCES), links)
      else if node_at fs p \<noteq> None \<or> map_of links (path_clean p) \<noteq> None then (Fail (ErrOs EEXIST), links)
      else if node_at fs (path_dir p) = None then (Fail (ErrOs ENOENT), links)
      else (Ret (), (path_clean p, target) # links))"

definition remove_path :: "'r host \<Rightarrow> string \<Rightarrow> fs \<times> links \<Rightarrow> unit go \<times> fs \<times> links" where
  "remove_path h p = (\<lambda>(fs, links).
     if map_of links (path_clean p) \<noteq> None then (Ret (), fs, filter (\<lambda>(q, t). q \<noteq> path_clean p) links)
     else (let (r, fs') = fu_RemoveFile (h_fileutils h) p fs in (r, fs', links)))"

definition restoreCustomWalDir ::
  "'r host \<Rightarrow> job_host \<Rightarrow> JobHookImpl \<Rightarrow> fs \<times> links \<Rightarrow> bool go \<times> fs \<times> links" where
  "restoreCustomWalDir h jo impl = (\<lambda>(fs, links).
     let pgDataWal = path_join [jh_PgDataPath impl, ''pg_wal''];
         target = jh_PgWalFolderToSymlink impl;
         lift = (\<lambda>(r, fs'). (r, (fs', links)))
     in if os_Readlink pgDataWal links = target then (Ret False, fs, links)
        else
          bindW (lift (fu_EnsureDirectoryExists (h_fileutils h) target fs)) (\<lambda>_ (fs, links).
          bindW (lift (fu_EnsureDirectoryExists (h_fileutils h) (follow_link pgDataWal links) fs)) (\<lambda>_ (fs, links).
          bindW (lift (jo_MoveDirectoryContent jo (follow_link pgDataWal links) target fs)) (\<lambda>_ (fs, links).
          bindW (remove_path h pgDataWal (fs, links)) (\<lambda>_ (fs, links).
            (case os_Symlink target pgDataWal fs links of
               (Ret _, links') \<Rightarrow> (Ret True, fs, links')
             | (Fail e, links') \<Rightarrow> (Fail e, fs, links')
             | (Panic m, links') \<Rightarrow> (Panic m, fs, links')))))))"

definition getRestoreWalConfig :: "job_host \<Rightarrow> string" where
  "getRestoreWalConfig jo =
     (let restoreCmd = ''/controller/manager wal-restore --log-destination '' @ jo_LogPath jo @ ''/'' @ jo_LogFileName jo
                         @ ''.json %f %p''
      in ''recovery_target_action = promote'' @ [CHR 0x0A]
         @ ''restore_command = '' @ [CHR 0x27] @ restoreCmd @ [CHR 0x27, CHR 0x0A])"

text \<open>Which backup; a cluster without a bootstrap section is dereferenced.\<close>

definition target_backup :: "machinery \<Rightarrow> Cluster \<Rightarrow> Catalog \<Rightarrow> PgbackrestBackup option go" where
  "target_backup mach cluster backupCatalog =
     (case cl_Bootstrap cluster of
        None \<Rightarrow> Panic ''nil pointer dereference''
      | Some None \<Rightarrow> Ret (LatestBackupInfo backupCatalog)
      | Some (Some recovery) \<Rightarrow>
          (case br_RecoveryTarget recovery of
             None \<Rightarrow> Ret (LatestBackupInfo backupCatalog)
           | Some target \<Rightarrow> FindBackupInfo mach backupCatalog target))"

definition loadBackupObjectFromExternalCluster ::
  "'r host \<Rightarrow> machinery \<Rightarrow> Cluster \<Rightarrow> PgbackrestConfiguration \<Rightarrow> string \<Rightarrow> 'r world \<Rightarrow>
   (job_backup \<times> string list) go \<times> 'r world" where
  "loadBackupObjectFromExternalCluster h mach cluster recoveryArchive stanza w =
     bindW (on_files (EnvSetRestoreCloudCredentials h (cl_Namespace cluster) recoveryArchive (SanitizedEnviron h)) w) (\<lambda>env w.
     bindW (GetBackupList h recoveryArchive stanza env w) (\<lambda>backupCatalog w.
     bindW (target_backup mach cluster backupCatalog, w) (\<lambda>targetBackup w.
       ((case targetBackup of
           None \<Rightarrow> Fail (ErrMsg ''no target backup found'')
         | Some b \<Rightarrow> Ret
             (\<lparr>jb_Cluster = stanza, jb_ServerName = stanza, jb_BackupID = bk_ID b,
               jb_StartedAt = time_Start (bk_Time b), jb_StoppedAt = time_Stop (bk_Time b),
               jb_BeginWal = bw_Start (bk_WAL b), jb_EndWal = bw_Stop (bk_WAL b),
               jb_BeginLSN = lsn_Start (bk_LSN b), jb_EndLSN = lsn_Stop (bk_LSN b),
               jb_PluginMetadata = [(''stanza'', stanza)]\<rparr>, env)), w))))"

section \<open>The handler\<close>

definition check_target ::
  "'r host \<Rightarrow> cnpg \<Rightarrow> job_host \<Rightarrow> JobHookImpl \<Rightarrow> PluginConfiguration \<Rightarrow> 'r world \<Rightarrow> unit go \<times> 'r world" where
  "check_target h cn jo impl configuration w =
     (if pc_PgbackrestObjectName configuration \<noteq> ''''
      then bindW (case GetArchiveObjectKey configuration of (ns, n) \<Rightarrow> h_get_archive h ns n, w) (\<lambda>targetArchive w.
             checkBackupDestination h cn jo impl (pc_Cluster configuration) (archive_cfg targetArchive) w)
      else (Ret (), w))"

definition restore_chosen ::
  "'r host \<Rightarrow> machinery \<Rightarrow> JobHookImpl \<Rightarrow> PluginConfiguration \<Rightarrow> PgbackrestConfiguration \<Rightarrow> 'r world \<Rightarrow> unit go \<times> 'r world" where
  "restore_chosen h mach impl configuration recoveryConfiguration w =
     bindW (loadBackupObjectFromExternalCluster h mach (pc_Cluster configuration) recoveryConfiguration
              (pc_RecoveryStanza configuration) w)
       (\<lambda>(backup, env) w. restoreDataDir h impl backup env recoveryConfiguration w)"

definition Job_Restore ::
  "'r host \<Rightarrow> cnpg \<Rightarrow> machinery \<Rightarrow> job_host \<Rightarrow> JobHookImpl \<Rightarrow> string \<Rightarrow> 'r world \<times> links \<Rightarrow>
   string go \<times> 'r world \<times> links" where
  "Job_Restore h cn mach jo impl clusterDefinition = (\<lambda>(w, links).
     case bindW (NewFromClusterJSON cn clusterDefinition, w) (\<lambda>configuration w.
          bindW (case GetRecoveryArchiveObjectKey configuration of (ns, n) \<Rightarrow> h_get_archive h ns n, w) (\<lambda>recoveryArchive w.
          bindW (check_target h cn jo impl configuration w) (\<lambda>_ w.
          bindW (restore_chosen h mach impl configuration (archive_cfg recoveryArchive) w) (\<lambda>_ w.
            (Ret configuration, w))))) of
       (Ret configuration, w) \<Rightarrow>
         if cl_WalStorage (pc_Cluster configuration)
         then (case restoreCustomWalDir h jo impl (w_fs w, links) of
                 (r, fs', links') \<Rightarrow>
                   (bindG r (\<lambda>_. Ret (getRestoreWalConfig jo)), w\<lparr>w_fs := fs'\<rparr>, links'))
         else (Ret (getRestoreWalConfig jo), w, links)
     | (Fail e, w) \<Rightarrow> (Fail e, w, links)
     | (Panic m, w) \<Rightarrow> (Panic m, w, links))"

section \<open>What a completed restore has done\<close>

lemma GetBackupList_ran:
  "\<exists>argv. hd argv = ''info'' \<and> w_ran (snd (GetBackupList h cfg stanza env w)) = w_ran w @ [argv]"
proof -
  obtain argv where a: "info_options cfg stanza [] = Ret argv" "hd argv = ''info''" by (simp add: info_options_flags)
  have "w_ran (snd (bindW (run_pgbackrest h argv env w) (\<lambda>raw w. (f raw, w)))) = w_ran w @ [argv]"
    for f :: "string \<Rightarrow> Catalog go"
    using run_pgbackrest_ran [of h argv env w]
    by (cases "run_pgbackrest h argv env w"; cases "fst (run_pgbackrest h argv env w)") auto
  with a show ?thesis by (auto simp: GetBackupList_def executeQueryCommand_def)
qed

lemma CheckWalArchiveDestination_snd:
  "snd (CheckWalArchiveDestination h cfg stanza env w) = snd (GetBackupList h cfg stanza env w)"
  by (cases "GetBackupList h cfg stanza env w"; cases "fst (GetBackupList h cfg stanza env w)")
    (auto simp: CheckWalArchiveDestination_def)

text \<open>The check of an empty archive does not look whether it is empty: any stanza that exists passes.\<close>

lemma destination_with_backups_passes:
  assumes "GetBackupList h cfg stanza env w = (Ret c, w')" "\<not> StanzaMissing c"
  shows "CheckWalArchiveDestination h cfg stanza env w = (Ret (), w')"
  using assms by (simp add: CheckWalArchiveDestination_def)

definition only_queries :: "'r world \<Rightarrow> 'r world \<Rightarrow> bool" where
  "only_queries w w' \<longleftrightarrow> (\<exists>check. w_ran w' = w_ran w @ check \<and> length check \<le> 1 \<and> (\<forall>a \<in> set check. hd a = ''info''))"

lemma only_queries_refl: "w_ran w' = w_ran w \<Longrightarrow> only_queries w w'"
  by (simp add: only_queries_def)

lemma checkBackupDestination_ran:
  assumes "checkBackupDestination h cn jo impl cluster cfg w = (Ret (), w')"
  shows "only_queries w w'"
proof -
  let ?arch = "\<lambda>env. Archiver_New h env (jh_SpoolDirectory impl) (jh_PgDataPath impl)
      (path_join [jh_PgDataPath impl, CheckEmptyWalArchiveFile])"
  from assms obtain env w1 where
    e: "on_files (EnvSetRestoreCloudCredentials h (cl_Namespace cluster) cfg (SanitizedEnviron h)) w = (Ret env, w1)"
    and k: "(if length env = 0 then (Ret (), w1)
       else bindW (wrapW ''while creating the archiver'' (on_files (?arch env) w1)) (\<lambda>walArchiver w.
           let stanza = stanza_loop cn (cl_Plugins cluster) (cl_Name cluster)
           in if jo_IsEmptyWalArchiveCheckEnabled jo cluster
              then (case CheckWalArchiveDestination h cfg stanza env w of
                      (Fail err, w) \<Rightarrow> ((if errors_is err ErrStanzaMissing then Ret () else Fail err), w)
                    | r \<Rightarrow> r)
              else (Ret (), w))) = (Ret (), w')"
    unfolding checkBackupDestination_def bindW_Ret_iff wrapW_Ret_iff by blast
  have ran1: "w_ran w1 = w_ran w" using e by (auto simp: on_files_Ret_iff)
  show ?thesis
  proof (cases "length env = 0")
    case False
    with k obtain a w2 where a: "on_files (?arch env) w1 = (Ret a, w2)"
      and c: "(let stanza = stanza_loop cn (cl_Plugins cluster) (cl_Name cluster)
           in if jo_IsEmptyWalArchiveCheckEnabled jo cluster
              then (case CheckWalArchiveDestination h cfg stanza env w2 of
                      (Fail err, w) \<Rightarrow> ((if errors_is err ErrStanzaMissing then Ret () else Fail err), w)
                    | r \<Rightarrow> r)
              else (Ret (), w2)) = (Ret (), w')"
      by (auto simp: bindW_Ret_iff wrapW_Ret_iff)
    have ran2: "w_ran w2 = w_ran w" using a ran1 by (auto simp: on_files_Ret_iff)
    show ?thesis
    proof (cases "jo_IsEmptyWalArchiveCheckEnabled jo cluster")
      case True
      let ?stanza = "stanza_loop cn (cl_Plugins cluster) (cl_Name cluster)"
      have "w' = snd (CheckWalArchiveDestination h cfg ?stanza env w2)"
        using c True by (auto simp: Let_def split: prod.splits go.splits if_splits)
      then have "w' = snd (GetBackupList h cfg ?stanza env w2)" by (simp only: CheckWalArchiveDestination_snd)
      with GetBackupList_ran [of h cfg ?stanza env w2] ran2 show ?thesis by (auto simp: only_queries_def)
    qed (use c ran2 in \<open>simp add: only_queries_refl\<close>)
  qed (use k ran1 in \<open>simp add: only_queries_refl\<close>)
qed

lemma Restore_backup_Ret:
  assumes "\<And>argv e f s f' s'. h_pgbackrest h argv e f s \<noteq> (ProcExit 0, f', s')"
    and "Restore_backup h b name stanza env w = (Ret (), w')"
  shows "\<exists>argv. suffix [''restore'', ''--set'', name] argv \<and> w_ran w' = w_ran w @ [argv] \<and> pushed_ok h env argv"
proof -
  obtain argv where o: "GetPgbackrestRestoreOptions b name stanza = Ret argv"
    "suffix [''restore'', ''--set'', name] argv" using restore_flags by blast
  obtain pr f r where e: "h_pgbackrest h argv env (w_fs w) (w_remote w) = (pr, f, r)" by (metis prod.collapse)
  with assms(1) [of argv env "w_fs w" "w_remote w"] assms(2) o obtain out where pr: "pr = ProcOk out"
    by (cases pr) (auto simp: Restore_backup_def run_streaming_def run_pgbackrest_def
        UnmarshalPgbackrestRestoreExitCode_def split: if_splits option.splits)
  have "w_ran w' = w_ran w @ [argv]"
    using o e pr assms(2) by (auto simp: Restore_backup_def run_streaming_def run_pgbackrest_def on_files_Ret_iff)
  with o(2) e pr show ?thesis by (blast intro: pushed_okI)
qed

text \<open>
  C9. A restore that completes restored the right backup: at most one query of the destination was
  run first; the catalog of the recovery stanza was read with the credentials of the recovery
  Archive, the backup was chosen from it by the recovery target, else as the latest one, and the
  last process run restored exactly this backup with the same credentials and ended with success.
\<close>

theorem Job_Restore_success:
  assumes "\<And>argv e f s f' s'. h_pgbackrest h argv e f s \<noteq> (ProcExit 0, f', s')"
    and "Job_Restore h cn mach jo impl clusterDef (w, links) = (Ret config, w', links')"
  shows "\<exists>configuration archive fs0 env fs1 catalog b argv w1 w2.
    NewFromClusterJSON cn clusterDef = Ret configuration
    \<and> h_get_archive h (fst (GetRecoveryArchiveObjectKey configuration)) (snd (GetRecoveryArchiveObjectKey configuration)) = Ret archive
    \<and> only_queries w w1
    \<and> EnvSetRestoreCloudCredentials h (cl_Namespace (pc_Cluster configuration)) (archive_cfg archive) (SanitizedEnviron h) fs0 = (Ret env, fs1)
    \<and> GetBackupList h (archive_cfg archive) (pc_RecoveryStanza configuration) env w1 = (Ret catalog, w2)
    \<and> target_backup mach (pc_Cluster configuration) catalog = Ret (Some b)
    \<and> suffix [''restore'', ''--set'', bk_ID b] argv \<and> pushed_ok h env argv \<and> w_ran w' = w_ran w2 @ [argv]
    \<and> config = getRestoreWalConfig jo"
proof -
  define B where "B = bindW (NewFromClusterJSON cn clusterDef, w) (\<lambda>configuration w.
          bindW (case GetRecoveryArchiveObjectKey configuration of (ns, n) \<Rightarrow> h_get_archive h ns n, w) (\<lambda>recoveryArchive w.
          bindW (check_target h cn jo impl configuration w) (\<lambda>_ w.
          bindW (restore_chosen h mach impl configuration (archive_cfg recoveryArchive) w) (\<lambda>_ w.
            (Ret configuration, w)))))"
  obtain r wx where Bx: "B = (r, wx)" by fastforce
  have "(case (r, wx) of
       (Ret configuration, w) \<Rightarrow>
         if cl_WalStorage (pc_Cluster configuration)
         then (case restoreCustomWalDir h jo impl (w_fs w, links) of
                 (r, fs', links') \<Rightarrow>
                   (bindG r (\<lambda>_. Ret (getRestoreWalConfig jo)), w\<lparr>w_fs := fs'\<rparr>, links'))
         else (Ret (getRestoreWalConfig jo), w, links)
     | (Fail e, w) \<Rightarrow> (Fail e, w, links)
     | (Panic m, w) \<Rightarrow> (Panic m, w, links)) = (Ret config, w', links')"
    using assms(2) Bx by (simp add: Job_Restore_def B_def)
  then obtain configuration where r: "r = Ret configuration" and ran: "w_ran w' = w_ran wx"
    and config: "config = getRestoreWalConfig jo"
    by (cases r) (auto simp: bindG_Ret_iff split: if_splits prod.splits)
  from Bx [unfolded r B_def bindW_Ret_iff prod.inject go.inject split_beta] obtain archive w1 u where
    c: "NewFromClusterJSON cn clusterDef = Ret configuration"
      "h_get_archive h (fst (GetRecoveryArchiveObjectKey configuration)) (snd (GetRecoveryArchiveObjectKey configuration)) = Ret archive"
    and t: "check_target h cn jo impl configuration w = (Ret u, w1)"
    and k: "\<exists>u. restore_chosen h mach impl configuration (archive_cfg archive) w1 = (Ret u, wx)"
    by blast
  have queries: "only_queries w w1"
  proof (cases "pc_PgbackrestObjectName configuration = ''''")
    case False
    with t show ?thesis
      by (auto simp: check_target_def bindW_Ret_iff intro: checkBackupDestination_ran)
  qed (use t in \<open>simp add: check_target_def only_queries_refl\<close>)
  from k obtain backup env w3 where
    l: "loadBackupObjectFromExternalCluster h mach (pc_Cluster configuration) (archive_cfg archive)
          (pc_RecoveryStanza configuration) w1 = (Ret (backup, env), w3)"
    and d: "restoreDataDir h impl backup env (archive_cfg archive) w3 = (Ret (), wx)"
    by (auto simp: restore_chosen_def bindW_Ret_iff)
  from l obtain env' w2 catalog target w3' where
    e: "on_files (EnvSetRestoreCloudCredentials h (cl_Namespace (pc_Cluster configuration)) (archive_cfg archive) (SanitizedEnviron h)) w1 = (Ret env', w2)"
    and g: "GetBackupList h (archive_cfg archive) (pc_RecoveryStanza configuration) env' w2 = (Ret catalog, w3')"
    and b: "target_backup mach (pc_Cluster configuration) catalog = Ret (Some target)"
    and backup: "jb_BackupID backup = bk_ID target" "env = env'" "w3 = w3'"
    by (auto simp: loadBackupObjectFromExternalCluster_def bindW_Ret_iff split: option.splits)
  from e obtain fs1 where e1: "EnvSetRestoreCloudCredentials h (cl_Namespace (pc_Cluster configuration)) (archive_cfg archive)
      (SanitizedEnviron h) (w_fs w1) = (Ret env', fs1)" and w2: "w2 = w1\<lparr>w_fs := fs1\<rparr>" by (auto simp: on_files_Ret_iff)
  have q2: "only_queries w w2" using queries w2 by (simp add: only_queries_def)
  from Restore_backup_Ret [OF assms(1) d [unfolded restoreDataDir_def]] obtain argv where
    a: "suffix [''restore'', ''--set'', bk_ID target] argv" "w_ran wx = w_ran w3' @ [argv]" "pushed_ok h env' argv"
    using backup by auto
  show ?thesis
    by (intro exI conjI) (rule c e1 q2 g b a a(2) [folded ran] config)+
qed

lemma bindW_Ret_last: "bindW x f = (Ret r, s) \<Longrightarrow> \<exists>a s'. f a s' = (Ret r, s)"
  by (auto simp: bindW_Ret_iff)

text \<open>
  C27. Moving the WAL directory to its volume: when the step succeeds, the WAL directory is a link
  to the volume, and repeating the step finds that and changes nothing.
\<close>

theorem restoreCustomWalDir_once:
  assumes "restoreCustomWalDir h jo impl (fs, links) = (Ret moved, fs', links')"
  shows "os_Readlink (path_join [jh_PgDataPath impl, ''pg_wal'']) links' = jh_PgWalFolderToSymlink impl
    \<and> restoreCustomWalDir h jo impl (fs', links') = (Ret False, fs', links')
    \<and> (moved = False \<longrightarrow> fs' = fs \<and> links' = links)"
proof -
  let ?p = "path_join [jh_PgDataPath impl, ''pg_wal'']"
  have sym: "fst (os_Symlink t p f l) = Ret u \<Longrightarrow> os_Readlink p (snd (os_Symlink t p f l)) = t" for t p f l u
    by (auto simp: os_Symlink_def os_Readlink_def split: if_splits)
  have last: "(case os_Symlink t p f l of (Ret x, l') \<Rightarrow> (Ret True, f, l') | (Fail e, l') \<Rightarrow> (Fail e, f, l')
      | (Panic m, l') \<Rightarrow> (Panic m, f, l')) = (Ret moved, fs', links') \<Longrightarrow> moved \<and> os_Readlink p links' = t" for t p f l
    using sym [of t p f l] by (cases "os_Symlink t p f l"; cases "fst (os_Symlink t p f l)") auto
  have "os_Readlink ?p links' = jh_PgWalFolderToSymlink impl \<and> (moved = False \<longrightarrow> fs' = fs \<and> links' = links)"
  proof (cases "os_Readlink ?p links = jh_PgWalFolderToSymlink impl")
    case False
    with assms have "\<exists>f l. (case os_Symlink (jh_PgWalFolderToSymlink impl) ?p f l of (Ret x, l') \<Rightarrow> (Ret True, f, l')
        | (Fail e, l') \<Rightarrow> (Fail e, f, l') | (Panic m, l') \<Rightarrow> (Panic m, f, l')) = (Ret moved, fs', links')"
      by (auto simp: restoreCustomWalDir_def Let_def dest!: bindW_Ret_last)
    then show ?thesis using last by blast
  qed (use assms in \<open>simp add: restoreCustomWalDir_def Let_def\<close>)
  then show ?thesis by (simp add: restoreCustomWalDir_def Let_def)
qed


section \<open>Examples\<close>

definition recovery_cluster :: Cluster where
  "recovery_cluster = cluster_example\<lparr>cl_Bootstrap := Some (Some \<lparr>br_Source = '''', br_RecoveryTarget = None\<rparr>),
     cl_WalStorage := True\<rparr>"

definition recovery_cnpg :: cnpg where
  "recovery_cnpg = cnpg_example\<lparr>cn_DecodeCluster := (\<lambda>s. Ret recovery_cluster)\<rparr>"

definition recovery_backups :: "PgbackrestBackup list" where
  "recovery_backups = [zero_backup\<lparr>bk_ID := ''F1'', bk_Time := \<lparr>time_Start = 1, time_Stop = 2\<rparr>\<rparr>,
     zero_backup\<lparr>bk_ID := ''F2'', bk_Time := \<lparr>time_Start = 3, time_Stop = 4\<rparr>\<rparr>]"

definition recovery_host :: "unit host" where
  "recovery_host = info_host\<lparr>h_get_secret := secrets_example, h_get_archive := (\<lambda>ns n. Ret archive_example),
     h_parse_json := (\<lambda>s. Some (JArr [report_catalog [] (zero_catalog\<lparr>cat_Backups := recovery_backups\<rparr>)]))\<rparr>"

definition job_example :: job_host where
  "job_example = \<lparr>jo_IsEmptyWalArchiveCheckEnabled = (\<lambda>c. True), jo_EnsureParentDirectoryExists = (\<lambda>p fs. (Ret (), fs)),
     jo_MoveDirectoryContent = (\<lambda>a b fs. (Ret (), fs)), jo_LogPath = ''/controller/log'', jo_LogFileName = ''postgres''\<rparr>"

definition impl_example :: JobHookImpl where
  "impl_example = \<lparr>jh_SpoolDirectory = ''/controller/spool'', jh_PgDataPath = ''/pg'', jh_PgWalFolderToSymlink = ''/wal''\<rparr>"

definition job_fs :: fs where
  "job_fs = \<lparr>fs_nodes = [(''/'', Dir), (''/controller'', Dir), (''/controller/certificates'', Dir),
     (''/pg'', Dir), (''/pg/pg_wal'', Dir), (''/wal'', Dir)], fs_denied = []\<rparr>"

theorem restoreCustomWalDir_once_witness:
  "\<exists>fs' links'. restoreCustomWalDir recovery_host job_example impl_example (job_fs, []) = (Ret True, fs', links')
     \<and> restoreCustomWalDir recovery_host job_example impl_example (fs', links') = (Ret False, fs', links')"
proof -
  let ?r = "restoreCustomWalDir recovery_host job_example impl_example (job_fs, [])"
  have "fst ?r = Ret True" by code_simp
  then obtain fs' links' where "?r = (Ret True, fs', links')" by (cases ?r) auto
  with restoreCustomWalDir_once [OF this] show ?thesis by blast
qed

lemma decode_recovery:
  "GetBackupList recovery_host cfg stanza env w = (Ret cat, w2) \<Longrightarrow> cat = zero_catalog\<lparr>cat_Backups := recovery_backups\<rparr>"
proof -
  have "store_list store_catalog zero_catalog (JArr [report_catalog [] (zero_catalog\<lparr>cat_Backups := recovery_backups\<rparr>)]) []
      = Some [zero_catalog\<lparr>cat_Backups := recovery_backups\<rparr>]" by code_simp
  then have "NewCatalogFromPgbackrestInfo (h_parse_json recovery_host) raw = Ret (zero_catalog\<lparr>cat_Backups := recovery_backups\<rparr>)" for raw
    by (simp add: NewCatalogFromPgbackrestInfo_def recovery_host_def)
  moreover assume "GetBackupList recovery_host cfg stanza env w = (Ret cat, w2)"
  ultimately show ?thesis by (auto simp: GetBackupList_def executeQueryCommand_def bindW_Ret_iff)
qed

theorem Job_Restore_success_witness:
  "\<exists>config w' links'. Job_Restore recovery_host recovery_cnpg mach_example job_example impl_example []
       (\<lparr>w_fs = job_fs, w_remote = (), w_ran = []\<rparr>, []) = (Ret config, w', links')
     \<and> sublist [''restore'', ''--set'', ''F2''] (last (w_ran w'))"
proof -
  let ?r = "Job_Restore recovery_host recovery_cnpg mach_example job_example impl_example []
       (\<lparr>w_fs = job_fs, w_remote = (), w_ran = []\<rparr>, [])"
  have "returns (fst ?r)" by code_simp
  then obtain config w' links' where r: "?r = (Ret config, w', links')" by (cases ?r; cases "fst ?r") auto
  have p: "h_pgbackrest recovery_host argv e f s \<noteq> (ProcExit 0, f', s')" for argv e f s f' s'
    by (simp add: recovery_host_def info_host_def)
  have c: "NewFromClusterJSON recovery_cnpg [] = Ret (NewFromCluster recovery_cnpg recovery_cluster)"
    by (simp add: NewFromClusterJSON_def recovery_cnpg_def)
  have b: "target_backup mach_example recovery_cluster (zero_catalog\<lparr>cat_Backups := recovery_backups\<rparr>) = Ret (Some (recovery_backups ! 1))"
    by code_simp
  have n: "bk_ID (recovery_backups ! 1) = ''F2''" by (simp add: recovery_backups_def)
  have cl: "pc_Cluster (NewFromCluster cn c) = c" for cn c by (simp add: NewFromCluster_def Let_def)
  from Job_Restore_success [OF p r] obtain catalog b argv w1 w2 cfg stanza env where
    "GetBackupList recovery_host cfg stanza env w1 = (Ret catalog, w2)"
    "target_backup mach_example recovery_cluster catalog = Ret (Some b)"
    "suffix [''restore'', ''--set'', bk_ID b] argv" "w_ran w' = w_ran w2 @ [argv]"
    unfolding c go.inject by (metis cl)
  with decode_recovery b n have "suffix [''restore'', ''--set'', ''F2''] (last (w_ran w'))" by auto
  then show ?thesis using r suffix_imp_sublist by blast
qed

end
