(* ===== verification/Extended_Client.thy ===== *)
theory Extended_Client
  imports Go_Prelude
begin

text \<open>
  The caching API client of an instance
  (\<^verbatim>\<open>internal/cnpgi/instance/internal/client/client.go\<close>). The client it wraps is a
  parameter: what it answers at each instant, and how it writes. Times are in nanoseconds since the
  epoch. Objects are values here; \<open>Client_Memory\<close> has the same client over memory, where it copies and
  assigns structs, and shows that it does what this one does. The mutex makes each lookup and each removal one step.
\<close>

section \<open>The cache\<close>

datatype object_kind = Secret_Kind | Archive_Kind | Other_Kind string

record 'd object =
  ob_Kind :: object_kind
  ob_Namespace :: string
  ob_Name :: string
  ob_Data :: 'd

type_synonym object_key = "object_kind \<times> string \<times> string"

definition object_key :: "'d object \<Rightarrow> object_key" where
  "object_key obj = (ob_Kind obj, ob_Namespace obj, ob_Name obj)"

record 'd cachedEntry =
  cache_entry :: "'d object"
  cache_fetchUnixTime :: int
  cache_ttl :: int

definition DefaultTTLSeconds :: int where "DefaultTTLSeconds = 10"

definition Second :: int where "Second = 1000000000"

definition isExpired :: "int \<Rightarrow> 'd cachedEntry \<Rightarrow> bool" where
  "isExpired now e \<longleftrightarrow> now - cache_fetchUnixTime e * Second > cache_ttl e"

definition isObjectCached :: "object_kind \<Rightarrow> bool" where
  "isObjectCached k \<longleftrightarrow> k = Secret_Kind \<or> k = Archive_Kind"

datatype 'd cache_hit = Fresh "'d object" | Expired nat | Missing

fun cache_lookup :: "int \<Rightarrow> object_key \<Rightarrow> nat \<Rightarrow> 'd cachedEntry list \<Rightarrow> 'd cache_hit" where
  "cache_lookup now (kind, ns, name) idx [] = Missing"
| "cache_lookup now (kind, ns, name) idx (e # es) =
     (if ob_Namespace (cache_entry e) \<noteq> ns \<or> ob_Name (cache_entry e) \<noteq> name
      then cache_lookup now (kind, ns, name) (idx + 1) es
      else if ob_Kind (cache_entry e) \<noteq> kind then cache_lookup now (kind, ns, name) (idx + 1) es
      else if isExpired now e then Expired idx
      else Fresh (cache_entry e))"

text \<open>
  \<open>answer\<close> is what the wrapped client gives for the key, \<open>now\<close> the instant of the lookup and
  \<open>received\<close> the one after the answer came.
\<close>

definition getCachedObject ::
  "int \<Rightarrow> int \<Rightarrow> (object_key \<Rightarrow> 'd object go) \<Rightarrow> object_key \<Rightarrow> 'd cachedEntry list \<Rightarrow>
   'd object go \<times> 'd cachedEntry list" where
  "getCachedObject now received answer key cachedObjects =
     (case cache_lookup now key 0 cachedObjects of
        Fresh obj \<Rightarrow> (Ret obj, cachedObjects)
      | hit \<Rightarrow>
          (case answer key of
             Ret obj \<Rightarrow>
               let cs = \<lparr>cache_entry = obj, cache_fetchUnixTime = received div Second,
                         cache_ttl = DefaultTTLSeconds * Second\<rparr>
               in (Ret obj,
                   (case hit of Expired idx \<Rightarrow> cachedObjects[idx := cs] | _ \<Rightarrow> cachedObjects @ [cs]))
           | r \<Rightarrow> (r, cachedObjects)))"

definition Client_Get ::
  "int \<Rightarrow> int \<Rightarrow> (object_key \<Rightarrow> 'd object go) \<Rightarrow> object_key \<Rightarrow> 'd cachedEntry list \<Rightarrow>
   'd object go \<times> 'd cachedEntry list" where
  "Client_Get now received answer key cachedObjects =
     (if \<not> isObjectCached (fst key) then (answer key, cachedObjects)
      else getCachedObject now received answer key cachedObjects)"

fun removeObject :: "'d object \<Rightarrow> 'd cachedEntry list \<Rightarrow> 'd cachedEntry list" where
  "removeObject obj [] = []"
| "removeObject obj (e # es) =
     (if ob_Namespace (cache_entry e) = ob_Namespace obj \<and> ob_Name (cache_entry e) = ob_Name obj
         \<and> ob_Kind (cache_entry e) = ob_Kind obj
      then es else e # removeObject obj es)"

text \<open>Update, Delete and Patch: forget the object, then write with the wrapped client.\<close>

definition forget :: "'d object \<Rightarrow> 'd cachedEntry list \<Rightarrow> 'd cachedEntry list" where
  "forget obj cachedObjects =
     (if isObjectCached (ob_Kind obj) then removeObject obj cachedObjects else cachedObjects)"

definition Client_Update ::
  "('d object \<Rightarrow> 's \<Rightarrow> unit go \<times> 's) \<Rightarrow> 'd object \<Rightarrow> 's \<Rightarrow> 'd cachedEntry list \<Rightarrow>
   unit go \<times> 's \<times> 'd cachedEntry list" where
  "Client_Update update obj s cachedObjects =
     (let cachedObjects = forget obj cachedObjects; (r, s) = update obj s in (r, s, cachedObjects))"

definition Client_Delete ::
  "('d object \<Rightarrow> 's \<Rightarrow> unit go \<times> 's) \<Rightarrow> 'd object \<Rightarrow> 's \<Rightarrow> 'd cachedEntry list \<Rightarrow>
   unit go \<times> 's \<times> 'd cachedEntry list" where
  "Client_Delete del obj s cachedObjects =
     (let cachedObjects = forget obj cachedObjects; (r, s) = del obj s in (r, s, cachedObjects))"

definition Client_Patch ::
  "('d object \<Rightarrow> 'p \<Rightarrow> 's \<Rightarrow> unit go \<times> 's) \<Rightarrow> 'd object \<Rightarrow> 'p \<Rightarrow> 's \<Rightarrow> 'd cachedEntry list \<Rightarrow>
   unit go \<times> 's \<times> 'd cachedEntry list" where
  "Client_Patch patch obj p s cachedObjects =
     (let cachedObjects = forget obj cachedObjects; (r, s) = patch obj p s in (r, s, cachedObjects))"

definition NewExtendedClient :: "'d cachedEntry list" where
  "NewExtendedClient = []"

section \<open>The invariant of the cache\<close>

abbreviation entry_key :: "'d cachedEntry \<Rightarrow> object_key" where
  "entry_key e \<equiv> object_key (cache_entry e)"

text \<open>
  At most one entry for an object; every entry is what the wrapped client answered for its own key
  at an instant of the second it is stamped with, which has passed.
\<close>

definition cache_ok :: "(int \<Rightarrow> object_key \<Rightarrow> 'd object go) \<Rightarrow> int \<Rightarrow> 'd cachedEntry list \<Rightarrow> bool" where
  "cache_ok api now es \<longleftrightarrow> distinct (map entry_key es)
     \<and> (\<forall>e \<in> set es. cache_ttl e = DefaultTTLSeconds * Second
          \<and> (\<exists>t \<le> now. api t (entry_key e) = Ret (cache_entry e) \<and> cache_fetchUnixTime e = t div Second))"

text \<open>The wrapped client answers with the object that was asked for.\<close>

definition answers_ok :: "(int \<Rightarrow> object_key \<Rightarrow> 'd object go) \<Rightarrow> bool" where
  "answers_ok api \<longleftrightarrow> (\<forall>t key obj. api t key = Ret obj \<longrightarrow> object_key obj = key)"

lemma cache_ok_later: "cache_ok api now es \<Longrightarrow> now \<le> now' \<Longrightarrow> cache_ok api now' es"
  unfolding cache_ok_def by (meson order_trans)

lemma cache_lookup_cases:
  "(\<exists>e \<in> set es. cache_lookup now key i es = Fresh (cache_entry e) \<and> entry_key e = key \<and> \<not> isExpired now e)
   \<or> (\<exists>j < length es. cache_lookup now key i es = Expired (i + j) \<and> entry_key (es ! j) = key \<and> isExpired now (es ! j))
   \<or> (cache_lookup now key i es = Missing \<and> key \<notin> entry_key ` set es)"
proof (induction now key i es rule: cache_lookup.induct)
  case (2 now kind ns name i e es)
  show ?case
  proof (cases "entry_key e = (kind, ns, name)")
    case True
    then show ?thesis
      by (cases "isExpired now e") (auto simp: object_key_def intro: exI [of _ 0])
  next
    case False
    then have l: "cache_lookup now (kind, ns, name) i (e # es) = cache_lookup now (kind, ns, name) (i + 1) es"
      by (auto simp: object_key_def)
    have "(\<exists>e \<in> set es. cache_lookup now (kind, ns, name) (i + 1) es = Fresh (cache_entry e)
          \<and> entry_key e = (kind, ns, name) \<and> \<not> isExpired now e)
       \<or> (\<exists>j < length es. cache_lookup now (kind, ns, name) (i + 1) es = Expired (i + 1 + j)
          \<and> entry_key (es ! j) = (kind, ns, name) \<and> isExpired now (es ! j))
       \<or> (cache_lookup now (kind, ns, name) (i + 1) es = Missing \<and> (kind, ns, name) \<notin> entry_key ` set es)"
      using 2 False by (cases "ob_Namespace (cache_entry e) \<noteq> ns \<or> ob_Name (cache_entry e) \<noteq> name")
        (auto simp: object_key_def)
    then show ?thesis
    proof (elim disjE bexE exE conjE)
      fix j assume "j < length es" "cache_lookup now (kind, ns, name) (i + 1) es = Expired (i + 1 + j)"
        "entry_key (es ! j) = (kind, ns, name)" "isExpired now (es ! j)"
      then have "Suc j < length (e # es) \<and> cache_lookup now (kind, ns, name) i (e # es) = Expired (i + Suc j)
          \<and> entry_key ((e # es) ! Suc j) = (kind, ns, name) \<and> isExpired now ((e # es) ! Suc j)"
        using l by simp
      then show ?thesis by blast
    qed (use l False in \<open>auto\<close>)
  qed
qed simp

lemma removeObject_keys:
  "distinct (map entry_key es) \<Longrightarrow> set (removeObject obj es) = {e \<in> set es. entry_key e \<noteq> object_key obj}
     \<and> distinct (map entry_key (removeObject obj es))"
proof (induction es)
  case (Cons e es)
  show ?case
  proof (cases "entry_key e = object_key obj")
    case True
    then have "removeObject obj (e # es) = es" by (auto simp: object_key_def)
    moreover have "\<forall>x \<in> set es. entry_key x \<noteq> entry_key e" using Cons.prems by simp (metis imageI)
    ultimately show ?thesis using True Cons.prems by auto
  next
    case False
    then have "removeObject obj (e # es) = e # removeObject obj es" by (auto simp: object_key_def)
    with False Cons show ?thesis by auto
  qed
qed simp

lemma forget_ok:
  assumes "cache_ok api now es"
  shows "cache_ok api now (forget obj es)"
  using assms removeObject_keys [of es obj] by (auto simp: cache_ok_def forget_def)

lemma getCachedObject_ok:
  assumes "cache_ok api now es" "answers_ok api" "now \<le> received"
    and "getCachedObject now received (api received) key es = (r, es')"
  shows "cache_ok api received es'"
    and "r = Ret obj \<Longrightarrow> \<exists>t \<le> received. api t key = Ret obj \<and> now - t \<le> DefaultTTLSeconds * Second"
    and "key \<notin> entry_key ` set es \<Longrightarrow> r = api received key"
proof -
  let ?cs = "\<lambda>obj. \<lparr>cache_entry = obj, cache_fetchUnixTime = received div Second, cache_ttl = DefaultTTLSeconds * Second\<rparr>"
  have later: "cache_ok api received es" using assms(1,3) by (rule cache_ok_later)
  have pos: "0 \<le> DefaultTTLSeconds * Second" by (simp add: DefaultTTLSeconds_def Second_def)
  have "cache_ok api received es' \<and> (r = Ret obj \<longrightarrow> (\<exists>t \<le> received. api t key = Ret obj \<and> now - t \<le> DefaultTTLSeconds * Second))
      \<and> (key \<notin> entry_key ` set es \<longrightarrow> r = api received key)" for obj
    using cache_lookup_cases [of es now key 0]
  proof (elim disjE bexE exE conjE)
    fix e assume e: "e \<in> set es" "cache_lookup now key 0 es = Fresh (cache_entry e)" "entry_key e = key" "\<not> isExpired now e"
    then have r: "r = Ret (cache_entry e)" "es' = es" using assms(4) by (simp_all add: getCachedObject_def)
    from e(1,3) assms(1) obtain t where t: "t \<le> now" "api t key = Ret (cache_entry e)" "cache_fetchUnixTime e = t div Second"
      "cache_ttl e = DefaultTTLSeconds * Second" by (auto simp: cache_ok_def)
    have "t div Second * Second \<le> t" by (simp add: Second_def)
    with e(4) t(3,4) have "now - t \<le> DefaultTTLSeconds * Second" by (simp add: isExpired_def)
    with r t e(1,3) later assms(3) show ?thesis by (auto intro: exI [of _ t])
  next
    fix j assume j: "j < length es" "cache_lookup now key 0 es = Expired (0 + j)" "entry_key (es ! j) = key"
    then have "key \<in> entry_key ` set es" by (metis imageI nth_mem)
    moreover have "cache_ok api received (es[j := ?cs obj'])" if "api received key = Ret obj'" for obj'
    proof -
      have "object_key obj' = key" using assms(2) that unfolding answers_ok_def by blast
      then have "(map entry_key es)[j := object_key obj'] = map entry_key es"
        using j(1,3) by (metis list_update_id nth_map)
      then have "map entry_key (es[j := ?cs obj']) = map entry_key es" by (simp only: map_update cachedEntry.select_convs)
      moreover have "x = ?cs obj' \<or> x \<in> set es" if "x \<in> set (es[j := ?cs obj'])" for x
        using that set_update_subset_insert [of es j "?cs obj'"] by blast
      ultimately show ?thesis using later that \<open>object_key obj' = key\<close>
        unfolding cache_ok_def by (metis (no_types, lifting) cachedEntry.select_convs order_refl)
    qed
    ultimately show ?thesis using assms(3,4) j later pos
      by (cases "api received key") (auto simp: getCachedObject_def Let_def intro: exI [of _ received])
  next
    assume m: "cache_lookup now key 0 es = Missing" "key \<notin> entry_key ` set es"
    have "cache_ok api received (es @ [?cs obj'])" if "api received key = Ret obj'" for obj'
    proof -
      have "object_key obj' = key" using assms(2) that unfolding answers_ok_def by blast
      with later that m(2) show ?thesis by (auto simp: cache_ok_def intro: exI [of _ received])
    qed
    then show ?thesis using assms(3,4) m later pos
      by (cases "api received key") (auto simp: getCachedObject_def Let_def intro: exI [of _ received])
  qed
  then show "cache_ok api received es'"
    and "r = Ret obj \<Longrightarrow> \<exists>t \<le> received. api t key = Ret obj \<and> now - t \<le> DefaultTTLSeconds * Second"
    and "key \<notin> entry_key ` set es \<Longrightarrow> r = api received key" by blast+
qed

section \<open>Runs of the client\<close>

text \<open>
  The states a client can reach while time passes: lookups, each taking some time, and removals, in
  any order. \<open>api\<close> is the history of what the wrapped client answers.
\<close>

inductive client_step ::
  "(int \<Rightarrow> object_key \<Rightarrow> 'd object go) \<Rightarrow> int \<times> 'd cachedEntry list \<Rightarrow> int \<times> 'd cachedEntry list \<Rightarrow> bool" for api where
  client_wait: "now \<le> later \<Longrightarrow> client_step api (now, es) (later, es)"
| client_get: "now \<le> received \<Longrightarrow>
     client_step api (now, es) (received, snd (Client_Get now received (api received) key es))"
| client_forget: "client_step api (now, es) (now, forget obj es)"

inductive_cases client_stepE: "client_step api (now, es) t"

definition client_run :: "(int \<Rightarrow> object_key \<Rightarrow> 'd object go) \<Rightarrow> int \<Rightarrow> 'd cachedEntry list \<Rightarrow> bool" where
  "client_run api now es \<longleftrightarrow> (\<exists>start. (client_step api)\<^sup>*\<^sup>* (start, NewExtendedClient) (now, es))"

lemma run_new: "client_run api now NewExtendedClient"
  by (auto simp: client_run_def)

lemma run_step: "client_run api now es \<Longrightarrow> client_step api (now, es) (later, es') \<Longrightarrow> client_run api later es'"
  by (auto simp: client_run_def intro: rtranclp.rtrancl_into_rtrancl)

interpretation client_runs: step_invariant "client_step api" "\<lambda>(now, es). answers_ok api \<longrightarrow> cache_ok api now es" for api
proof
  fix s t assume inv: "case s of (now, es) \<Rightarrow> answers_ok api \<longrightarrow> cache_ok api now es" and step: "client_step api s t"
  obtain now es where s: "s = (now, es)" by fastforce
  from step [unfolded s] show "case t of (now, es) \<Rightarrow> answers_ok api \<longrightarrow> cache_ok api now es"
  proof (elim client_stepE)
    fix received key
    assume t: "t = (received, snd (Client_Get now received (api received) key es))" "now \<le> received"
    obtain r es' where g: "getCachedObject now received (api received) key es = (r, es')" by fastforce
    with inv s t getCachedObject_ok(1) [of api now es received] cache_ok_later [of api now es received] show ?thesis
      by (simp add: Client_Get_def)
  qed (use inv s cache_ok_later forget_ok in \<open>auto\<close>)
qed

lemma client_run_ok: "client_run api now es \<Longrightarrow> answers_ok api \<Longrightarrow> cache_ok api now es"
  using client_runs.run_inv by (fastforce simp: client_run_def cache_ok_def NewExtendedClient_def)

text \<open>
  C14. In every run of the client the cache holds an object at most once, and a read of any kind of
  object gives what the wrapped client answered for it no more than ten seconds before the read.
\<close>

theorem Client_Get_recent:
  assumes "client_run api now es" "answers_ok api" "now \<le> received"
    and "Client_Get now received (api received) key es = (Ret obj, es')"
  shows "distinct (map entry_key es) \<and> object_key obj = key
    \<and> (\<exists>t \<le> received. api t key = Ret obj \<and> now - t \<le> 10 * Second)"
proof -
  note ok = client_run_ok [OF assms(1,2)]
  have "\<exists>t \<le> received. api t key = Ret obj \<and> now - t \<le> 10 * Second"
  proof (cases "isObjectCached (fst key)")
    case True
    then have "getCachedObject now received (api received) key es = (Ret obj, es')" using assms(4) by (simp add: Client_Get_def)
    from getCachedObject_ok(2) [OF ok assms(2,3) this refl] show ?thesis by (simp add: DefaultTTLSeconds_def)
  next
    case False
    then have "api received key = Ret obj" using assms(4) by (simp add: Client_Get_def)
    then show ?thesis using assms(3) by (intro exI [of _ received]) (simp add: Second_def)
  qed
  moreover from this have "object_key obj = key" using assms(2) unfolding answers_ok_def by blast
  ultimately show ?thesis using ok by (simp add: cache_ok_def)
qed

text \<open>
  C28. The client reads its own writes: when an object has been written with the client, a read of
  it that follows, with nothing read in between, is answered by the wrapped client and not from the
  cache.
\<close>

theorem Client_Update_read_back:
  assumes "client_run api now es" "answers_ok api" "now \<le> received"
    and "Client_Update update obj s es = (r, s', es')"
  shows "fst (Client_Get now received (api received) (object_key obj) es') = api received (object_key obj)"
proof -
  have es': "es' = forget obj es" using assms(4) by (simp add: Client_Update_def Let_def split_beta)
  note ok = client_run_ok [OF assms(1,2)]
  have "object_key obj \<notin> entry_key ` set es'" if "isObjectCached (ob_Kind obj)"
    using that ok removeObject_keys [of es obj] by (auto simp: es' forget_def cache_ok_def)
  moreover obtain r' es2 where "getCachedObject now received (api received) (object_key obj) es' = (r', es2)" by fastforce
  ultimately show ?thesis
    using getCachedObject_ok(3) [OF forget_ok [OF ok] assms(2,3), of "object_key obj" obj] es'
    by (auto simp: Client_Get_def object_key_def)
qed

section \<open>Examples\<close>

text \<open>An API that holds every object, and counts the seconds in it.\<close>

definition api_example :: "int \<Rightarrow> object_key \<Rightarrow> int object go" where
  "api_example t key = (case key of (k, ns, n) \<Rightarrow>
     Ret \<lparr>ob_Kind = k, ob_Namespace = ns, ob_Name = n, ob_Data = t div Second\<rparr>)"

definition secret_key :: object_key where
  "secret_key = (Secret_Kind, ''ns'', ''s3'')"

definition cache_at_3 :: "int cachedEntry list" where
  "cache_at_3 = snd (Client_Get (3 * Second) (3 * Second) (api_example (3 * Second)) secret_key [])"

lemma api_example_ok: "answers_ok api_example"
  by (auto simp: answers_ok_def api_example_def object_key_def)

lemma cache_at_3_run: "client_run api_example (3 * Second) cache_at_3"
  unfolding cache_at_3_def
  by (rule run_step [OF run_new client_get, unfolded NewExtendedClient_def]) simp

theorem Client_Get_recent_witness:
  "\<exists>obj es'. Client_Get (12 * Second) (12 * Second) (api_example (12 * Second)) secret_key cache_at_3 = (Ret obj, es')
     \<and> ob_Data obj = 3 \<and> object_key obj = secret_key"
proof -
  let ?r = "Client_Get (12 * Second) (12 * Second) (api_example (12 * Second)) secret_key cache_at_3"
  have "returns (fst ?r)" "(case fst ?r of Ret obj \<Rightarrow> ob_Data obj | _ \<Rightarrow> 0) = 3" by code_simp+
  then obtain obj es' where r: "?r = (Ret obj, es')" "ob_Data obj = 3" by (cases ?r; cases "fst ?r") auto
  have "client_run api_example (12 * Second) cache_at_3"
    by (rule run_step [OF cache_at_3_run client_wait]) (simp add: Second_def)
  from Client_Get_recent [OF this api_example_ok order_refl r(1)] r show ?thesis by blast
qed

definition written_example :: "int object" where
  "written_example = \<lparr>ob_Kind = Secret_Kind, ob_Namespace = ''ns'', ob_Name = ''s3'', ob_Data = 7\<rparr>"

theorem Client_Update_read_back_witness:
  "\<exists>es'. Client_Update (\<lambda>obj s. (Ret (), s)) written_example () cache_at_3 = (Ret (), (), es')
     \<and> fst (Client_Get (3 * Second) (4 * Second) (api_example (4 * Second)) secret_key es')
        = api_example (4 * Second) secret_key"
proof -
  obtain es' where u: "Client_Update (\<lambda>obj s. (Ret (), s)) written_example () cache_at_3 = (Ret (), (), es')"
    by (simp add: Client_Update_def Let_def)
  have "3 * Second \<le> 4 * Second" by (simp add: Second_def)
  from Client_Update_read_back [OF cache_at_3_run api_example_ok this u]
  have "fst (Client_Get (3 * Second) (4 * Second) (api_example (4 * Second)) secret_key es')
        = api_example (4 * Second) secret_key"
    by (simp add: written_example_def object_key_def secret_key_def)
  with u show ?thesis by blast
qed

text \<open>
  The removal and the write are two steps. A read by another goroutine that falls between them
  stores the old object again, and reads after the write get it until it expires.
\<close>

lemma stale_after_interleaved_read:
  "let es1 = forget written_example cache_at_3;
       es2 = snd (Client_Get (4 * Second) (4 * Second) (api_example (4 * Second)) secret_key es1)
   in (case fst (Client_Get (13 * Second) (13 * Second) (api_example (13 * Second)) secret_key es2) of
         Ret obj \<Rightarrow> ob_Data obj | _ \<Rightarrow> 0) = 4"
  by code_simp

end
