(* ===== verification/Processes.thy ===== *)
theory Processes
  imports Lifecycle Wal_Service Instance_Backup Restore_Job Extended_Client
begin

text \<open>
  The processes of the plugin (\<^verbatim>\<open>cmd/manager\<close>, \<^verbatim>\<open>internal/cmd\<close> and the
  \<^verbatim>\<open>identity.go\<close>, \<^verbatim>\<open>manager.go\<close> and \<^verbatim>\<open>start.go\<close> files):
  the settings each command requires, the servers it registers and what it says of itself, and the
  health check. The settings come from \<^verbatim>\<open>viper\<close>, the managers from
  controller-runtime, the connection from gRPC: these are parameters.
\<close>

section \<open>What a process says of itself\<close>

datatype plugin_service =
  TYPE_WAL_SERVICE | TYPE_BACKUP_SERVICE | TYPE_RESTORE_JOB | TYPE_RECONCILER_HOOKS | TYPE_LIFECYCLE_SERVICE

record identity =
  id_Metadata :: GetPluginMetadataResponse
  id_Capabilities :: "plugin_service list"
  id_Ready :: bool

definition instance_identity :: identity where
  "instance_identity =
     \<lparr>id_Metadata = Data, id_Capabilities = [TYPE_WAL_SERVICE, TYPE_BACKUP_SERVICE], id_Ready = True\<rparr>"

definition restore_identity :: identity where
  "restore_identity =
     \<lparr>id_Metadata = Data, id_Capabilities = [TYPE_RESTORE_JOB, TYPE_WAL_SERVICE], id_Ready = True\<rparr>"

definition operator_identity :: identity where
  "operator_identity =
     \<lparr>id_Metadata = Data, id_Capabilities = [TYPE_RECONCILER_HOOKS, TYPE_LIFECYCLE_SERVICE], id_Ready = True\<rparr>"

section \<open>The servers\<close>

datatype server =
    WAL_Server WALServiceImplementation
  | Backup_Server BackupServiceImplementation
  | Restore_Job_Server JobHookImpl
  | Reconciler_Server
  | Lifecycle_Server
  | Health_Server

record http_server =
  hs_Identity :: identity
  hs_Enrichers :: "server list"
  hs_PluginPath :: string
  hs_ServerCertPath :: string
  hs_ServerKeyPath :: string
  hs_ClientCertPath :: string
  hs_ServerAddress :: string

definition plain_server :: "identity \<Rightarrow> server list \<Rightarrow> string \<Rightarrow> http_server" where
  "plain_server ident servers path = \<lparr>hs_Identity = ident, hs_Enrichers = servers, hs_PluginPath = path,
     hs_ServerCertPath = [], hs_ServerKeyPath = [], hs_ClientCertPath = [], hs_ServerAddress = []\<rparr>"

record instance_CNPGI =
  ic_PGDataPath :: string
  ic_PGWALPath :: string
  ic_SpoolDirectory :: string
  ic_PluginPath :: string
  ic_InstanceName :: string

definition instance_CNPGI_Start :: "instance_CNPGI \<Rightarrow> http_server" where
  "instance_CNPGI_Start c = plain_server instance_identity
       [WAL_Server \<lparr>svc_InstanceName = ic_InstanceName c, svc_SpoolDirectory = ic_SpoolDirectory c,
          svc_PGDataPath = ic_PGDataPath c, svc_PGWALPath = ic_PGWALPath c\<rparr>,
        Backup_Server \<lparr>bs_InstanceName = ic_InstanceName c, bs_PGDataPath = ic_PGDataPath c\<rparr>,
        Health_Server]
       (ic_PluginPath c)"

record restore_CNPGI =
  rc_PluginPath :: string
  rc_SpoolDirectory :: string
  rc_PGDataPath :: string
  rc_InstanceName :: string

definition PgWalVolumePgWalPath :: string where
  "PgWalVolumePgWalPath = ''/var/lib/postgresql/wal/pg_wal''"

definition restore_CNPGI_Start :: "restore_CNPGI \<Rightarrow> http_server" where
  "restore_CNPGI_Start c = plain_server restore_identity
       [WAL_Server \<lparr>svc_InstanceName = rc_InstanceName c, svc_SpoolDirectory = rc_SpoolDirectory c,
          svc_PGDataPath = rc_PGDataPath c, svc_PGWALPath = path_join [rc_PGDataPath c, ''pg_wal'']\<rparr>,
        Restore_Job_Server \<lparr>jh_SpoolDirectory = rc_SpoolDirectory c, jh_PgDataPath = rc_PGDataPath c,
          jh_PgWalFolderToSymlink = PgWalVolumePgWalPath\<rparr>,
        Health_Server]
       (rc_PluginPath c)"

record operator_CNPGI =
  oc_PluginPath :: string
  oc_ServerCertPath :: string
  oc_ServerKeyPath :: string
  oc_ClientCertPath :: string
  oc_ServerAddress :: string

definition operator_CNPGI_Start :: "operator_CNPGI \<Rightarrow> http_server" where
  "operator_CNPGI_Start c = \<lparr>hs_Identity = operator_identity,
     hs_Enrichers = [Reconciler_Server, Lifecycle_Server], hs_PluginPath = oc_PluginPath c,
     hs_ServerCertPath = oc_ServerCertPath c, hs_ServerKeyPath = oc_ServerKeyPath c,
     hs_ClientCertPath = oc_ClientCertPath c, hs_ServerAddress = oc_ServerAddress c\<rparr>"

section \<open>The controller manager\<close>

text \<open>
  What a process asks of controller-runtime: to make a manager with some options, to add things to
  it, to start it. A manager is the answers it gives; the calls made so far are the state. Of the
  options the model has those the code sets; a runnable is the server it starts. The functions in
  \<open>mo_TLSOpts\<close> are applied to a TLS configuration in turn.
\<close>

datatype scheme_group = ClientGo_Group | Cnpg_Group | Pgbackrest_Group

abbreviation Cluster_Kind :: object_kind where
  "Cluster_Kind \<equiv> Other_Kind ''Cluster''"

record tls_config =
  tls_NextProtos :: "string list"

datatype filter_provider = WithAuthenticationAndAuthorization

record metrics_Options =
  mo_BindAddress :: string
  mo_SecureServing :: bool
  mo_TLSOpts :: "(tls_config \<Rightarrow> tls_config) list"
  mo_FilterProvider :: "filter_provider option"

record ByObject =
  by_Field :: "string \<times> string"
  by_Namespaces :: "string list"

record ctrl_Options =
  opt_Scheme :: "scheme_group list"
  opt_ByObject :: "(object_kind \<times> ByObject) list"
  opt_DisableFor :: "object_kind list"
  opt_Metrics :: metrics_Options
  opt_WebhookTLSOpts :: "(tls_config \<Rightarrow> tls_config) list"
  opt_HealthProbeBindAddress :: string
  opt_LeaderElection :: bool
  opt_LeaderElectionID :: string
  opt_LeaderElectionReleaseOnCancel :: bool

definition zero_Options :: ctrl_Options where
  "zero_Options = \<lparr>opt_Scheme = [], opt_ByObject = [], opt_DisableFor = [],
     opt_Metrics = \<lparr>mo_BindAddress = [], mo_SecureServing = False, mo_TLSOpts = [], mo_FilterProvider = None\<rparr>,
     opt_WebhookTLSOpts = [], opt_HealthProbeBindAddress = [], opt_LeaderElection = False,
     opt_LeaderElectionID = [], opt_LeaderElectionReleaseOnCancel = False\<rparr>"

datatype manager_call =
    NewManager ctrl_Options
  | SetupController object_kind
  | AddHealthzCheck string
  | AddReadyzCheck string
  | AddRunnable http_server
  | StartManager

type_synonym manager = "manager_call \<Rightarrow> unit go"

definition ask :: "manager \<Rightarrow> manager_call \<Rightarrow> manager_call list \<Rightarrow> unit go \<times> manager_call list" where
  "ask mgr c calls = (mgr c, calls @ [c])"

section \<open>The commands\<close>

text \<open>\<open>get\<close> is \<^verbatim>\<open>viper.GetString\<close>.\<close>

definition requiredSettings :: "string list" where
  "requiredSettings = [''namespace'', ''pod-name'', ''spool-directory'']"

fun check_settings :: "(string \<Rightarrow> string) \<Rightarrow> string list \<Rightarrow> unit go" where
  "check_settings get [] = Ret ()"
| "check_settings get (k # ks) =
     (if length (get k) = 0 then Fail (ErrMsg (''missing required '' @ k @ '' setting'')) else check_settings get ks)"

definition instance_scheme :: "scheme_group list" where
  "instance_scheme = [Pgbackrest_Group, Cnpg_Group, ClientGo_Group]"

definition instance_Options :: ctrl_Options where
  "instance_Options = zero_Options\<lparr>opt_Scheme := instance_scheme,
     opt_DisableFor := [Secret_Kind, Archive_Kind, Cluster_Kind]\<rparr>"

definition instance_Start ::
  "manager \<Rightarrow> (string \<Rightarrow> string) \<Rightarrow> manager_call list \<Rightarrow> unit go \<times> manager_call list" where
  "instance_Start mgr get calls =
     (let podName = get ''pod-name'' in
     bindW (ask mgr (NewManager instance_Options) calls) (\<lambda>_ calls.
     bindW (ask mgr (AddRunnable (instance_CNPGI_Start
         \<lparr>ic_PGDataPath = get ''pgdata'', ic_PGWALPath = path_join [get ''pgdata'', ''pg_wal''],
          ic_SpoolDirectory = get ''spool-directory'', ic_PluginPath = get ''plugin-path'',
          ic_InstanceName = podName\<rparr>)) calls) (\<lambda>_ calls.
     ask mgr StartManager calls)))"

definition restore_scheme :: "scheme_group list" where
  "restore_scheme = [Pgbackrest_Group, Cnpg_Group, ClientGo_Group]"

definition restore_Options :: "(string \<Rightarrow> string) \<Rightarrow> ctrl_Options" where
  "restore_Options get = zero_Options\<lparr>opt_Scheme := restore_scheme,
     opt_ByObject := [(Cluster_Kind, \<lparr>by_Field = (''metadata.name'', get ''cluster-name''),
       by_Namespaces = [get ''namespace'']\<rparr>)],
     opt_DisableFor := [Secret_Kind, Archive_Kind]\<rparr>"

definition restore_Start ::
  "manager \<Rightarrow> (string \<Rightarrow> string) \<Rightarrow> manager_call list \<Rightarrow> unit go \<times> manager_call list" where
  "restore_Start mgr get calls =
     bindW (ask mgr (NewManager (restore_Options get)) calls) (\<lambda>_ calls.
     bindW (ask mgr (AddRunnable (restore_CNPGI_Start
         \<lparr>rc_PluginPath = get ''plugin-path'', rc_SpoolDirectory = get ''spool-directory'',
          rc_PGDataPath = get ''pgdata'', rc_InstanceName = get ''pod-name''\<rparr>)) calls) (\<lambda>_ calls.
     ask mgr StartManager calls))"

definition instance_RunE ::
  "manager \<Rightarrow> (string \<Rightarrow> string) \<Rightarrow> manager_call list \<Rightarrow> unit go \<times> manager_call list" where
  "instance_RunE mgr get calls = bindW (check_settings get requiredSettings, calls) (\<lambda>_. instance_Start mgr get)"

definition restore_RunE ::
  "manager \<Rightarrow> (string \<Rightarrow> string) \<Rightarrow> manager_call list \<Rightarrow> unit go \<times> manager_call list" where
  "restore_RunE mgr get calls = bindW (check_settings get requiredSettings, calls) (\<lambda>_. restore_Start mgr get)"

text \<open>The variables of the environment the settings are bound to, the same for both commands.\<close>

definition env_bindings :: "(string \<times> string) list" where
  "env_bindings = [(''namespace'', ''NAMESPACE''), (''pod-name'', ''POD_NAME''),
     (''pgdata'', ''PGDATA''), (''spool-directory'', ''SPOOL_DIRECTORY'')]"

text \<open>
  The name of the cluster is not among them, although the sidecar is given \<^verbatim>\<open>CLUSTER_NAME\<close>:
  the cache of clusters of a restore is then restricted to those with no name.
\<close>

lemma restore_cache_without_name:
  assumes "\<forall>k. k \<notin> fst ` set env_bindings \<longrightarrow> get k = ''''"
  shows "opt_ByObject (restore_Options get) =
    [(Cluster_Kind, \<lparr>by_Field = (''metadata.name'', ''''), by_Namespaces = [get ''namespace'']\<rparr>)]"
  using assms by (simp add: restore_Options_def env_bindings_def)

section \<open>The health check\<close>

datatype health_status = HEALTH_UNKNOWN | HEALTH_SERVING | HEALTH_NOT_SERVING | HEALTH_SERVICE_UNKNOWN

definition Health_Check :: health_status where
  "Health_Check = HEALTH_SERVING"

record grpc_client =
  gr_NewClient :: "string \<Rightarrow> unit go"
  gr_Check :: "string \<Rightarrow> health_status go"

datatype command_end = Exits int | Returns "unit go"

definition dialPath :: string where
  "dialPath = ''unix://'' @ path_join [''/plugins'', PluginName]"

definition unixHealthCheck :: "grpc_client \<Rightarrow> command_end" where
  "unixHealthCheck gr =
     (case bindG (gr_NewClient gr dialPath) (\<lambda>_. gr_Check gr dialPath) of
        Ret status \<Rightarrow>
          (case status of
             HEALTH_SERVING \<Rightarrow> Exits 0
           | HEALTH_UNKNOWN \<Rightarrow> Exits 2
           | HEALTH_NOT_SERVING \<Rightarrow> Exits 3
           | _ \<Rightarrow> Exits 125)
      | Fail e \<Rightarrow> Returns (Fail e)
      | Panic m \<Rightarrow> Returns (Panic m))"

section \<open>A sidecar starts\<close>

text \<open>
  What \<^verbatim>\<open>viper.BindEnv\<close> documents: a setting bound to a variable, and set nowhere else,
  has the variable's value, and is empty when the variable is not set.
\<close>

definition viper_binds :: "(string \<Rightarrow> string) \<Rightarrow> (string \<times> string) list \<Rightarrow> EnvVar list \<Rightarrow> bool" where
  "viper_binds get bindings env \<longleftrightarrow>
     (\<forall>(k, v) \<in> set bindings. get k = (case env_value env v of None \<Rightarrow> '''' | Some x \<Rightarrow> x))"

lemma check_settings_Ret: "check_settings get ks = Ret () \<longleftrightarrow> (\<forall>k \<in> set ks. get k \<noteq> '''')"
  by (induction ks) auto

abbreviation env_text :: "EnvVar list \<Rightarrow> string \<Rightarrow> string" where
  "env_text es n \<equiv> (case env_value es n of None \<Rightarrow> '''' | Some x \<Rightarrow> x)"

lemma default_envs_value:
  "env_value (default_envs cluster) ''NAMESPACE'' = Some (cl_Namespace cluster)"
  "env_value (default_envs cluster) ''SPOOL_DIRECTORY'' = Some ''/controller/wal-restore-spool''"
  "env_value (default_envs cluster) ''POD_NAME'' = None"
  by (simp_all add: default_envs_def)

text \<open>What the settings of an added sidecar are.\<close>

lemma sidecar_settings:
  assumes "''plugin-pgbackrest'' \<notin> co_Name ` set (ps_InitContainers spec)" "m \<in> co_Name ` set (ps_Containers spec)"
    and "reconcilePodSpec img cluster spec m (zero_container\<lparr>co_Args := args\<rparr>) envs rs sc = Ret spec'"
    and "viper_binds get env_bindings (co_Env (last (ps_InitContainers spec')))"
  shows "get ''pod-name'' = env_text (main_envs m spec @ envs) ''POD_NAME''"
    and "get ''spool-directory'' = (case env_value (main_envs m spec) ''SPOOL_DIRECTORY'' of
      None \<Rightarrow> ''/controller/wal-restore-spool'' | Some d \<Rightarrow> d)"
    and "get ''namespace'' = (case env_value (main_envs m spec) ''NAMESPACE'' of None \<Rightarrow> cl_Namespace cluster | Some n \<Rightarrow> n)"
proof -
  have z: "co_Env (zero_container\<lparr>co_Args := args\<rparr>) = []" "co_VolumeMounts (zero_container\<lparr>co_Args := args\<rparr>) = []"
    by (simp_all add: zero_container_def)
  from reconcilePodSpec_new [OF assms(1) z assms(2), of img cluster envs rs sc] assms(3) obtain side where
    "last (ps_InitContainers spec') = side"
    "\<forall>n. env_value (co_Env side) n = env_value (main_envs m spec @ default_envs cluster @ envs) n"
    by auto
  with assms(4) show "get ''pod-name'' = env_text (main_envs m spec @ envs) ''POD_NAME''"
    and "get ''spool-directory'' = (case env_value (main_envs m spec) ''SPOOL_DIRECTORY'' of
      None \<Rightarrow> ''/controller/wal-restore-spool'' | Some d \<Rightarrow> d)"
    and "get ''namespace'' = (case env_value (main_envs m spec) ''NAMESPACE'' of None \<Rightarrow> cl_Namespace cluster | Some n \<Rightarrow> n)"
    by (simp_all add: viper_binds_def env_bindings_def env_value_append default_envs_value split: option.split)
qed

text \<open>
  C23. The operator and the processes it starts agree on the settings: with the environment the
  sidecar was given, the instance and the restore command find the settings they require exactly
  if the main container or an Archive object sets the name of the pod, and then archive and restore
  through one spool directory, the main container's or the default one, under this name; otherwise
  both end with an error that names the missing setting.
\<close>

theorem sidecar_starts:
  assumes "''plugin-pgbackrest'' \<notin> co_Name ` set (ps_InitContainers spec)" "m \<in> co_Name ` set (ps_Containers spec)"
    and "reconcilePodSpec img cluster spec m (zero_container\<lparr>co_Args := args\<rparr>) envs rs sc = Ret spec'"
    and "viper_binds get env_bindings (co_Env (last (ps_InitContainers spec')))"
    and "cl_Namespace cluster \<noteq> ''''" "env_value (main_envs m spec) ''NAMESPACE'' \<noteq> Some ''''"
    and "env_value (main_envs m spec) ''SPOOL_DIRECTORY'' \<noteq> Some ''''"
    and "\<forall>c. mgr c = Ret ()"
  shows "if env_text (main_envs m spec @ envs) ''POD_NAME'' = ''''
    then instance_RunE mgr get [] = (Fail (ErrMsg ''missing required pod-name setting''), [])
      \<and> restore_RunE mgr get [] = (Fail (ErrMsg ''missing required pod-name setting''), [])
    else \<exists>o1 o2 srv1 srv2 svc impl.
      instance_RunE mgr get [] = (Ret (), [NewManager o1, AddRunnable srv1, StartManager])
      \<and> restore_RunE mgr get [] = (Ret (), [NewManager o2, AddRunnable srv2, StartManager])
      \<and> WAL_Server svc \<in> set (hs_Enrichers srv1) \<and> WAL_Server svc \<in> set (hs_Enrichers srv2)
      \<and> Restore_Job_Server impl \<in> set (hs_Enrichers srv2) \<and> jh_SpoolDirectory impl = svc_SpoolDirectory svc
      \<and> jh_PgDataPath impl = svc_PGDataPath svc
      \<and> svc_InstanceName svc = env_text (main_envs m spec @ envs) ''POD_NAME''
      \<and> svc_SpoolDirectory svc = (case env_value (main_envs m spec) ''SPOOL_DIRECTORY'' of
          None \<Rightarrow> ''/controller/wal-restore-spool'' | Some d \<Rightarrow> d)"
proof -
  note settings = sidecar_settings [OF assms(1-4)]
  have set: "get ''namespace'' \<noteq> ''''" "get ''spool-directory'' \<noteq> ''''"
    using assms(5-7) settings(2,3) by (auto split: option.splits)
  show ?thesis
    unfolding settings(1) [symmetric] settings(2) [symmetric]
    using set assms(8)
    by (auto simp: ask_def plain_server_def Let_def instance_RunE_def restore_RunE_def requiredSettings_def instance_Start_def restore_Start_def
        instance_CNPGI_Start_def restore_CNPGI_Start_def)
qed

text \<open>
  What the client of an instance caches is read from the API server itself: for these kinds the
  cache of the controller manager is off, so that no answer passes through two caches.
\<close>

lemma cached_kinds_read_directly:
  "isObjectCached k \<Longrightarrow> k \<in> set (opt_DisableFor instance_Options)"
  by (auto simp: isObjectCached_def instance_Options_def)

text \<open>Every process registers the servers of the services it says it has, and no other.\<close>

fun server_service :: "server \<Rightarrow> plugin_service option" where
  "server_service (WAL_Server s) = Some TYPE_WAL_SERVICE"
| "server_service (Backup_Server s) = Some TYPE_BACKUP_SERVICE"
| "server_service (Restore_Job_Server s) = Some TYPE_RESTORE_JOB"
| "server_service Reconciler_Server = Some TYPE_RECONCILER_HOOKS"
| "server_service Lifecycle_Server = Some TYPE_LIFECYCLE_SERVICE"
| "server_service Health_Server = None"

lemma advertised_services:
  assumes "srv \<in> {instance_CNPGI_Start ic, restore_CNPGI_Start rc, operator_CNPGI_Start oc}"
  shows "Some ` set (id_Capabilities (hs_Identity srv)) = server_service ` set (hs_Enrichers srv) - {None}"
  using assms by (auto simp: plain_server_def instance_CNPGI_Start_def restore_CNPGI_Start_def operator_CNPGI_Start_def
      instance_identity_def restore_identity_def operator_identity_def)

lemma healthcheck_serving:
  "unixHealthCheck gr = Exits 0 \<longleftrightarrow> gr_NewClient gr dialPath = Ret () \<and> gr_Check gr dialPath = Ret HEALTH_SERVING"
  by (cases "gr_NewClient gr dialPath"; cases "gr_Check gr dialPath")
    (auto simp: unixHealthCheck_def split: health_status.splits)

section \<open>An example\<close>

definition named_pod :: PodSpec where
  "named_pod = \<lparr>ps_Volumes = [], ps_Containers = [zero_container\<lparr>co_Name := ''postgres'',
     co_Env := [\<lparr>ev_Name = ''POD_NAME'', ev_Value = ''c-1''\<rparr>, \<lparr>ev_Name = ''PGDATA'', ev_Value = ''/pg''\<rparr>]\<rparr>],
     ps_InitContainers = [], ps_Rest = ''''\<rparr>"

definition get_example :: "string \<Rightarrow> string" where
  "get_example k =
     (if k = ''namespace'' then ''ns'' else if k = ''pod-name'' then ''c-1'' else if k = ''pgdata'' then ''/pg''
      else if k = ''spool-directory'' then ''/controller/wal-restore-spool'' else '''')"

definition mgr_example :: manager where
  "mgr_example c = Ret ()"

theorem sidecar_starts_witness:
  "\<exists>opts srv svc. instance_RunE mgr_example get_example [] = (Ret (), [NewManager opts, AddRunnable srv, StartManager]) \<and> WAL_Server svc \<in> set (hs_Enrichers srv)
     \<and> svc_InstanceName svc = ''c-1'' \<and> svc_SpoolDirectory svc = ''/controller/wal-restore-spool''"
proof -
  let ?r = "reconcilePodSpec ''img'' cluster_example named_pod ''postgres'' (zero_container\<lparr>co_Args := [''instance'']\<rparr>) [] None None"
  let ?env = "[\<lparr>ev_Name = ''POD_NAME'', ev_Value = ''c-1''\<rparr>,
      \<lparr>ev_Name = ''PGDATA'', ev_Value = ''/pg''\<rparr>, \<lparr>ev_Name = ''NAMESPACE'', ev_Value = ''ns''\<rparr>,
      \<lparr>ev_Name = ''CLUSTER_NAME'', ev_Value = ''c''\<rparr>, \<lparr>ev_Name = ''SPOOL_DIRECTORY'', ev_Value = ''/controller/wal-restore-spool''\<rparr>]"
  have a: "''plugin-pgbackrest'' \<notin> co_Name ` set (ps_InitContainers named_pod)"
    "''postgres'' \<in> co_Name ` set (ps_Containers named_pod)" by (simp_all add: named_pod_def)
  have "(case ?r of Ret s \<Rightarrow> co_Env (last (ps_InitContainers s)) = ?env | _ \<Rightarrow> False)" by code_simp
  then obtain spec' where r: "?r = Ret spec'" and e: "co_Env (last (ps_InitContainers spec')) = ?env"
    by (cases ?r) auto
  have v: "viper_binds get_example env_bindings (co_Env (last (ps_InitContainers spec')))"
    by (simp add: e viper_binds_def env_bindings_def get_example_def)
  have n: "cl_Namespace cluster_example \<noteq> ''''" by (simp add: cluster_example_def)
  have m: "env_value (main_envs ''postgres'' named_pod) ''NAMESPACE'' \<noteq> Some ''''"
    "env_value (main_envs ''postgres'' named_pod) ''SPOOL_DIRECTORY'' \<noteq> Some ''''"
    "env_text (main_envs ''postgres'' named_pod @ []) ''POD_NAME'' = ''c-1''"
    "env_value (main_envs ''postgres'' named_pod) ''SPOOL_DIRECTORY'' = None" by (simp_all add: named_pod_def)
  have g: "\<forall>c. mgr_example c = Ret ()" by (simp_all add: mgr_example_def)
  from sidecar_starts [OF a r v n m(1,2) g] show ?thesis unfolding m(3,4) option.case by auto
qed

end
