(* ===== verification/Operator_Process.thy ===== *)
theory Operator_Process
  imports Processes
begin

text \<open>
  The operator process (\<^verbatim>\<open>internal/cmd/operator/main.go\<close>,
  \<^verbatim>\<open>internal/cnpgi/operator/manager.go\<close>,
  \<^verbatim>\<open>internal/controller/archive_controller.go\<close>) and the end of
  \<^verbatim>\<open>cmd/manager/main.go\<close>: its flags, the options it makes of them, and what it asks
  of the controller manager in which order. \<^verbatim>\<open>viper\<close> and controller-runtime are
  parameters.
\<close>

section \<open>Settings\<close>

record viper =
  vp_GetString :: "string \<Rightarrow> string"
  vp_GetBool :: "string \<Rightarrow> bool"

datatype flag_value = String_Flag string | Bool_Flag bool

definition operator_flags :: "(string \<times> flag_value) list" where
  "operator_flags =
     [(''metrics-bind-address'', String_Flag ''0''),
      (''health-probe-bind-address'', String_Flag '':8081''),
      (''leader-elect'', Bool_Flag False),
      (''metrics-secure'', Bool_Flag True),
      (''enable-http2'', Bool_Flag False),
      (''plugin-path'', String_Flag ''''),
      (''server-cert'', String_Flag ''''),
      (''server-key'', String_Flag ''''),
      (''client-cert'', String_Flag ''''),
      (''server-address'', String_Flag '''')]"

text \<open>
  What \<^verbatim>\<open>viper.BindPFlag\<close> documents: a bound setting has the value given on the
  command line, and otherwise the default of its flag.
\<close>

fun has_value :: "viper \<Rightarrow> string \<Rightarrow> flag_value \<Rightarrow> bool" where
  "has_value v k (String_Flag s) \<longleftrightarrow> vp_GetString v k = s"
| "has_value v k (Bool_Flag b) \<longleftrightarrow> vp_GetBool v k = b"

definition viper_flags :: "viper \<Rightarrow> (string \<times> flag_value) list \<Rightarrow> (string \<rightharpoonup> flag_value) \<Rightarrow> bool" where
  "viper_flags v flags given \<longleftrightarrow>
     (\<forall>(k, d) \<in> set flags. has_value v k (case given k of None \<Rightarrow> d | Some x \<Rightarrow> x))"

section \<open>The controller of Archive objects\<close>

record reconcile_Result =
  rec_Requeue :: bool
  rec_RequeueAfter :: int

definition ArchiveReconciler_Reconcile :: "NamespacedName \<Rightarrow> 'w \<Rightarrow> reconcile_Result go \<times> 'w" where
  "ArchiveReconciler_Reconcile req w = (Ret \<lparr>rec_Requeue = False, rec_RequeueAfter = 0\<rparr>, w)"

definition SetupWithManager :: "manager \<Rightarrow> manager_call list \<Rightarrow> unit go \<times> manager_call list" where
  "SetupWithManager mgr calls = wrapW ''unable to create controller'' (ask mgr (SetupController Archive_Kind) calls)"

section \<open>Starting the operator\<close>

definition operator_scheme :: "scheme_group list" where
  "operator_scheme = [ClientGo_Group, Pgbackrest_Group, Cnpg_Group]"

definition disableHTTP2 :: "tls_config \<Rightarrow> tls_config" where
  "disableHTTP2 c = c\<lparr>tls_NextProtos := [''http/1.1'']\<rparr>"

definition tlsOpts :: "viper \<Rightarrow> (tls_config \<Rightarrow> tls_config) list" where
  "tlsOpts v = (if \<not> vp_GetBool v ''enable-http2'' then [disableHTTP2] else [])"

definition metricsServerOptions :: "viper \<Rightarrow> metrics_Options" where
  "metricsServerOptions v =
     (let o1 = \<lparr>mo_BindAddress = vp_GetString v ''metrics-bind-address'',
            mo_SecureServing = vp_GetBool v ''metrics-secure'', mo_TLSOpts = tlsOpts v, mo_FilterProvider = None\<rparr>
      in if vp_GetBool v ''metrics-secure'' then o1\<lparr>mo_FilterProvider := Some WithAuthenticationAndAuthorization\<rparr>
         else o1)"

definition operator_Options :: "viper \<Rightarrow> ctrl_Options" where
  "operator_Options v = \<lparr>opt_Scheme = operator_scheme, opt_ByObject = [], opt_DisableFor = [],
     opt_Metrics = metricsServerOptions v, opt_WebhookTLSOpts = tlsOpts v,
     opt_HealthProbeBindAddress = vp_GetString v ''health-probe-bind-address'',
     opt_LeaderElection = vp_GetBool v ''leader-elect'', opt_LeaderElectionID = ''5e3f9a6c.cnpg.io'',
     opt_LeaderElectionReleaseOnCancel = True\<rparr>"

definition operator_server :: "viper \<Rightarrow> http_server" where
  "operator_server v = operator_CNPGI_Start
     \<lparr>oc_PluginPath = vp_GetString v ''plugin-path'', oc_ServerCertPath = vp_GetString v ''server-cert'',
      oc_ServerKeyPath = vp_GetString v ''server-key'', oc_ClientCertPath = vp_GetString v ''client-cert'',
      oc_ServerAddress = vp_GetString v ''server-address''\<rparr>"

definition operator_Start :: "manager \<Rightarrow> viper \<Rightarrow> manager_call list \<Rightarrow> unit go \<times> manager_call list" where
  "operator_Start mgr v calls =
     bindW (ask mgr (NewManager (operator_Options v)) calls) (\<lambda>_ calls.
     bindW (SetupWithManager mgr calls) (\<lambda>_ calls.
     bindW (ask mgr (AddHealthzCheck ''healthz'') calls) (\<lambda>_ calls.
     bindW (ask mgr (AddReadyzCheck ''readyz'') calls) (\<lambda>_ calls.
     bindW (ask mgr (AddRunnable (operator_server v)) calls) (\<lambda>_ calls.
     ask mgr StartManager calls)))))"

definition operator_RunE :: "manager \<Rightarrow> viper \<Rightarrow> manager_call list \<Rightarrow> unit go \<times> manager_call list" where
  "operator_RunE mgr v calls =
     (if length (vp_GetString v ''sidecar-image'') = 0
      then (Fail (ErrMsg ''missing required SIDECAR_IMAGE environment variable''), calls)
      else operator_Start mgr v calls)"

text \<open>What \<^verbatim>\<open>main\<close> does with the result of the command: an error ends the process
  with status 1, unless it says that the process was told to stop.\<close>

definition manager_main :: "unit go \<Rightarrow> command_end" where
  "manager_main executed =
     (case executed of
        Fail err \<Rightarrow> if \<not> errors_is err ErrCanceled then Exits 1 else Returns (Ret ())
      | r \<Rightarrow> Returns r)"

section \<open>What the operator asks for\<close>

lemma ask_Ret [simp]: "mgr c = Ret () \<Longrightarrow> ask mgr c calls = (Ret (), calls @ [c])"
  by (simp add: ask_def)

lemma ask_outcome: "ask mgr c calls = (r, calls') \<longleftrightarrow> r = mgr c \<and> calls' = calls @ [c]"
  by (auto simp: ask_def)

lemma snd_ask [simp]: "snd (ask mgr c calls) = calls @ [c]"
  by (simp add: ask_def)

lemma snd_ask_bind:
  "snd (bindW (ask mgr c calls) f) = (if mgr c = Ret () then snd (f () (calls @ [c])) else calls @ [c])"
  by (cases "mgr c") (simp_all add: ask_def)

lemma snd_SetupWithManager_bind:
  "snd (bindW (SetupWithManager mgr calls) f) = (if mgr (SetupController Archive_Kind) = Ret ()
     then snd (f () (calls @ [SetupController Archive_Kind])) else calls @ [SetupController Archive_Kind])"
  by (cases "mgr (SetupController Archive_Kind)") (simp_all add: SetupWithManager_def ask_def)

text \<open>The calls of a start that went well, and of one that did not: a prefix that ends with the refusal.\<close>

abbreviation operator_calls :: "viper \<Rightarrow> manager_call list" where
  "operator_calls v \<equiv> [NewManager (operator_Options v), SetupController Archive_Kind, AddHealthzCheck ''healthz'',
     AddReadyzCheck ''readyz'', AddRunnable (operator_server v), StartManager]"

lemma operator_Start_Ret:
  "operator_Start mgr v calls = (Ret (), calls') \<longleftrightarrow>
     (\<forall>c \<in> set (operator_calls v). mgr c = Ret ()) \<and> calls' = calls @ operator_calls v"
  by (auto simp: operator_Start_def SetupWithManager_def bindW_Ret_iff wrapW_Ret_iff ask_outcome)

lemma first_failure:
  assumes "\<exists>c \<in> set cs. \<not> P c"
  shows "\<exists>done c rest. cs = done @ c # rest
    \<and> xs @ takeWhile P cs @ (case dropWhile P cs of [] \<Rightarrow> [] | c # _ \<Rightarrow> [c]) = xs @ done @ [c]
    \<and> (\<forall>d \<in> set done. P d) \<and> \<not> P c"
  using assms
proof (induction cs)
  case (Cons d cs)
  show ?case
  proof (cases "P d")
    case True
    with Cons obtain ds c rest where "cs = ds @ c # rest"
      "takeWhile P cs @ (case dropWhile P cs of [] \<Rightarrow> [] | c # _ \<Rightarrow> [c]) = ds @ [c]" "\<forall>d \<in> set ds. P d" "\<not> P c"
      by auto
    with True show ?thesis by (intro exI [of _ "d # ds"] exI [of _ c] exI [of _ rest]) simp
  qed (intro exI [of _ "[]"] exI [of _ d] exI [of _ cs], simp)
qed simp

lemma operator_Start_stops:
  assumes "operator_Start mgr v calls = (r, calls')" "r \<noteq> Ret ()"
  shows "\<exists>done c rest. operator_calls v = done @ c # rest \<and> calls' = calls @ done @ [c]
    \<and> (\<forall>d \<in> set done. mgr d = Ret ()) \<and> mgr c \<noteq> Ret ()"
proof -
  let ?all = "operator_calls v" and ?p = "\<lambda>c. mgr c = Ret ()"
  have ex: "\<exists>c \<in> set ?all. \<not> ?p c"
    using assms operator_Start_Ret [of mgr v calls "calls @ ?all"] by (cases r) auto
  have "snd (operator_Start mgr v calls) =
      calls @ takeWhile ?p ?all @ (case dropWhile ?p ?all of [] \<Rightarrow> [] | c # _ \<Rightarrow> [c])"
    by (simp add: operator_Start_def snd_ask_bind snd_SetupWithManager_bind)
  with assms(1) have made: "calls' = calls @ takeWhile ?p ?all @ (case dropWhile ?p ?all of [] \<Rightarrow> [] | c # _ \<Rightarrow> [c])"
    by (simp only: snd_conv)
  from first_failure [OF ex] show ?thesis unfolding made by blast
qed

text \<open>
  C24. An operator that starts is safe by default, and what it starts is what its sidecars need. Unless
  the flags say otherwise its servers refuse HTTP/2, the metrics are not served at all, and when
  they are, then over TLS with authentication and authorization. It registers the servers of the
  two services it advertises, after the health checks and before the manager is started, and every
  sidecar it adds to a pod has an image.
\<close>

theorem operator_starts:
  assumes "operator_RunE mgr v [] = (Ret (), calls)" "viper_flags v operator_flags given"
    and "''plugin-pgbackrest'' \<notin> co_Name ` set (ps_InitContainers spec)" "m \<in> co_Name ` set (ps_Containers spec)"
    and "reconcilePodSpec (vp_GetString v ''sidecar-image'') cluster spec m (zero_container\<lparr>co_Args := args\<rparr>) envs rs sc
      = Ret spec'"
  shows "\<exists>opts srv. calls = [NewManager opts, SetupController Archive_Kind, AddHealthzCheck ''healthz'',
        AddReadyzCheck ''readyz'', AddRunnable srv, StartManager]
    \<and> (given ''enable-http2'' = None \<longrightarrow> (\<forall>c. tls_NextProtos (fold id (mo_TLSOpts (opt_Metrics opts)) c) = [''http/1.1'']
          \<and> tls_NextProtos (fold id (opt_WebhookTLSOpts opts) c) = [''http/1.1'']))
    \<and> (given ''metrics-bind-address'' = None \<longrightarrow> mo_BindAddress (opt_Metrics opts) = ''0'')
    \<and> (given ''metrics-secure'' = None \<longrightarrow> mo_SecureServing (opt_Metrics opts)
          \<and> mo_FilterProvider (opt_Metrics opts) = Some WithAuthenticationAndAuthorization)
    \<and> server_service ` set (hs_Enrichers srv) = Some ` set (id_Capabilities operator_identity)
    \<and> co_Image (last (ps_InitContainers spec')) \<noteq> ''''"
proof -
  from assms(1) have img: "vp_GetString v ''sidecar-image'' \<noteq> ''''" and "operator_Start mgr v [] = (Ret (), calls)"
    by (auto simp: operator_RunE_def split: if_splits)
  then have calls: "calls = operator_calls v" by (simp add: operator_Start_Ret)
  have z: "co_Env (zero_container\<lparr>co_Args := args\<rparr>) = []" "co_VolumeMounts (zero_container\<lparr>co_Args := args\<rparr>) = []"
    by (simp_all add: zero_container_def)
  from reconcilePodSpec_new [OF assms(3) z assms(4), of "vp_GetString v ''sidecar-image''" cluster envs rs sc] assms(5)
  have side: "co_Image (last (ps_InitContainers spec')) \<noteq> ''''" using img by auto
  have flags: "given ''enable-http2'' = None \<longrightarrow> \<not> vp_GetBool v ''enable-http2''"
    "given ''metrics-bind-address'' = None \<longrightarrow> vp_GetString v ''metrics-bind-address'' = ''0''"
    "given ''metrics-secure'' = None \<longrightarrow> vp_GetBool v ''metrics-secure''"
    using assms(2) by (auto simp: viper_flags_def operator_flags_def)
  have http: "given ''enable-http2'' = None \<longrightarrow> tls_NextProtos (fold id (tlsOpts v) c) = [''http/1.1'']" for c
    using flags(1) by (simp add: tlsOpts_def disableHTTP2_def)
  have services: "server_service ` set (hs_Enrichers (operator_server v)) = Some ` set (id_Capabilities operator_identity)"
    by (auto simp: operator_server_def operator_CNPGI_Start_def operator_identity_def)
  show ?thesis unfolding calls
    using side flags(2,3) http services
    by (intro exI [of _ "operator_Options v"] exI [of _ "operator_server v"])
      (simp add: operator_Options_def metricsServerOptions_def Let_def)
qed

definition viper_example :: viper where
  "viper_example = \<lparr>vp_GetString = (\<lambda>k. if k = ''sidecar-image'' then ''img'' else
      if k = ''metrics-bind-address'' then ''0'' else if k = ''health-probe-bind-address'' then '':8081'' else ''''),
     vp_GetBool = (\<lambda>k. k = ''metrics-secure'')\<rparr>"

theorem operator_starts_witness:
  "\<exists>opts srv. operator_RunE mgr_example viper_example [] =
     (Ret (), [NewManager opts, SetupController Archive_Kind, AddHealthzCheck ''healthz'',
        AddReadyzCheck ''readyz'', AddRunnable srv, StartManager])
     \<and> mo_FilterProvider (opt_Metrics opts) = Some WithAuthenticationAndAuthorization"
proof -
  let ?img = "vp_GetString viper_example ''sidecar-image''"
  have z: "co_Env (zero_container\<lparr>co_Args := args\<rparr>) = []" "co_VolumeMounts (zero_container\<lparr>co_Args := args\<rparr>) = []" for args
    by (simp_all add: zero_container_def)
  have a: "''plugin-pgbackrest'' \<notin> co_Name ` set (ps_InitContainers named_pod)"
    "''postgres'' \<in> co_Name ` set (ps_Containers named_pod)" by (simp_all add: named_pod_def)
  obtain spec' where s: "reconcilePodSpec ?img cluster_example named_pod ''postgres''
      (zero_container\<lparr>co_Args := [''instance'']\<rparr>) [] None None = Ret spec'"
    using reconcilePodSpec_new [OF a(1) z a(2)] by blast
  have f: "viper_flags viper_example operator_flags (\<lambda>_. None)"
    by (simp add: viper_flags_def operator_flags_def viper_example_def)
  have r: "operator_RunE mgr_example viper_example [] = (Ret (), operator_calls viper_example)"
    by (simp add: operator_RunE_def operator_Start_Ret mgr_example_def viper_example_def)
  from operator_starts [OF r f a s] r show ?thesis by auto
qed

end
