(* ===== verification/Rbac.thy ===== *)
theory Rbac
  imports Plugin_Config Credentials
begin

text \<open>
  The permissions of an instance: the role the operator builds for a cluster
  (\<^verbatim>\<open>internal/cnpgi/operator/specs/\<close>) and the reconciler hook that keeps it in the
  Kubernetes API (\<^verbatim>\<open>internal/cnpgi/operator/reconciler.go\<close>). The API client, the
  object decoder and the sorted set of strings are parameters.
\<close>

section \<open>Roles\<close>

record PolicyRule =
  pr_APIGroups :: "string list"
  pr_Verbs :: "string list"
  pr_Resources :: "string list"
  pr_ResourceNames :: "string list"

record Role =
  ro_Namespace :: string
  ro_Name :: string
  ro_Owner :: "string option"
  ro_Rules :: "PolicyRule list"

record Subject =
  su_Kind :: string
  su_APIGroup :: string
  su_Name :: string
  su_Namespace :: string

record RoleRef =
  rref_APIGroup :: string
  rref_Kind :: string
  rref_Name :: string

record RoleBinding =
  rb_Namespace :: string
  rb_Name :: string
  rb_Owner :: "string option"
  rb_Subjects :: "Subject list"
  rb_RoleRef :: RoleRef

definition GetRBACName :: "string \<Rightarrow> string" where
  "GetRBACName clusterName = clusterName @ ''-pgbackrest''"

section \<open>The secrets an archive needs\<close>

fun reference_names :: "SecretKeySelector option list \<Rightarrow> string list" where
  "reference_names [] = []"
| "reference_names (None # refs) = reference_names refs"
| "reference_names (Some ref # refs) = sks_Name ref # reference_names refs"

definition CollectSecretNamesFromCredentials :: "PgbackrestCredentials \<Rightarrow> string list" where
  "CollectSecretNamesFromCredentials credentials =
     reference_names (case cred_AWS credentials of
        None \<Rightarrow> []
      | Some aws \<Rightarrow> [s3_AccessKeyIDReference aws, s3_SecretAccessKeyReference aws])"

fun CollectSecretNamesFromRepositories :: "PgbackrestRepository list \<Rightarrow> string list" where
  "CollectSecretNamesFromRepositories [] = []"
| "CollectSecretNamesFromRepositories (repo # repos) =
     (case repo_EndpointCA repo of None \<Rightarrow> [] | Some ref \<Rightarrow> [sks_Name ref])
     @ (case repo_EncryptionKey repo of None \<Rightarrow> [] | Some ref \<Rightarrow> [sks_Name ref])
     @ CollectSecretNamesFromRepositories repos"

text \<open>
  The two sets the role is built from, as the lists of the names put into them; \<open>toSorted\<close> is
  \<^verbatim>\<open>ToSortedList\<close> of the set with these members.
\<close>

fun repository_secrets :: "PgbackrestRepository list \<Rightarrow> string list \<Rightarrow> string list" where
  "repository_secrets [] secretsSet = secretsSet"
| "repository_secrets (repo # repos) secretsSet =
     repository_secrets repos
       (secretsSet @ CollectSecretNamesFromCredentials (repo_Credentials repo)
          @ CollectSecretNamesFromRepositories [repo])"

fun archive_sets :: "Archive list \<Rightarrow> string list \<Rightarrow> string list \<Rightarrow> string list \<times> string list" where
  "archive_sets [] objectsSet secretsSet = (objectsSet, secretsSet)"
| "archive_sets (a # as) objectsSet secretsSet =
     archive_sets as (objectsSet @ [arch_Name a])
       (repository_secrets (cfg_Repositories (archive_cfg a)) secretsSet)"

definition BuildRole :: "(string list \<Rightarrow> string list) \<Rightarrow> Cluster \<Rightarrow> Archive list \<Rightarrow> Role" where
  "BuildRole toSorted cluster pgbackrestObjects =
     (let (objectsSet, secretsSet) = archive_sets pgbackrestObjects [] []
      in \<lparr>ro_Namespace = cl_Namespace cluster, ro_Name = GetRBACName (cl_Name cluster), ro_Owner = None,
          ro_Rules =
            [\<lparr>pr_APIGroups = [''pgbackrest.cnpg.opera.com''], pr_Verbs = [''get'', ''watch'', ''list''],
              pr_Resources = [''archives''], pr_ResourceNames = toSorted objectsSet\<rparr>,
             \<lparr>pr_APIGroups = [''''], pr_Verbs = [''get'', ''watch'', ''list''],
              pr_Resources = [''secrets''], pr_ResourceNames = toSorted secretsSet\<rparr>]\<rparr>)"

text \<open>The first rule is about a type of the API group, whose name it spells out again.\<close>

lemma role_names_api_group:
  "\<exists>v kinds. snd (addKnownTypes []) = map (Pair (hd (pr_APIGroups (hd (ro_Rules (BuildRole toSorted cluster archives)))), v)) kinds
     \<and> ''Archive'' \<in> set kinds"
  by (intro exI [of _ "''v1''"] exI [of _ "[''Archive'', ''ArchiveList'']"])
    (simp add: addKnownTypes_def GroupVersion_def BuildRole_def split_beta)

definition BuildRoleBinding :: "Cluster \<Rightarrow> RoleBinding" where
  "BuildRoleBinding cluster =
     \<lparr>rb_Namespace = cl_Namespace cluster, rb_Name = GetRBACName (cl_Name cluster), rb_Owner = None,
      rb_Subjects = [\<lparr>su_Kind = ''ServiceAccount'', su_APIGroup = '''',
                      su_Name = cl_Name cluster, su_Namespace = cl_Namespace cluster\<rparr>],
      rb_RoleRef = \<lparr>rref_APIGroup = ''rbac.authorization.k8s.io'', rref_Kind = ''Role'',
                    rref_Name = GetRBACName (cl_Name cluster)\<rparr>\<rparr>"

section \<open>The reconciler hook\<close>

datatype behavior = BEHAVIOR_CONTINUE | BEHAVIOR_REQUEUE

datatype reconciler_kind = KIND_CLUSTER | KIND_BACKUP

text \<open>The API client over a state of any type, the decoder, and the owner references.\<close>

record 's kube =
  ku_GetKind :: "string \<Rightarrow> string go"
  ku_DecodeCluster :: "string \<Rightarrow> Cluster go"
  ku_GetArchive :: "NamespacedName \<Rightarrow> 's \<Rightarrow> Archive go"
  ku_GetRole :: "NamespacedName \<Rightarrow> 's \<Rightarrow> Role go"
  ku_CreateRole :: "Role \<Rightarrow> 's \<Rightarrow> unit go \<times> 's"
  ku_PatchRole :: "Role \<Rightarrow> Role \<Rightarrow> 's \<Rightarrow> unit go \<times> 's"
  ku_GetRoleBinding :: "NamespacedName \<Rightarrow> 's \<Rightarrow> RoleBinding go"
  ku_CreateRoleBinding :: "RoleBinding \<Rightarrow> 's \<Rightarrow> unit go \<times> 's"
  ku_OwnRole :: "Cluster \<Rightarrow> Role \<Rightarrow> Role go"
  ku_OwnRoleBinding :: "Cluster \<Rightarrow> RoleBinding \<Rightarrow> RoleBinding go"

definition Reconciler_GetCapabilities :: "reconciler_kind list" where
  "Reconciler_GetCapabilities = [KIND_CLUSTER, KIND_BACKUP]"

definition ensureRole ::
  "'s kube \<Rightarrow> (string list \<Rightarrow> string list) \<Rightarrow> Cluster \<Rightarrow> Archive list \<Rightarrow> 's \<Rightarrow> unit go \<times> 's" where
  "ensureRole ku toSorted cluster archiveObjects s =
     (let newRole = BuildRole toSorted cluster archiveObjects
      in case ku_GetRole ku (ro_Namespace newRole, ro_Name newRole) s of
           Panic m \<Rightarrow> (Panic m, s)
         | Fail err \<Rightarrow>
             if \<not> is_not_found err then (Fail err, s)
             else bindW (ku_OwnRole ku cluster newRole, s) (\<lambda>newRole s. ku_CreateRole ku newRole s)
         | Ret role \<Rightarrow>
             if ro_Rules newRole = ro_Rules role then (Ret (), s)
             else ku_PatchRole ku (role\<lparr>ro_Rules := ro_Rules newRole\<rparr>) role s)"

definition createRoleBinding :: "'s kube \<Rightarrow> Cluster \<Rightarrow> 's \<Rightarrow> unit go \<times> 's" where
  "createRoleBinding ku cluster s =
     bindW (ku_OwnRoleBinding ku cluster (BuildRoleBinding cluster), s)
       (\<lambda>roleBinding s. ku_CreateRoleBinding ku roleBinding s)"

definition ensureRoleBinding :: "'s kube \<Rightarrow> Cluster \<Rightarrow> 's \<Rightarrow> unit go \<times> 's" where
  "ensureRoleBinding ku cluster s =
     (case ku_GetRoleBinding ku (cl_Namespace cluster, GetRBACName (cl_Name cluster)) s of
        Panic m \<Rightarrow> (Panic m, s)
      | Fail err \<Rightarrow> if is_not_found err then createRoleBinding ku cluster s else (Fail err, s)
      | Ret role \<Rightarrow> (Ret (), s))"

text \<open>The Archive objects, or that one of them does not exist yet.\<close>

fun archives_loop ::
  "'s kube \<Rightarrow> NamespacedName list \<Rightarrow> 's \<Rightarrow> Archive list \<Rightarrow> Archive list option go" where
  "archives_loop ku [] s archiveObjects = Ret (Some archiveObjects)"
| "archives_loop ku (key # keys) s archiveObjects =
     (case ku_GetArchive ku key s of
        Panic m \<Rightarrow> Panic m
      | Fail err \<Rightarrow> if is_not_found err then Ret None else Fail err
      | Ret archiveObject \<Rightarrow> archives_loop ku keys s (archiveObjects @ [archiveObject]))"

definition Pre ::
  "'s kube \<Rightarrow> cnpg \<Rightarrow> (string list \<Rightarrow> string list) \<Rightarrow> string \<Rightarrow> 's \<Rightarrow> behavior go \<times> 's" where
  "Pre ku cn toSorted resourceDefinition s =
     bindW (ku_GetKind ku resourceDefinition, s) (\<lambda>reconciledKind s.
       if reconciledKind \<noteq> ''Cluster'' then (Ret BEHAVIOR_CONTINUE, s)
       else
         bindW (ku_DecodeCluster ku resourceDefinition, s) (\<lambda>cluster s.
         bindW (archives_loop ku (GetReferredArchiveObjectsKey (NewFromCluster cn cluster)) s [], s)
           (\<lambda>archives s.
              case archives of
                None \<Rightarrow> (Ret BEHAVIOR_REQUEUE, s)
              | Some archiveObjects \<Rightarrow>
                  bindW (ensureRole ku toSorted cluster archiveObjects s) (\<lambda>_ s.
                  bindW (ensureRoleBinding ku cluster s) (\<lambda>_ s. (Ret BEHAVIOR_CONTINUE, s))))))"

definition Post :: "'s \<Rightarrow> behavior go \<times> 's" where
  "Post s = (Ret BEHAVIOR_CONTINUE, s)"

section \<open>The role suffices for the credentials\<close>

definition sorted_set_ok :: "(string list \<Rightarrow> string list) \<Rightarrow> bool" where
  "sorted_set_ok toSorted \<longleftrightarrow> (\<forall>xs. set (toSorted xs) = set xs \<and> distinct (toSorted xs))"

definition repo_secret_names :: "PgbackrestRepository \<Rightarrow> string list" where
  "repo_secret_names repo = CollectSecretNamesFromCredentials (repo_Credentials repo)
     @ CollectSecretNamesFromRepositories [repo]"

lemma repository_secrets_concat:
  "repository_secrets repos ss = ss @ concat (map repo_secret_names repos)"
  by (induction repos arbitrary: ss) (simp_all add: repo_secret_names_def)

lemma archive_sets_concat:
  "archive_sets as os ss =
     (os @ map arch_Name as, ss @ concat (map (\<lambda>a. concat (map repo_secret_names (cfg_Repositories (archive_cfg a)))) as))"
  by (induction "as" arbitrary: os ss) (simp_all add: repository_secrets_concat)

text \<open>The names a role grants for a resource of an API group and a verb.\<close>

definition granted_names :: "Role \<Rightarrow> string \<Rightarrow> string \<Rightarrow> string \<Rightarrow> string set" where
  "granted_names role apiGroup resource verb =
     set (concat (map pr_ResourceNames (filter (\<lambda>rule. apiGroup \<in> set (pr_APIGroups rule)
       \<and> resource \<in> set (pr_Resources rule) \<and> verb \<in> set (pr_Verbs rule)) (ro_Rules role))))"

lemma BuildRole_grants:
  assumes "sorted_set_ok toSorted"
  shows "granted_names (BuildRole toSorted cluster as) '''' ''secrets'' ''get''
      = (\<Union>a \<in> set as. \<Union>repo \<in> set (cfg_Repositories (archive_cfg a)). set (repo_secret_names repo))"
    and "granted_names (BuildRole toSorted cluster as) ''pgbackrest.cnpg.opera.com'' ''archives'' ''get'' = arch_Name ` set as"
proof -
  have sorted: "set (toSorted xs) = set xs" for xs using assms by (simp add: sorted_set_ok_def)
  show "granted_names (BuildRole toSorted cluster as) '''' ''secrets'' ''get''
      = (\<Union>a \<in> set as. \<Union>repo \<in> set (cfg_Repositories (archive_cfg a)). set (repo_secret_names repo))"
    by (simp add: granted_names_def BuildRole_def archive_sets_concat sorted)
  show "granted_names (BuildRole toSorted cluster as) ''pgbackrest.cnpg.opera.com'' ''archives'' ''get'' = arch_Name ` set as"
    by (simp add: granted_names_def BuildRole_def archive_sets_concat sorted)
qed

text \<open>What an instance sees when it may only read the secrets of a set.\<close>

definition limited :: "string set \<Rightarrow> 'r host \<Rightarrow> 'r host" where
  "limited names h = h\<lparr>h_get_secret := (\<lambda>ns n. if n \<in> names then h_get_secret h ns n else Fail (ErrApi Forbidden))\<rparr>"

lemma extract_limited:
  "sks_Name ref \<in> names \<Longrightarrow> extractValueFromSecret (limited names h) ref ns = extractValueFromSecret h ref ns"
  by (simp add: extractValueFromSecret_def limited_def)

lemma repo_secret_names_iff:
  "n \<in> set (repo_secret_names repo) \<longleftrightarrow>
     (\<exists>aws ref. cred_AWS (repo_Credentials repo) = Some aws \<and> sks_Name ref = n
        \<and> (s3_AccessKeyIDReference aws = Some ref \<or> s3_SecretAccessKeyReference aws = Some ref))
     \<or> (\<exists>ref. repo_EndpointCA repo = Some ref \<and> sks_Name ref = n)
     \<or> (\<exists>ref. repo_EncryptionKey repo = Some ref \<and> sks_Name ref = n)"
proof -
  have refs: "n \<in> set (reference_names rs) \<longleftrightarrow> (\<exists>ref. Some ref \<in> set rs \<and> sks_Name ref = n)" for rs
    by (induction rs rule: reference_names.induct) auto
  have "n \<in> set (CollectSecretNamesFromRepositories [repo]) \<longleftrightarrow>
      (\<exists>ref. repo_EndpointCA repo = Some ref \<and> sks_Name ref = n) \<or> (\<exists>ref. repo_EncryptionKey repo = Some ref \<and> sks_Name ref = n)"
    by (cases "repo_EndpointCA repo"; cases "repo_EncryptionKey repo") auto
  then show ?thesis
    by (cases "cred_AWS (repo_Credentials repo)")
      (auto simp: repo_secret_names_def CollectSecretNamesFromCredentials_def refs)
qed

lemma aws_limited:
  assumes "set (repo_secret_names repo) \<subseteq> names"
  shows "envSetAWSCredentials (limited names h) ns (cred_AWS (repo_Credentials repo)) i env =
    envSetAWSCredentials h ns (cred_AWS (repo_Credentials repo)) i env"
proof (cases "cred_AWS (repo_Credentials repo)")
  case (Some aws)
  have "s3_AccessKeyIDReference aws = Some ref \<Longrightarrow> sks_Name ref \<in> names"
    "s3_SecretAccessKeyReference aws = Some ref \<Longrightarrow> sks_Name ref \<in> names" for ref
    using assms Some by (auto simp: subset_iff repo_secret_names_iff)
  then show ?thesis using Some
    by (cases "s3_AccessKeyIDReference aws"; cases "s3_SecretAccessKeyReference aws")
      (simp_all add: envSetAWSCredentials_def extract_limited)
qed (simp add: envSetAWSCredentials_def)

lemma encryption_limited:
  assumes "set (repo_secret_names repo) \<subseteq> names"
  shows "envSetEncryptionCredentials (limited names h) e (repo_EncryptionKey repo) ns i env =
    envSetEncryptionCredentials h e (repo_EncryptionKey repo) ns i env"
  using assms by (auto simp: envSetEncryptionCredentials_def extract_limited subset_iff repo_secret_names_iff
      split: option.splits)

lemma cloud_limited:
  "\<forall>repo \<in> set repos. set (repo_secret_names repo) \<subseteq> names \<Longrightarrow>
     cloud_credentials_loop (limited names h) ns i repos = cloud_credentials_loop h ns i repos"
proof (induction repos arbitrary: i)
  case (Cons repo repos)
  then have "cloud_credentials_loop (limited names h) ns (Suc i) repos = cloud_credentials_loop h ns (Suc i) repos" by simp
  with Cons.prems show ?case by (intro ext) (simp add: aws_limited encryption_limited)
qed (simp add: fun_eq_iff)

lemma ca_limited:
  "\<forall>repo \<in> set repos. set (repo_secret_names repo) \<subseteq> names \<Longrightarrow>
     ca_loop (limited names h) m loc ns i repos env = ca_loop h m loc ns i repos env"
proof (induction repos arbitrary: i env)
  case (Cons repo repos)
  show ?case
  proof (cases "repo_EndpointCA repo")
    case (Some ref)
    then have "sks_Name ref \<in> names" using Cons.prems by (auto simp: subset_iff repo_secret_names_iff)
    then have "writeEndpointCACertificate (limited names h) ref ns p f = writeEndpointCACertificate h ref ns p f" for p f
      by (simp add: writeEndpointCACertificate_def extract_limited)
    with Some Cons show ?thesis by (intro ext) simp
  qed (use Cons in \<open>simp add: fun_eq_iff\<close>)
qed (simp add: fun_eq_iff)

text \<open>
  C11. The role built for the archives of a cluster is enough to use each of them: assembling its
  credentials, for a backup or for a restore, gives the same result and the same files when every
  secret the role does not grant by name is forbidden; and the archives can be read.
\<close>

theorem BuildRole_covers_credentials:
  assumes "sorted_set_ok toSorted" "a \<in> set as"
  shows "let role = BuildRole toSorted cluster as;
             h' = limited (granted_names role '''' ''secrets'' ''get'') h
         in EnvSetBackupCloudCredentials h' ns (archive_cfg a) env fs = EnvSetBackupCloudCredentials h ns (archive_cfg a) env fs
          \<and> EnvSetRestoreCloudCredentials h' ns (archive_cfg a) env fs = EnvSetRestoreCloudCredentials h ns (archive_cfg a) env fs
          \<and> arch_Name a \<in> granted_names role ''pgbackrest.cnpg.opera.com'' ''archives'' ''get''"
proof -
  let ?role = "BuildRole toSorted cluster as"
  have "\<forall>repo \<in> set (cfg_Repositories (archive_cfg a)).
      set (repo_secret_names repo) \<subseteq> granted_names ?role '''' ''secrets'' ''get''"
    using assms(2) by (auto simp: BuildRole_grants(1) [OF assms(1)])
  then show ?thesis
    using assms(2) by (simp add: Let_def EnvSetBackupCloudCredentials_def EnvSetRestoreCloudCredentials_def
        envSetCloudCredentials_def ca_limited cloud_limited BuildRole_grants(2) [OF assms(1)])
qed

theorem BuildRole_covers_credentials_witness:
  "let h' = limited {''s3'', ''enc'', ''ca''} host_example
   in EnvSetBackupCloudCredentials h' ''ns'' secret_cfg_example [] root_fs
     = EnvSetBackupCloudCredentials host_example ''ns'' secret_cfg_example [] root_fs"
proof -
  have "sorted_set_ok remdups" by (simp add: sorted_set_ok_def)
  moreover have "archive_example \<in> set [archive_example]" by simp
  moreover have "granted_names (BuildRole remdups cluster_example [archive_example]) '''' ''secrets'' ''get'' = {''s3'', ''enc'', ''ca''}"
    by (simp add: BuildRole_grants(1) [OF \<open>sorted_set_ok remdups\<close>] archive_example_def secret_cfg_example_def
        cfg_example_def secret_repo_example_def aws_example_def repo_secret_names_def
        CollectSecretNamesFromCredentials_def insert_commute)
  moreover have "archive_cfg archive_example = secret_cfg_example" by (simp add: archive_example_def)
  ultimately show ?thesis
    using BuildRole_covers_credentials [of remdups archive_example "[archive_example]" cluster_example host_example "''ns''" "[]" root_fs]
    by (simp add: Let_def)
qed

text \<open>With no secret to read the rule for secrets names none, which Kubernetes takes as any.\<close>

lemma BuildRole_no_secrets:
  assumes "sorted_set_ok toSorted"
    and "\<forall>a \<in> set as. \<forall>repo \<in> set (cfg_Repositories (archive_cfg a)). repo_secret_names repo = []"
  shows "\<exists>rule \<in> set (ro_Rules (BuildRole toSorted cluster as)).
    pr_Resources rule = [''secrets''] \<and> pr_ResourceNames rule = []"
proof -
  have names: "concat (map (\<lambda>a. concat (map repo_secret_names (cfg_Repositories (archive_cfg a)))) as) = []"
    using assms(2) by simp
  have "toSorted [] = []" using assms(1) by (metis sorted_set_ok_def set_empty)
  then show ?thesis by (simp add: BuildRole_def archive_sets_concat names del: concat_eq_Nil_conv)
qed

section \<open>Reconciliation reaches the desired state and then rests\<close>

text \<open>What the hook relies on: the client's reads see its own successful writes, objects are kept
  under their namespace and name, and setting an owner changes nothing else.\<close>

definition role_key :: "Role \<Rightarrow> NamespacedName" where
  "role_key r = (ro_Namespace r, ro_Name r)"

definition binding_key :: "RoleBinding \<Rightarrow> NamespacedName" where
  "binding_key b = (rb_Namespace b, rb_Name b)"

definition kube_ok :: "'s kube \<Rightarrow> bool" where
  "kube_ok ku \<longleftrightarrow>
     (\<forall>k r s. ku_GetRole ku k s = Ret r \<longrightarrow> role_key r = k)
   \<and> (\<forall>r s s'. ku_CreateRole ku r s = (Ret (), s') \<longrightarrow> ku_GetRole ku (role_key r) s' = Ret r)
   \<and> (\<forall>r b s s'. ku_PatchRole ku r b s = (Ret (), s') \<and> role_key r = role_key b
        \<and> ku_GetRole ku (role_key b) s = Ret b \<longrightarrow> ku_GetRole ku (role_key r) s' = Ret r)
   \<and> (\<forall>b s s'. ku_CreateRoleBinding ku b s = (Ret (), s') \<longrightarrow>
        ku_GetRoleBinding ku (binding_key b) s' = Ret b
        \<and> (\<forall>k. ku_GetRole ku k s' = ku_GetRole ku k s) \<and> (\<forall>k. ku_GetArchive ku k s' = ku_GetArchive ku k s))
   \<and> (\<forall>r s k. ku_GetArchive ku k (snd (ku_CreateRole ku r s)) = ku_GetArchive ku k s)
   \<and> (\<forall>r b s k. ku_GetArchive ku k (snd (ku_PatchRole ku r b s)) = ku_GetArchive ku k s)
   \<and> (\<forall>c r r'. ku_OwnRole ku c r = Ret r' \<longrightarrow> r' = r\<lparr>ro_Owner := ro_Owner r'\<rparr>)
   \<and> (\<forall>c b b'. ku_OwnRoleBinding ku c b = Ret b' \<longrightarrow> b' = b\<lparr>rb_Owner := rb_Owner b'\<rparr>)"

lemma kube_okD:
  assumes "kube_ok ku"
  shows "ku_GetRole ku k s = Ret r \<Longrightarrow> role_key r = k"
    and "ku_CreateRole ku r s = (Ret (), s') \<Longrightarrow> ku_GetRole ku (role_key r) s' = Ret r"
    and "\<lbrakk>ku_PatchRole ku r b s = (Ret (), s'); role_key r = role_key b; ku_GetRole ku (role_key b) s = Ret b\<rbrakk>
      \<Longrightarrow> ku_GetRole ku (role_key r) s' = Ret r"
    and "ku_CreateRoleBinding ku rb s = (Ret (), s') \<Longrightarrow> ku_GetRoleBinding ku (binding_key rb) s' = Ret rb"
    and "ku_CreateRoleBinding ku rb s = (Ret (), s') \<Longrightarrow> ku_GetRole ku k s' = ku_GetRole ku k s"
    and "ku_CreateRoleBinding ku rb s = (Ret (), s') \<Longrightarrow> ku_GetArchive ku k s' = ku_GetArchive ku k s"
    and "ku_CreateRole ku r s = (Ret (), s') \<Longrightarrow> ku_GetArchive ku k s' = ku_GetArchive ku k s"
    and "ku_PatchRole ku r b s = (Ret (), s') \<Longrightarrow> ku_GetArchive ku k s' = ku_GetArchive ku k s"
    and "ku_OwnRole ku c r = Ret r' \<Longrightarrow> r' = r\<lparr>ro_Owner := ro_Owner r'\<rparr>"
    and "ku_OwnRoleBinding ku c rb = Ret rb' \<Longrightarrow> rb' = rb\<lparr>rb_Owner := rb_Owner rb'\<rparr>"
  using assms unfolding kube_ok_def by (elim conjE; metis snd_conv)+

definition cluster_key :: "Cluster \<Rightarrow> NamespacedName" where
  "cluster_key c = (cl_Namespace c, GetRBACName (cl_Name c))"

lemma BuildRole_key [simp]: "role_key (BuildRole f c as) = cluster_key c"
  by (simp add: role_key_def BuildRole_def cluster_key_def split_beta)

lemma archives_loop_cong:
  "(\<And>k. ku_GetArchive ku k s' = ku_GetArchive ku k s) \<Longrightarrow> archives_loop ku ks s' acc = archives_loop ku ks s acc"
  by (induction ks arbitrary: acc) (auto split: go.splits)

lemma ensureRole_ok:
  assumes "kube_ok ku" "ensureRole ku f c as s = (Ret (), s')"
  shows "\<exists>role. ku_GetRole ku (cluster_key c) s' = Ret role \<and> ro_Rules role = ro_Rules (BuildRole f c as)"
    and "ku_GetArchive ku k s' = ku_GetArchive ku k s"
proof -
  let ?new = "BuildRole f c as"
  have key: "(ro_Namespace ?new, ro_Name ?new) = cluster_key c" using BuildRole_key [of f c as] by (simp add: role_key_def)
  have "(\<exists>role. ku_GetRole ku (cluster_key c) s' = Ret role \<and> ro_Rules role = ro_Rules ?new)
      \<and> (\<forall>k. ku_GetArchive ku k s' = ku_GetArchive ku k s)"
  proof (cases "ku_GetRole ku (cluster_key c) s")
    case (Ret role)
    have rk: "role_key role = cluster_key c" using kube_okD(1) [OF assms(1) Ret] .
    show ?thesis
    proof (cases "ro_Rules ?new = ro_Rules role")
      case False
      let ?r = "role\<lparr>ro_Rules := ro_Rules ?new\<rparr>"
      have p: "ku_PatchRole ku ?r role s = (Ret (), s')" using assms(2) Ret False key
        by (simp add: ensureRole_def Let_def)
      have "role_key ?r = role_key role" by (simp add: role_key_def)
      then have "ku_GetRole ku (role_key ?r) s' = Ret ?r"
        using kube_okD(3) [OF assms(1) p] Ret rk by simp
      then show ?thesis using kube_okD(8) [OF assms(1) p] rk \<open>role_key ?r = role_key role\<close> by auto
    qed (use assms(2) Ret key in \<open>auto simp: ensureRole_def Let_def\<close>)
  next
    case (Fail e)
    then obtain r where o: "ku_OwnRole ku c ?new = Ret r" and cr: "ku_CreateRole ku r s = (Ret (), s')"
      using assms(2) key by (auto simp: ensureRole_def Let_def bindW_Ret_iff split: if_splits)
    have "r = ?new\<lparr>ro_Owner := ro_Owner r\<rparr>" using kube_okD(9) [OF assms(1) o] .
    then have r: "role_key r = cluster_key c" "ro_Rules r = ro_Rules ?new"
      using BuildRole_key [of f c as] by (metis Role.select_convs Role.surjective Role.update_convs(3) role_key_def)+
    then show ?thesis using kube_okD(2,7) [OF assms(1) cr] by auto
  qed (use assms(2) key in \<open>simp add: ensureRole_def Let_def\<close>)
  then show "\<exists>role. ku_GetRole ku (cluster_key c) s' = Ret role \<and> ro_Rules role = ro_Rules ?new"
    and "ku_GetArchive ku k s' = ku_GetArchive ku k s" by blast+
qed

lemma ensureRoleBinding_ok:
  assumes "kube_ok ku" "ensureRoleBinding ku c s = (Ret (), s')"
  shows "\<exists>b. ku_GetRoleBinding ku (cluster_key c) s' = Ret b"
    and "ku_GetRole ku k s' = ku_GetRole ku k s" "ku_GetArchive ku k s' = ku_GetArchive ku k s"
proof -
  have "(\<exists>b. ku_GetRoleBinding ku (cluster_key c) s' = Ret b) \<and> (\<forall>k. ku_GetRole ku k s' = ku_GetRole ku k s)
      \<and> (\<forall>k. ku_GetArchive ku k s' = ku_GetArchive ku k s)"
  proof (cases "ku_GetRoleBinding ku (cluster_key c) s")
    case (Fail e)
    then obtain b where o: "ku_OwnRoleBinding ku c (BuildRoleBinding c) = Ret b"
      and cr: "ku_CreateRoleBinding ku b s = (Ret (), s')"
      using assms(2) by (auto simp: ensureRoleBinding_def createRoleBinding_def cluster_key_def bindW_Ret_iff split: if_splits)
    have "b = (BuildRoleBinding c)\<lparr>rb_Owner := rb_Owner b\<rparr>" using kube_okD(10) [OF assms(1) o] .
    moreover have "binding_key ((BuildRoleBinding c)\<lparr>rb_Owner := x\<rparr>) = cluster_key c" for x
      by (simp add: binding_key_def BuildRoleBinding_def cluster_key_def)
    ultimately have "binding_key b = cluster_key c" by metis
    then show ?thesis using kube_okD(4-6) [OF assms(1) cr] by auto
  qed (use assms(2) in \<open>auto simp: ensureRoleBinding_def cluster_key_def\<close>)
  then show "\<exists>b. ku_GetRoleBinding ku (cluster_key c) s' = Ret b"
    and "ku_GetRole ku k s' = ku_GetRole ku k s" "ku_GetArchive ku k s' = ku_GetArchive ku k s" by blast+
qed

lemma ensureRole_rests:
  assumes "ku_GetRole ku (cluster_key c) s = Ret role" "ro_Rules role = ro_Rules (BuildRole f c as)"
  shows "ensureRole ku f c as s = (Ret (), s)"
proof -
  have "(ro_Namespace (BuildRole f c as), ro_Name (BuildRole f c as)) = cluster_key c"
    using BuildRole_key [of f c as] by (simp add: role_key_def)
  with assms show ?thesis by (simp add: ensureRole_def Let_def)
qed

lemma ensureRoleBinding_rests:
  "ku_GetRoleBinding ku (cluster_key c) s = Ret b \<Longrightarrow> ensureRoleBinding ku c s = (Ret (), s)"
  by (simp add: ensureRoleBinding_def cluster_key_def)


text \<open>A store of roles and bindings with the client's laws.\<close>

type_synonym rbac_store = "(NamespacedName \<times> Role) list \<times> (NamespacedName \<times> RoleBinding) list"

definition kube_example :: "rbac_store kube" where
  "kube_example =
     \<lparr>ku_GetKind = (\<lambda>s. Ret ''Cluster''), ku_DecodeCluster = (\<lambda>s. Ret cluster_example),
      ku_GetArchive = (\<lambda>k s. Ret archive_example),
      ku_GetRole = (\<lambda>k s. case map_of (fst s) k of None \<Rightarrow> Fail (ErrApi NotFound)
         | Some r \<Rightarrow> Ret (r\<lparr>ro_Namespace := fst k, ro_Name := snd k\<rparr>)),
      ku_CreateRole = (\<lambda>r s. (Ret (), ((role_key r, r) # fst s, snd s))),
      ku_PatchRole = (\<lambda>r b s. (Ret (), ((role_key r, r) # fst s, snd s))),
      ku_GetRoleBinding = (\<lambda>k s. case map_of (snd s) k of None \<Rightarrow> Fail (ErrApi NotFound) | Some b \<Rightarrow> Ret b),
      ku_CreateRoleBinding = (\<lambda>b s. (Ret (), (fst s, (binding_key b, b) # snd s))),
      ku_OwnRole = (\<lambda>c r. Ret (r\<lparr>ro_Owner := Some (cl_Name c)\<rparr>)),
      ku_OwnRoleBinding = (\<lambda>c b. Ret (b\<lparr>rb_Owner := Some (cl_Name c)\<rparr>))\<rparr>"

lemma kube_example_ok: "kube_ok kube_example"
  by (auto simp: kube_ok_def kube_example_def role_key_def split: option.splits)


end
