(* ===== verification/Go_Memory.thy ===== *)
theory Go_Memory
  imports Main "HOL-Library.Sublist"
begin

text \<open>
  Go's memory, for the code in which it matters which values share storage. A memory is the list of
  the cells allocated so far; an address is an index into it, and \<^verbatim>\<open>new\<close> and
  \<^verbatim>\<open>make\<close> append a cell. A pointer, a slice and a map are addresses, or nil. A cell
  holds a struct, an array or the entries of a map; the type \<open>'c\<close> of what cells hold is fixed by
  the theories that use this one, with a constructor and a projection for each Go type.

  A \<^emph>\<open>view\<close> reads a Go value out of the memory: it gives the value with everything it points to, and
  its \<^emph>\<open>footprint\<close>, the addresses that were followed. A \<^emph>\<open>deep copy\<close> gives a value with the same view in
  cells allocated for it alone; the locale \<open>deep_copy\<close> is that contract.
\<close>

section \<open>Cells\<close>

type_synonym addr = nat
type_synonym 'c memory = "'c list"

definition deref :: "'c memory \<Rightarrow> addr \<Rightarrow> 'c option" where
  "deref s a = (if a < length s then Some (s ! a) else None)"

definition agree :: "addr list \<Rightarrow> 'c memory \<Rightarrow> 'c memory \<Rightarrow> bool" where
  "agree A s s' \<longleftrightarrow> (\<forall>a \<in> set A. deref s' a = deref s a)"

definition fresh_cells :: "'c memory \<Rightarrow> 'c memory \<Rightarrow> addr list \<Rightarrow> bool" where
  "fresh_cells s s' B \<longleftrightarrow> distinct B \<and> set B \<subseteq> {length s..<length s'}"

lemma deref_prefix: "prefix s s' \<Longrightarrow> deref s a = Some c \<Longrightarrow> deref s' a = Some c"
  by (auto simp: deref_def nth_append prefix_def split: if_splits)

lemma deref_update [simp]: "deref (s[a := c]) b = (if a = b \<and> a < length s then Some c else deref s b)"
  by (auto simp: deref_def)

lemma deref_bounded: "deref s a = Some c \<Longrightarrow> a < length s"
  by (auto simp: deref_def split: if_splits)

lemma agree_append [simp]: "agree (A @ B) s s' \<longleftrightarrow> agree A s s' \<and> agree B s s'"
  by (auto simp: agree_def)

lemma agree_Nil [simp]: "agree [] s s'"
  by (simp add: agree_def)

lemma agree_Cons [simp]: "agree (a # A) s s' \<longleftrightarrow> deref s' a = deref s a \<and> agree A s s'"
  by (auto simp: agree_def)

lemma agree_prefix: "prefix s s' \<Longrightarrow> set A \<subseteq> {..<length s} \<Longrightarrow> agree A s s'"
  by (auto simp: agree_def deref_def nth_append prefix_def)

lemma agree_update: "a \<notin> set A \<Longrightarrow> agree A s (s[a := c])"
  by (auto simp: agree_def)

lemma fresh_cells_Nil [simp]: "fresh_cells s s' []"
  by (simp add: fresh_cells_def)

lemma fresh_cells_append:
  assumes "fresh_cells s s1 A" "fresh_cells s1 s2 B" "prefix s s1" "prefix s1 s2"
  shows "fresh_cells s s2 (A @ B)"
proof -
  have "length s \<le> length s1" "length s1 \<le> length s2" using assms(3,4) by (auto dest: prefix_length_le)
  moreover have "set A \<inter> set B = {}" using assms(1,2) by (fastforce simp: fresh_cells_def)
  ultimately show ?thesis using assms(1,2) by (fastforce simp: fresh_cells_def)
qed

text \<open>A new cell, filled in after what it points to has been allocated.\<close>

lemma fill_new_cell:
  assumes "prefix (s @ [c]) s'"
  shows "prefix s (s'[length s := d])" and "deref (s'[length s := d]) (length s) = Some d"
    and "length s < length s'"
proof -
  from assms obtain t where "s' = s @ c # t" by (auto simp: prefix_def)
  then show "prefix s (s'[length s := d])" "deref (s'[length s := d]) (length s) = Some d"
    "length s < length s'" by (simp_all add: deref_def)
qed

section \<open>Views\<close>

type_synonym ('c, 'm, 'v) view = "'c memory \<Rightarrow> 'm \<Rightarrow> ('v \<times> addr list) option"

locale memory_view =
  fixes view :: "('c, 'm, 'v) view"
  assumes view_bounded: "view s m = Some (v, A) \<Longrightarrow> set A \<subseteq> {..<length s}"
    and view_frame: "view s m = Some (v, A) \<Longrightarrow> agree A s s' \<Longrightarrow> view s' m = Some (v, A)"
begin

lemma view_prefix: "view s m = Some (v, A) \<Longrightarrow> prefix s s' \<Longrightarrow> view s' m = Some (v, A)"
  by (meson agree_prefix view_bounded view_frame)

lemma view_update: "view s m = Some (v, A) \<Longrightarrow> a \<notin> set A \<Longrightarrow> view (s[a := c]) m = Some (v, A)"
  by (meson agree_update view_frame)

end

text \<open>A value without pointers is its own view.\<close>

definition flat_view :: "('c, 'm, 'm) view" where
  "flat_view s m = Some (m, [])"

definition pair_view :: "('c, 'm, 'v) view \<Rightarrow> ('c, 'n, 'w) view \<Rightarrow> ('c, 'm \<times> 'n, 'v \<times> 'w) view" where
  "pair_view view1 view2 s mn =
     (case view1 s (fst mn) of None \<Rightarrow> None
      | Some (v, A) \<Rightarrow> (case view2 s (snd mn) of None \<Rightarrow> None | Some (w, B) \<Rightarrow> Some ((v, w), A @ B)))"

fun list_view :: "('c, 'm, 'v) view \<Rightarrow> ('c, 'm list, 'v list) view" where
  "list_view view s [] = Some ([], [])"
| "list_view view s (m # ms) =
     (case view s m of None \<Rightarrow> None
      | Some (v, A) \<Rightarrow> (case list_view view s ms of None \<Rightarrow> None | Some (vs, B) \<Rightarrow> Some (v # vs, A @ B)))"

text \<open>A pointer (or a map, whose cell holds the entries): the projection \<open>get\<close> is that of its type.\<close>

definition ptr_view :: "('c \<Rightarrow> 'm option) \<Rightarrow> ('c, 'm, 'v) view \<Rightarrow> ('c, addr option, 'v option) view" where
  "ptr_view get view s p =
     (case p of None \<Rightarrow> Some (None, [])
      | Some a \<Rightarrow> (case Option.bind (deref s a) get of None \<Rightarrow> None
          | Some m \<Rightarrow> (case view s m of None \<Rightarrow> None | Some (v, A) \<Rightarrow> Some (Some v, a # A))))"

text \<open>A slice is an array with the number of its elements that belong to the slice, from the first on.\<close>

type_synonym slice = "(addr \<times> nat) option"

fun slice_elements :: "('c \<Rightarrow> 'm list option) \<Rightarrow> 'c memory \<Rightarrow> addr \<times> nat \<Rightarrow> 'm list option" where
  "slice_elements get s (a, n) =
     (case Option.bind (deref s a) get of None \<Rightarrow> None
      | Some ms \<Rightarrow> if n \<le> length ms then Some (take n ms) else None)"

definition slice_view :: "('c \<Rightarrow> 'm list option) \<Rightarrow> ('c, 'm, 'v) view \<Rightarrow> ('c, slice, 'v list option) view" where
  "slice_view get view s sl =
     (case sl of None \<Rightarrow> Some (None, [])
      | Some an \<Rightarrow> (case slice_elements get s an of None \<Rightarrow> None
          | Some ms \<Rightarrow> (case list_view view s ms of None \<Rightarrow> None
              | Some (vs, A) \<Rightarrow> Some (Some vs, fst an # A))))"

lemma pair_view_Some:
  "pair_view view1 view2 s mn = Some r \<longleftrightarrow>
     (\<exists>v A w B. view1 s (fst mn) = Some (v, A) \<and> view2 s (snd mn) = Some (w, B) \<and> r = ((v, w), A @ B))"
  by (auto simp: pair_view_def split: option.splits)

lemma list_view_Cons_Some:
  "list_view view s (m # ms) = Some r \<longleftrightarrow>
     (\<exists>v A vs B. view s m = Some (v, A) \<and> list_view view s ms = Some (vs, B) \<and> r = (v # vs, A @ B))"
  by (auto split: option.splits)

lemma ptr_view_Some:
  "ptr_view get view s p = Some r \<longleftrightarrow>
     (p = None \<and> r = (None, [])
      \<or> (\<exists>a c m v A. p = Some a \<and> deref s a = Some c \<and> get c = Some m \<and> view s m = Some (v, A) \<and> r = (Some v, a # A)))"
  by (auto simp: ptr_view_def bind_eq_Some_conv split: option.splits)

lemma slice_elements_Some:
  "slice_elements get s (a, n) = Some ms \<longleftrightarrow>
     (\<exists>c xs. deref s a = Some c \<and> get c = Some xs \<and> n \<le> length xs \<and> ms = take n xs)"
  by (auto simp: bind_eq_Some_conv split: option.splits if_splits)

lemma slice_view_Some:
  "slice_view get view s sl = Some r \<longleftrightarrow>
     (sl = None \<and> r = (None, [])
      \<or> (\<exists>a n ms vs A. sl = Some (a, n) \<and> slice_elements get s (a, n) = Some ms
            \<and> list_view view s ms = Some (vs, A) \<and> r = (Some vs, a # A)))"
  by (auto simp: slice_view_def split: option.splits simp del: slice_elements.simps)

lemmas view_Some = pair_view_Some list_view_Cons_Some ptr_view_Some slice_view_Some slice_elements_Some

lemma flat_memory_view: "memory_view flat_view"
  by unfold_locales (simp_all add: flat_view_def)

lemma pair_memory_view:
  assumes "memory_view view1" "memory_view view2"
  shows "memory_view (pair_view view1 view2)"
proof
  fix s mn vw A s' assume "pair_view view1 view2 s mn = Some (vw, A)"
  then obtain v A1 w A2 where p: "view1 s (fst mn) = Some (v, A1)" "view2 s (snd mn) = Some (w, A2)"
    "vw = (v, w)" "A = A1 @ A2" by (auto simp: pair_view_Some)
  show "set A \<subseteq> {..<length s}"
    using memory_view.view_bounded [OF assms(1) p(1)] memory_view.view_bounded [OF assms(2) p(2)] p(4) by simp
  assume "agree A s s'"
  with p memory_view.view_frame [OF assms(1) p(1)] memory_view.view_frame [OF assms(2) p(2)]
  show "pair_view view1 view2 s' mn = Some (vw, A)" by (simp add: pair_view_def)
qed

context memory_view
begin

lemma list_view: "memory_view (list_view view)"
proof
  fix s ms vs A s' assume v: "list_view view s ms = Some (vs, A)"
  then show "set A \<subseteq> {..<length s}"
  proof (induction ms arbitrary: vs A)
    case (Cons m ms)
    from Cons.prems obtain v A1 ws A2 where "view s m = Some (v, A1)" "list_view view s ms = Some (ws, A2)" "A = A1 @ A2"
      unfolding list_view_Cons_Some by blast
    with Cons.IH [of ws A2] view_bounded [of s m v A1] show ?case by simp
  qed simp
  assume "agree A s s'"
  with v show "list_view view s' ms = Some (vs, A)"
  proof (induction ms arbitrary: vs A)
    case (Cons m ms)
    from Cons.prems(1) obtain v A1 ws A2 where l: "view s m = Some (v, A1)" "list_view view s ms = Some (ws, A2)"
      "vs = v # ws" "A = A1 @ A2"
      unfolding list_view_Cons_Some by blast
    with Cons.prems(2) have "agree A1 s s'" "agree A2 s s'" by simp_all
    with Cons.IH [OF l(2)] view_frame [OF l(1)] l(3,4) show ?case by simp
  qed simp
qed

lemma ptr_view: "memory_view (ptr_view get view)"
proof
  fix s p r A s' assume v: "ptr_view get view s p = Some (r, A)"
  show "set A \<subseteq> {..<length s}"
  proof (cases p)
    case (Some a)
    with v obtain c m w B where "deref s a = Some c" "view s m = Some (w, B)" "A = a # B"
      by (auto simp: ptr_view_Some)
    with view_bounded [of s m w B] deref_bounded [of s a c] show ?thesis by simp
  qed (use v in \<open>simp add: ptr_view_def\<close>)
  assume agree: "agree A s s'"
  show "ptr_view get view s' p = Some (r, A)"
  proof (cases p)
    case (Some a)
    with v obtain c m w B where c: "deref s a = Some c" "get c = Some m" "view s m = Some (w, B)" "r = Some w" "A = a # B"
      by (auto simp: ptr_view_Some)
    with agree have "deref s' a = Some c" "agree B s s'" by simp_all
    with c view_frame [OF c(3)] Some show ?thesis by (simp add: ptr_view_def)
  qed (use v in \<open>simp add: ptr_view_def\<close>)
qed

lemma slice_view: "memory_view (slice_view get view)"
proof
  fix s sl r A s' assume v: "slice_view get view s sl = Some (r, A)"
  show "set A \<subseteq> {..<length s}"
  proof (cases sl)
    case (Some an)
    then obtain a n where an: "sl = Some (a, n)" by (cases an) auto
    with v obtain ms ws B where e: "slice_elements get s (a, n) = Some ms" "list_view view s ms = Some (ws, B)" "A = a # B"
      unfolding slice_view_Some by blast
    then obtain c where "deref s a = Some c" unfolding slice_elements_Some by blast
    with e memory_view.view_bounded [OF list_view e(2)] show ?thesis by (simp add: deref_bounded)
  qed (use v in \<open>simp add: slice_view_def\<close>)
  assume agree: "agree A s s'"
  show "slice_view get view s' sl = Some (r, A)"
  proof (cases sl)
    case (Some an)
    then obtain a n where an: "sl = Some (a, n)" by (cases an) auto
    with v obtain ms ws B where e: "slice_elements get s (a, n) = Some ms" "list_view view s ms = Some (ws, B)"
      "r = Some ws" "A = a # B"
      unfolding slice_view_Some by blast
    with agree have "deref s' a = deref s a" "agree B s s'" by simp_all
    with e memory_view.view_frame [OF list_view e(2)] an show ?thesis by (simp add: slice_view_def)
  qed (use v in \<open>simp add: slice_view_def\<close>)
qed

text \<open>A struct: its view is made of the view of its pointers and of its other fields.\<close>

lemma record_view:
  assumes "\<And>s m. view' s m = map_option (apfst (build m)) (view s (pointers m))"
  shows "memory_view view'"
proof
  fix s m v A s' assume "view' s m = Some (v, A)"
  then obtain w where w: "view s (pointers m) = Some (w, A)" "v = build m w" by (auto simp: assms)
  show "set A \<subseteq> {..<length s}" using w(1) by (rule view_bounded)
  assume "agree A s s'"
  then show "view' s' m = Some (v, A)" using view_frame [OF w(1)] w(2) by (simp add: assms)
qed

end

text \<open>An address that is not nil, read as what it leads to.\<close>

lemma target_memory_view:
  assumes "memory_view view"
    and "\<And>s a v A. view' s a = Some (v, A) \<longleftrightarrow> view s (Some a) = Some (Some v, A)"
  shows "memory_view view'"
proof
  fix s a v A s' assume "view' s a = Some (v, A)"
  then have v: "view s (Some a) = Some (Some v, A)" by (simp only: assms(2))
  show "set A \<subseteq> {..<length s}" using assms(1) v by (rule memory_view.view_bounded)
  assume "agree A s s'"
  from memory_view.view_frame [OF assms(1) v this] show "view' s' a = Some (v, A)" by (simp only: assms(2))
qed

section \<open>Deep copies\<close>

type_synonym ('c, 'm) copier = "'m \<Rightarrow> 'c memory \<Rightarrow> 'm \<times> 'c memory"

text \<open>
  A struct is copied by the assignment \<^verbatim>\<open>*out = *in\<close>; \<open>copy_value\<close> is that alone, which is
  all a type without pointers needs.
\<close>

definition copy_value :: "('c, 'm) copier" where
  "copy_value m s = (m, s)"

text \<open>
  \<^verbatim>\<open>if in != nil { out = new(T); in.DeepCopyInto(out) }\<close>. The cell is allocated
  with the content \<open>zero\<close> before what it points to, and filled in afterwards. An address outside of
  the memory, or one whose cell is of another type, does not occur in Go: the address is kept.
\<close>

definition new_copy :: "('m \<Rightarrow> 'c) \<Rightarrow> ('c \<Rightarrow> 'm option) \<Rightarrow> 'c \<Rightarrow> ('c, 'm) copier \<Rightarrow> ('c, addr option) copier" where
  "new_copy mk get zero DeepCopyInto p s =
     (case p of None \<Rightarrow> (None, s)
      | Some a \<Rightarrow> (case Option.bind (deref s a) get of None \<Rightarrow> (Some a, s)
          | Some m \<Rightarrow>
              let out = length s;
                  (m, s) = DeepCopyInto m (s @ [zero])
              in (Some out, s[out := mk m])))"

text \<open>
  \<^verbatim>\<open>if in != nil { out = make([]T, len(in)); for i := range in { in[i].DeepCopyInto(&out[i]) } }\<close>.
\<close>

fun copy_elements :: "('c, 'm) copier \<Rightarrow> ('c, 'm list) copier" where
  "copy_elements DeepCopyInto [] s = ([], s)"
| "copy_elements DeepCopyInto (m # ms) s =
     (let (m', s) = DeepCopyInto m s; (ms', s) = copy_elements DeepCopyInto ms s in (m' # ms', s))"

definition make_copy ::
  "('m list \<Rightarrow> 'c) \<Rightarrow> ('c \<Rightarrow> 'm list option) \<Rightarrow> 'c \<Rightarrow> ('c, 'm) copier \<Rightarrow> ('c, slice) copier" where
  "make_copy mk get zero DeepCopyInto sl s =
     (case sl of None \<Rightarrow> (None, s)
      | Some an \<Rightarrow> (case slice_elements get s an of None \<Rightarrow> (Some an, s)
          | Some ms \<Rightarrow>
              let out = length s;
                  (ms, s) = copy_elements DeepCopyInto ms (s @ [zero])
              in (Some (out, length ms), s[out := mk ms])))"

definition pair_copy :: "('c, 'm) copier \<Rightarrow> ('c, 'n) copier \<Rightarrow> ('c, 'm \<times> 'n) copier" where
  "pair_copy copy1 copy2 mn s =
     (let (m, s) = copy1 (fst mn) s; (n, s) = copy2 (snd mn) s in ((m, n), s))"

text \<open>
  The contract: what was in the memory stays, the copy has the view of the original, and its
  footprint is a list of different cells allocated by the copy.
\<close>

locale deep_copy = memory_view view for view :: "('c, 'm, 'v) view" +
  fixes copy :: "('c, 'm) copier"
  assumes copies: "view s m = Some (v, A) \<Longrightarrow> copy m s = (m', s') \<Longrightarrow>
      prefix s s' \<and> (\<exists>B. view s' m' = Some (v, B) \<and> fresh_cells s s' B)"

lemma flat_deep_copy: "deep_copy flat_view copy_value"
  by (intro deep_copy.intro flat_memory_view deep_copy_axioms.intro) (auto simp: flat_view_def copy_value_def)

lemma pair_deep_copy:
  assumes "deep_copy view1 copy1" "deep_copy view2 copy2"
  shows "deep_copy (pair_view view1 view2) (pair_copy copy1 copy2)"
proof (intro deep_copy.intro pair_memory_view deep_copy_axioms.intro)
  note view1 = deep_copy.axioms(1) [OF assms(1)] and view2 = deep_copy.axioms(1) [OF assms(2)]
  show "memory_view view1" "memory_view view2" by (fact view1, fact view2)
  fix s mn vw A mn' s' assume "pair_view view1 view2 s mn = Some (vw, A)"
  then obtain v A1 w A2 where p: "view1 s (fst mn) = Some (v, A1)" "view2 s (snd mn) = Some (w, A2)" "vw = (v, w)"
    by (auto simp: pair_view_Some)
  assume copy: "pair_copy copy1 copy2 mn s = (mn', s')"
  obtain m s1 where c1: "copy1 (fst mn) s = (m, s1)" by fastforce
  obtain n where c2: "copy2 (snd mn) s1 = (n, s')" and mn': "mn' = (m, n)"
    using copy c1 by (auto simp: pair_copy_def split: prod.splits)
  from deep_copy.copies [OF assms(1) p(1) c1] obtain B1
    where B1: "prefix s s1" "view1 s1 m = Some (v, B1)" "fresh_cells s s1 B1" by blast
  from deep_copy.copies [OF assms(2) memory_view.view_prefix [OF view2 p(2) B1(1)] c2] obtain B2
    where B2: "prefix s1 s'" "view2 s' n = Some (w, B2)" "fresh_cells s1 s' B2" by blast
  from memory_view.view_prefix [OF view1 B1(2) B2(1)] B2(2)
  have "pair_view view1 view2 s' mn' = Some (vw, B1 @ B2)" by (simp add: pair_view_def mn' p(3))
  moreover have "fresh_cells s s' (B1 @ B2)" using B1 B2 by (blast intro: fresh_cells_append)
  moreover have "prefix s s'" using B1(1) B2(1) by (rule prefix_order.trans)
  ultimately show "prefix s s' \<and> (\<exists>B. pair_view view1 view2 s' mn' = Some (vw, B) \<and> fresh_cells s s' B)" by blast
qed

text \<open>What a new cell holds is allocated after it.\<close>

lemma fresh_cells_new:
  assumes "fresh_cells (s @ [c]) s' B" "prefix (s @ [c]) s'"
  shows "fresh_cells s (s'[length s := d]) (length s # B)" and "length s \<notin> set B"
  using assms prefix_length_le [OF assms(2)] by (fastforce simp: fresh_cells_def)+

context deep_copy
begin

lemma record_copy:
  assumes "\<And>s m. view' s m = map_option (apfst (build m)) (view s (pointers m))"
    and "\<And>s m. copy' m s = apfst (put m) (copy (pointers m) s)"
    and "\<And>m p. pointers (put m p) = p" and "\<And>m p. build (put m p) = build m"
  shows "deep_copy view' copy'"
proof (intro deep_copy.intro record_view deep_copy_axioms.intro)
  show "view' s m = map_option (apfst (build m)) (view s (pointers m))" for s m by (fact assms(1))
  fix s m v A m' s' assume "view' s m = Some (v, A)" "copy' m s = (m', s')"
  then obtain w p where w: "view s (pointers m) = Some (w, A)" "v = build m w"
    "copy (pointers m) s = (p, s')" "m' = put m p"
    by (cases "copy (pointers m) s") (auto simp: assms)
  from copies [OF w(1,3)] obtain B where B: "prefix s s'" "view s' p = Some (w, B)" "fresh_cells s s' B" by blast
  then have "view' s' m' = Some (v, B)" by (simp add: assms w)
  with B show "prefix s s' \<and> (\<exists>B. view' s' m' = Some (v, B) \<and> fresh_cells s s' B)" by blast
qed

lemma new_copy:
  assumes get: "\<And>m. get (mk m) = Some m"
  shows "deep_copy (ptr_view get view) (new_copy mk get zero copy)"
proof (intro deep_copy.intro ptr_view deep_copy_axioms.intro)
  fix s p v A p' s' assume v: "ptr_view get view s p = Some (v, A)"
    and copy: "new_copy mk get zero copy p s = (p', s')"
  show "prefix s s' \<and> (\<exists>B. ptr_view get view s' p' = Some (v, B) \<and> fresh_cells s s' B)"
  proof (cases p)
    case None
    with v copy show ?thesis by (auto simp: ptr_view_def new_copy_def)
  next
    case (Some a)
    with v obtain c m w B where c: "deref s a = Some c" "get c = Some m" "view s m = Some (w, B)" "v = Some w"
      by (auto simp: ptr_view_Some)
    obtain m' s1 where m': "copy m (s @ [zero]) = (m', s1)" by fastforce
    with Some copy c have out: "p' = Some (length s)" "s' = s1[length s := mk m']" by (auto simp: new_copy_def Let_def)
    from copies [OF view_prefix [OF c(3)] m'] obtain C
      where C: "prefix (s @ [zero]) s1" "view s1 m' = Some (w, C)" "fresh_cells (s @ [zero]) s1 C" by (meson prefixI)
    note new = fresh_cells_new [OF C(3,1)] and fill = fill_new_cell(1,2) [OF C(1)]
    have "view s' m' = Some (w, C)" unfolding out by (rule view_update [OF C(2) new(2)])
    then have "ptr_view get view s' p' = Some (v, length s # C)"
      using fill(2) get c(4) by (simp add: ptr_view_def out)
    with new(1) fill(1) out(2) show ?thesis by blast
  qed
qed

lemma copy_elements: "deep_copy (list_view view) (copy_elements copy)"
proof (intro deep_copy.intro list_view deep_copy_axioms.intro)
  show "prefix s s' \<and> (\<exists>B. list_view view s' ms' = Some (vs, B) \<and> fresh_cells s s' B)"
    if "list_view view s ms = Some (vs, A)" "copy_elements copy ms s = (ms', s')" for s ms vs A ms' s'
    using that
  proof (induction ms arbitrary: s vs A ms' s')
    case (Cons m ms)
    from Cons.prems(1) obtain v A1 ws A2 where l: "view s m = Some (v, A1)" "list_view view s ms = Some (ws, A2)" "vs = v # ws"
      unfolding list_view_Cons_Some by blast
    obtain m' s1 where c1: "copy m s = (m', s1)" by fastforce
    with Cons.prems(2) obtain ns where c2: "copy_elements copy ms s1 = (ns, s')" "ms' = m' # ns"
      by (auto split: prod.splits)
    from copies [OF l(1) c1] obtain B1 where B1: "prefix s s1" "view s1 m' = Some (v, B1)" "fresh_cells s s1 B1" by blast
    from Cons.IH [OF memory_view.view_prefix [OF list_view l(2) B1(1)] c2(1)] obtain B2
      where B2: "prefix s1 s'" "list_view view s' ns = Some (ws, B2)" "fresh_cells s1 s' B2" by blast
    have "list_view view s' ms' = Some (vs, B1 @ B2)"
      using view_prefix [OF B1(2) B2(1)] B2(2) c2(2) l(3) by simp
    moreover have "fresh_cells s s' (B1 @ B2)" using B1 B2 by (blast intro: fresh_cells_append)
    moreover have "prefix s s'" using B1(1) B2(1) by (rule prefix_order.trans)
    ultimately show ?case by blast
  qed simp
qed

lemma make_copy:
  assumes get: "\<And>ms. get (mk ms) = Some ms"
  shows "deep_copy (slice_view get view) (make_copy mk get zero copy)"
proof (intro deep_copy.intro slice_view deep_copy_axioms.intro)
  fix s sl v A sl' s' assume v: "slice_view get view s sl = Some (v, A)"
    and copy: "make_copy mk get zero copy sl s = (sl', s')"
  show "prefix s s' \<and> (\<exists>B. slice_view get view s' sl' = Some (v, B) \<and> fresh_cells s s' B)"
  proof (cases sl)
    case None
    with v copy show ?thesis by (auto simp: slice_view_def make_copy_def)
  next
    case (Some an)
    with v obtain ms ws B where e: "slice_elements get s an = Some ms" "list_view view s ms = Some (ws, B)" "v = Some ws"
      unfolding slice_view_Some by blast
    obtain ms' s1 where ms': "copy_elements copy ms (s @ [zero]) = (ms', s1)" by fastforce
    with Some copy e have out: "sl' = Some (length s, length ms')" "s' = s1[length s := mk ms']"
      by (auto simp: make_copy_def Let_def)
    have "prefix s (s @ [zero])" by simp
    from deep_copy.copies [OF copy_elements memory_view.view_prefix [OF list_view e(2) this] ms'] obtain C
      where C: "prefix (s @ [zero]) s1" "list_view view s1 ms' = Some (ws, C)" "fresh_cells (s @ [zero]) s1 C" by blast
    note new = fresh_cells_new [OF C(3,1)] and fill = fill_new_cell(1,2) [OF C(1)]
    have "list_view view s' ms' = Some (ws, C)" unfolding out by (rule memory_view.view_update [OF list_view C(2) new(2)])
    then have "slice_view get view s' sl' = Some (v, length s # C)"
      using fill(2) get e(3) by (simp add: slice_view_def out)
    with new(1) fill(1) out(2) show ?thesis by blast
  qed
qed

text \<open>
  What holders of the original and of the copy do in the cells they reach does not show at the
  other side.
\<close>

lemma copy_independent:
  assumes "view s m = Some (v, A)" "copy m s = (m', s')"
  shows "\<exists>B. view s' m' = Some (v, B) \<and> view s' m = Some (v, A) \<and> set A \<inter> set B = {}
     \<and> (\<forall>t. agree B s' t \<longrightarrow> view t m' = Some (v, B)) \<and> (\<forall>t. agree A s' t \<longrightarrow> view t m = Some (v, A))"
proof -
  from copies [OF assms] obtain B where B: "prefix s s'" "view s' m' = Some (v, B)" "fresh_cells s s' B" by blast
  have "set A \<inter> set B = {}" using view_bounded [OF assms(1)] B(3) by (fastforce simp: fresh_cells_def)
  with B view_prefix [OF assms(1) B(1)] view_frame show ?thesis by blast
qed

end

end
