(* ===== verification/Deep_Copy.thy ===== *)
theory Deep_Copy
  imports Go_Memory Api_Config
begin

text \<open>
  The deep copies of the configuration types, as generated by \<^verbatim>\<open>controller-gen\<close>
  (\<^verbatim>\<open>internal/pgbackrest/api/zz_generated.deepcopy.go\<close>), and the layout in memory of the
  types of both \<^verbatim>\<open>api\<close> packages. A struct \<open>T_mem\<close> has the fields of \<open>T\<close> with the
  pointers, slices and maps as addresses; \<open>T_view\<close> reads it as the record \<open>T\<close> of \<open>Api_Config\<close>, the value
  the other theories work with. Each \<open>DeepCopyInto\<close> meets the contract \<open>deep_copy\<close> for its view.
\<close>

section \<open>Structs in memory\<close>

record S3Credentials_mem =
  s3m_KeyType :: KeyType
  s3m_AccessKeyIDReference :: "addr option"
  s3m_SecretAccessKeyReference :: "addr option"
  s3m_Region :: string
  s3m_URIStyle :: string

record PgbackrestCredentials_mem =
  credm_AWS :: "addr option"

record PgbackrestRetention_mem =
  retm_Archive :: "32 word"
  retm_ArchiveType :: string
  retm_Full :: "32 word"
  retm_FullType :: string
  retm_Diff :: "32 word"
  retm_History :: "addr option"

record WalBackupConfiguration_mem =
  walm_MaxParallel :: int
  walm_ArchiveAdditionalCommandArgs :: slice
  walm_RestoreAdditionalCommandArgs :: slice

record DataBackupConfiguration_mem =
  datam_Jobs :: "addr option"
  datam_ImmediateCheckpoint :: bool
  datam_Annotations :: "addr option"
  datam_AdditionalCommandArgs :: slice

record DataRestoreConfiguration_mem =
  restm_Jobs :: "addr option"
  restm_AdditionalCommandArgs :: slice

record PgbackrestRepository_mem =
  repom_Credentials :: PgbackrestCredentials_mem
  repom_Encryption :: EncryptionType
  repom_EncryptionKey :: "addr option"
  repom_EndpointURL :: string
  repom_EndpointCA :: "addr option"
  repom_DisableVerifyTLS :: bool
  repom_DestinationPath :: string
  repom_Bucket :: string
  repom_Retention :: "addr option"

record PgbackrestConfiguration_mem =
  cfgm_Repositories :: slice
  cfgm_Wal :: "addr option"
  cfgm_Data :: "addr option"
  cfgm_Restore :: "addr option"
  cfgm_Compression :: CompressionType
  cfgm_Stanza :: string
  cfgm_Log :: "addr option"
  cfgm_CreateStanza :: StanzaCreatePolicy

text \<open>The types of \<^verbatim>\<open>api/v1\<close>; \<open>'x\<close> are the values of types of the Kubernetes libraries.\<close>

record 'x InstanceSidecarConfiguration_mem =
  sidem_Env :: slice
  sidem_Resources :: 'x
  sidem_SecurityContext :: "addr option"

record 'x ArchiveSpec_mem =
  specm_Configuration :: PgbackrestConfiguration_mem
  specm_InstanceSidecarConfiguration :: "'x InstanceSidecarConfiguration_mem"

record TypeMeta =
  tm_Kind :: string
  tm_APIVersion :: string

type_synonym ArchiveStatus = unit

record 'x Archive_mem =
  archm_TypeMeta :: TypeMeta
  archm_ObjectMeta :: 'x
  archm_Spec :: "'x ArchiveSpec_mem"
  archm_Status :: ArchiveStatus

record 'x ArchiveList_mem =
  alistm_TypeMeta :: TypeMeta
  alistm_ListMeta :: 'x
  alistm_Items :: slice

section \<open>Cells\<close>

datatype 'x cell =
    Zeroed
  | Int32_Cell "32 word"
  | Strings_Cell "string list"
  | Map_Cell "(string \<times> string) list"
  | Selector_Cell SecretKeySelector
  | S3_Cell S3Credentials_mem
  | Credentials_Cell PgbackrestCredentials_mem
  | Retention_Cell PgbackrestRetention_mem
  | Wal_Cell WalBackupConfiguration_mem
  | Data_Cell DataBackupConfiguration_mem
  | Restore_Cell DataRestoreConfiguration_mem
  | Log_Cell LogConfiguration
  | Repository_Cell PgbackrestRepository_mem
  | Repositories_Cell "PgbackrestRepository_mem list"
  | Configuration_Cell PgbackrestConfiguration_mem
  | Envs_Cell "'x list"
  | SecurityContext_Cell 'x
  | Sidecar_Cell "'x InstanceSidecarConfiguration_mem"
  | Spec_Cell "'x ArchiveSpec_mem"
  | Status_Cell ArchiveStatus
  | Archive_Cell "'x Archive_mem"
  | Archives_Cell "'x Archive_mem list"
  | ArchiveList_Cell "'x ArchiveList_mem"
  | Library_Cell 'x

definition get_Int32 where "get_Int32 c = (case c of Int32_Cell x \<Rightarrow> Some x | _ \<Rightarrow> None)"
definition get_Strings where "get_Strings c = (case c of Strings_Cell x \<Rightarrow> Some x | _ \<Rightarrow> None)"
definition get_Map where "get_Map c = (case c of Map_Cell x \<Rightarrow> Some x | _ \<Rightarrow> None)"
definition get_Selector where "get_Selector c = (case c of Selector_Cell x \<Rightarrow> Some x | _ \<Rightarrow> None)"
definition get_S3 where "get_S3 c = (case c of S3_Cell x \<Rightarrow> Some x | _ \<Rightarrow> None)"
definition get_Credentials where "get_Credentials c = (case c of Credentials_Cell x \<Rightarrow> Some x | _ \<Rightarrow> None)"
definition get_Retention where "get_Retention c = (case c of Retention_Cell x \<Rightarrow> Some x | _ \<Rightarrow> None)"
definition get_Wal where "get_Wal c = (case c of Wal_Cell x \<Rightarrow> Some x | _ \<Rightarrow> None)"
definition get_Data where "get_Data c = (case c of Data_Cell x \<Rightarrow> Some x | _ \<Rightarrow> None)"
definition get_Restore where "get_Restore c = (case c of Restore_Cell x \<Rightarrow> Some x | _ \<Rightarrow> None)"
definition get_Log where "get_Log c = (case c of Log_Cell x \<Rightarrow> Some x | _ \<Rightarrow> None)"
definition get_Repository where "get_Repository c = (case c of Repository_Cell x \<Rightarrow> Some x | _ \<Rightarrow> None)"
definition get_Repositories where "get_Repositories c = (case c of Repositories_Cell x \<Rightarrow> Some x | _ \<Rightarrow> None)"
definition get_Configuration where "get_Configuration c = (case c of Configuration_Cell x \<Rightarrow> Some x | _ \<Rightarrow> None)"
definition get_Envs where "get_Envs c = (case c of Envs_Cell x \<Rightarrow> Some x | _ \<Rightarrow> None)"
definition get_SecurityContext where "get_SecurityContext c = (case c of SecurityContext_Cell x \<Rightarrow> Some x | _ \<Rightarrow> None)"
definition get_Sidecar where "get_Sidecar c = (case c of Sidecar_Cell x \<Rightarrow> Some x | _ \<Rightarrow> None)"
definition get_Spec where "get_Spec c = (case c of Spec_Cell x \<Rightarrow> Some x | _ \<Rightarrow> None)"
definition get_Status where "get_Status c = (case c of Status_Cell x \<Rightarrow> Some x | _ \<Rightarrow> None)"
definition get_Archive where "get_Archive c = (case c of Archive_Cell x \<Rightarrow> Some x | _ \<Rightarrow> None)"
definition get_Archives where "get_Archives c = (case c of Archives_Cell x \<Rightarrow> Some x | _ \<Rightarrow> None)"
definition get_ArchiveList where "get_ArchiveList c = (case c of ArchiveList_Cell x \<Rightarrow> Some x | _ \<Rightarrow> None)"
definition get_Library where "get_Library c = (case c of Library_Cell x \<Rightarrow> Some x | _ \<Rightarrow> None)"

lemmas get_cell_defs = get_Int32_def get_Strings_def get_Map_def get_Selector_def get_S3_def
  get_Credentials_def get_Retention_def get_Wal_def get_Data_def get_Restore_def get_Log_def
  get_Repository_def get_Repositories_def get_Configuration_def get_Envs_def
  get_SecurityContext_def get_Sidecar_def get_Spec_def get_Status_def get_Archive_def
  get_Archives_def get_ArchiveList_def get_Library_def

lemma get_Archive_iff: "get_Archive c = Some m \<longleftrightarrow> c = Archive_Cell m"
  and get_Library_iff: "get_Library c = Some x \<longleftrightarrow> c = Library_Cell x"
  by (cases c; simp add: get_cell_defs)+

section \<open>Copies of the values the structs point to\<close>

text \<open>
  Numbers, strings and selectors (a struct of two strings) have no pointers. A map is copied entry
  by entry into an empty one; its entries are in the order of \<^verbatim>\<open>range\<close>, each key once.
\<close>

abbreviation new_Int32 where "new_Int32 \<equiv> new_copy Int32_Cell get_Int32 Zeroed copy_value"
abbreviation new_Selector where "new_Selector \<equiv> new_copy Selector_Cell get_Selector Zeroed copy_value"
abbreviation make_Strings where "make_Strings \<equiv> make_copy Strings_Cell get_Strings Zeroed copy_value"

fun map_assign :: "(string \<times> string) list \<Rightarrow> string \<times> string \<Rightarrow> (string \<times> string) list" where
  "map_assign [] (key, val) = [(key, val)]"
| "map_assign (e # es) (key, val) =
     (if fst e = key then (key, val) # es else e # map_assign es (key, val))"

definition entries_copy :: "('c, (string \<times> string) list) copier" where
  "entries_copy m s = (foldl map_assign [] m, s)"

definition entries_view :: "('c, (string \<times> string) list, (string \<times> string) list) view" where
  "entries_view s m = (if distinct (map fst m) then Some (m, []) else None)"

abbreviation make_Map where "make_Map \<equiv> new_copy Map_Cell get_Map Zeroed entries_copy"

lemma map_assign_new: "fst e \<notin> fst ` set es \<Longrightarrow> map_assign es e = es @ [e]"
  by (induction es) (cases e; auto)+

lemma foldl_map_assign:
  "distinct (map fst (es @ es')) \<Longrightarrow> foldl map_assign es es' = es @ es'"
proof (induction es' arbitrary: es)
  case (Cons e es')
  then have "map_assign es e = es @ [e]" by (intro map_assign_new) auto
  with Cons show ?case by simp
qed simp

lemma entries_deep_copy: "deep_copy entries_view entries_copy"
  by unfold_locales (auto simp: entries_view_def entries_copy_def foldl_map_assign split: if_splits)

lemma int32_copies: "deep_copy (ptr_view get_Int32 flat_view) new_Int32"
  and selector_copies: "deep_copy (ptr_view get_Selector flat_view) new_Selector"
  and strings_copies: "deep_copy (slice_view get_Strings flat_view) make_Strings"
  and map_copies: "deep_copy (ptr_view get_Map entries_view) make_Map"
  by (intro deep_copy.new_copy deep_copy.make_copy flat_deep_copy entries_deep_copy; simp add: get_cell_defs)+

text \<open>A nil slice or map reads as an empty one.\<close>

definition nil_list :: "'a list option \<Rightarrow> 'a list" where
  "nil_list xs = (case xs of None \<Rightarrow> [] | Some ys \<Rightarrow> ys)"

section \<open>The generated copies\<close>

text \<open>
  For each type: \<open>T_value\<close> puts the other fields of the struct and what its pointers lead to
  together, \<open>T_view\<close> reads the struct, \<open>T_DeepCopyInto\<close> is the generated copy.
\<close>

subsection \<open>Credentials and retention\<close>

fun S3Credentials_value ::
  "S3Credentials_mem \<Rightarrow> SecretKeySelector option \<times> SecretKeySelector option \<Rightarrow> S3Credentials" where
  "S3Credentials_value m (key, secret) =
     \<lparr>s3_KeyType = s3m_KeyType m, s3_AccessKeyIDReference = key, s3_SecretAccessKeyReference = secret,
      s3_Region = s3m_Region m, s3_URIStyle = s3m_URIStyle m\<rparr>"

definition S3Credentials_view :: "('x cell, S3Credentials_mem, S3Credentials) view" where
  "S3Credentials_view s m = map_option (apfst (S3Credentials_value m))
     (pair_view (ptr_view get_Selector flat_view) (ptr_view get_Selector flat_view) s
        (s3m_AccessKeyIDReference m, s3m_SecretAccessKeyReference m))"

definition S3Credentials_DeepCopyInto :: "('x cell, S3Credentials_mem) copier" where
  "S3Credentials_DeepCopyInto m s =
     (let out = m;
          (p, s) = new_Selector (s3m_AccessKeyIDReference m) s;
          out = out\<lparr>s3m_AccessKeyIDReference := p\<rparr>;
          (p, s) = new_Selector (s3m_SecretAccessKeyReference m) s;
          out = out\<lparr>s3m_SecretAccessKeyReference := p\<rparr>
      in (out, s))"

interpretation s3_copies: deep_copy S3Credentials_view S3Credentials_DeepCopyInto
  by (rule deep_copy.record_copy [OF pair_deep_copy [OF selector_copies selector_copies], where
        pointers = "\<lambda>m. (s3m_AccessKeyIDReference m, s3m_SecretAccessKeyReference m)" and
        put = "\<lambda>m (a, b). m\<lparr>s3m_AccessKeyIDReference := a, s3m_SecretAccessKeyReference := b\<rparr>" and
        build = S3Credentials_value])
    (auto simp: fun_eq_iff S3Credentials_view_def S3Credentials_DeepCopyInto_def pair_copy_def split: prod.splits)

definition PgbackrestCredentials_view :: "('x cell, PgbackrestCredentials_mem, PgbackrestCredentials) view" where
  "PgbackrestCredentials_view s m = map_option (apfst (\<lambda>aws. \<lparr>cred_AWS = aws\<rparr>))
     (ptr_view get_S3 S3Credentials_view s (credm_AWS m))"

definition PgbackrestCredentials_DeepCopyInto :: "('x cell, PgbackrestCredentials_mem) copier" where
  "PgbackrestCredentials_DeepCopyInto m s =
     (let out = m;
          (p, s) = new_copy S3_Cell get_S3 Zeroed S3Credentials_DeepCopyInto (credm_AWS m) s;
          out = out\<lparr>credm_AWS := p\<rparr>
      in (out, s))"

interpretation credentials_copies: deep_copy PgbackrestCredentials_view PgbackrestCredentials_DeepCopyInto
  by (rule deep_copy.record_copy [OF s3_copies.new_copy [where mk = S3_Cell and get = get_S3 and zero = Zeroed], where
        pointers = credm_AWS and put = "\<lambda>m p. m\<lparr>credm_AWS := p\<rparr>" and build = "\<lambda>m aws. \<lparr>cred_AWS = aws\<rparr>"])
    (auto simp: get_S3_def PgbackrestCredentials_view_def PgbackrestCredentials_DeepCopyInto_def split: prod.splits)

fun PgbackrestRetention_value :: "PgbackrestRetention_mem \<Rightarrow> 32 word option \<Rightarrow> PgbackrestRetention" where
  "PgbackrestRetention_value m history =
     \<lparr>ret_Archive = retm_Archive m, ret_ArchiveType = retm_ArchiveType m, ret_Full = retm_Full m,
      ret_FullType = retm_FullType m, ret_Diff = retm_Diff m, ret_History = history\<rparr>"

definition PgbackrestRetention_view :: "('x cell, PgbackrestRetention_mem, PgbackrestRetention) view" where
  "PgbackrestRetention_view s m = map_option (apfst (PgbackrestRetention_value m))
     (ptr_view get_Int32 flat_view s (retm_History m))"

definition PgbackrestRetention_DeepCopyInto :: "('x cell, PgbackrestRetention_mem) copier" where
  "PgbackrestRetention_DeepCopyInto m s =
     (let out = m;
          (p, s) = new_Int32 (retm_History m) s;
          out = out\<lparr>retm_History := p\<rparr>
      in (out, s))"

interpretation retention_copies: deep_copy PgbackrestRetention_view PgbackrestRetention_DeepCopyInto
  by (rule deep_copy.record_copy [OF int32_copies, where
        pointers = retm_History and put = "\<lambda>m p. m\<lparr>retm_History := p\<rparr>" and build = PgbackrestRetention_value])
    (auto simp: fun_eq_iff PgbackrestRetention_view_def PgbackrestRetention_DeepCopyInto_def split: prod.splits)

subsection \<open>The sections of a configuration\<close>

fun WalBackupConfiguration_value ::
  "WalBackupConfiguration_mem \<Rightarrow> string list option \<times> string list option \<Rightarrow> WalBackupConfiguration" where
  "WalBackupConfiguration_value m (archive, restore) =
     \<lparr>wal_MaxParallel = walm_MaxParallel m, wal_ArchiveAdditionalCommandArgs = nil_list archive,
      wal_RestoreAdditionalCommandArgs = nil_list restore\<rparr>"

definition WalBackupConfiguration_view :: "('x cell, WalBackupConfiguration_mem, WalBackupConfiguration) view" where
  "WalBackupConfiguration_view s m = map_option (apfst (WalBackupConfiguration_value m))
     (pair_view (slice_view get_Strings flat_view) (slice_view get_Strings flat_view) s
        (walm_ArchiveAdditionalCommandArgs m, walm_RestoreAdditionalCommandArgs m))"

definition WalBackupConfiguration_DeepCopyInto :: "('x cell, WalBackupConfiguration_mem) copier" where
  "WalBackupConfiguration_DeepCopyInto m s =
     (let out = m;
          (p, s) = make_Strings (walm_ArchiveAdditionalCommandArgs m) s;
          out = out\<lparr>walm_ArchiveAdditionalCommandArgs := p\<rparr>;
          (p, s) = make_Strings (walm_RestoreAdditionalCommandArgs m) s;
          out = out\<lparr>walm_RestoreAdditionalCommandArgs := p\<rparr>
      in (out, s))"

interpretation wal_copies: deep_copy WalBackupConfiguration_view WalBackupConfiguration_DeepCopyInto
  by (rule deep_copy.record_copy [OF pair_deep_copy [OF strings_copies strings_copies], where
        pointers = "\<lambda>m. (walm_ArchiveAdditionalCommandArgs m, walm_RestoreAdditionalCommandArgs m)" and
        put = "\<lambda>m (a, b). m\<lparr>walm_ArchiveAdditionalCommandArgs := a, walm_RestoreAdditionalCommandArgs := b\<rparr>" and
        build = WalBackupConfiguration_value])
    (auto simp: fun_eq_iff WalBackupConfiguration_view_def WalBackupConfiguration_DeepCopyInto_def pair_copy_def
      split: prod.splits)

fun DataBackupConfiguration_value ::
  "DataBackupConfiguration_mem \<Rightarrow> 32 word option \<times> (string \<times> string) list option \<times> string list option \<Rightarrow>
   DataBackupConfiguration" where
  "DataBackupConfiguration_value m (jobs, annotations, args) =
     \<lparr>data_Jobs = jobs, data_ImmediateCheckpoint = datam_ImmediateCheckpoint m,
      data_Annotations = nil_list annotations, data_AdditionalCommandArgs = nil_list args\<rparr>"

definition DataBackupConfiguration_view :: "('x cell, DataBackupConfiguration_mem, DataBackupConfiguration) view" where
  "DataBackupConfiguration_view s m = map_option (apfst (DataBackupConfiguration_value m))
     (pair_view (ptr_view get_Int32 flat_view)
        (pair_view (ptr_view get_Map entries_view) (slice_view get_Strings flat_view)) s
        (datam_Jobs m, datam_Annotations m, datam_AdditionalCommandArgs m))"

definition DataBackupConfiguration_DeepCopyInto :: "('x cell, DataBackupConfiguration_mem) copier" where
  "DataBackupConfiguration_DeepCopyInto m s =
     (let out = m;
          (p, s) = new_Int32 (datam_Jobs m) s;
          out = out\<lparr>datam_Jobs := p\<rparr>;
          (p, s) = make_Map (datam_Annotations m) s;
          out = out\<lparr>datam_Annotations := p\<rparr>;
          (p, s) = make_Strings (datam_AdditionalCommandArgs m) s;
          out = out\<lparr>datam_AdditionalCommandArgs := p\<rparr>
      in (out, s))"

interpretation data_copies: deep_copy DataBackupConfiguration_view DataBackupConfiguration_DeepCopyInto
  by (rule deep_copy.record_copy [OF pair_deep_copy [OF int32_copies pair_deep_copy [OF map_copies strings_copies]], where
        pointers = "\<lambda>m. (datam_Jobs m, datam_Annotations m, datam_AdditionalCommandArgs m)" and
        put = "\<lambda>m (a, b, c). m\<lparr>datam_Jobs := a, datam_Annotations := b, datam_AdditionalCommandArgs := c\<rparr>" and
        build = DataBackupConfiguration_value])
    (auto simp: fun_eq_iff DataBackupConfiguration_view_def DataBackupConfiguration_DeepCopyInto_def pair_copy_def
      split: prod.splits)

fun DataRestoreConfiguration_value ::
  "DataRestoreConfiguration_mem \<Rightarrow> 32 word option \<times> string list option \<Rightarrow> DataRestoreConfiguration" where
  "DataRestoreConfiguration_value m (jobs, args) =
     \<lparr>rest_Jobs = jobs, rest_AdditionalCommandArgs = nil_list args\<rparr>"

definition DataRestoreConfiguration_view :: "('x cell, DataRestoreConfiguration_mem, DataRestoreConfiguration) view" where
  "DataRestoreConfiguration_view s m = map_option (apfst (DataRestoreConfiguration_value m))
     (pair_view (ptr_view get_Int32 flat_view) (slice_view get_Strings flat_view) s
        (restm_Jobs m, restm_AdditionalCommandArgs m))"

definition DataRestoreConfiguration_DeepCopyInto :: "('x cell, DataRestoreConfiguration_mem) copier" where
  "DataRestoreConfiguration_DeepCopyInto m s =
     (let out = m;
          (p, s) = new_Int32 (restm_Jobs m) s;
          out = out\<lparr>restm_Jobs := p\<rparr>;
          (p, s) = make_Strings (restm_AdditionalCommandArgs m) s;
          out = out\<lparr>restm_AdditionalCommandArgs := p\<rparr>
      in (out, s))"

interpretation restore_copies: deep_copy DataRestoreConfiguration_view DataRestoreConfiguration_DeepCopyInto
  by (rule deep_copy.record_copy [OF pair_deep_copy [OF int32_copies strings_copies], where
        pointers = "\<lambda>m. (restm_Jobs m, restm_AdditionalCommandArgs m)" and
        put = "\<lambda>m (a, b). m\<lparr>restm_Jobs := a, restm_AdditionalCommandArgs := b\<rparr>" and
        build = DataRestoreConfiguration_value])
    (auto simp: fun_eq_iff DataRestoreConfiguration_view_def DataRestoreConfiguration_DeepCopyInto_def pair_copy_def
      split: prod.splits)

definition LogConfiguration_DeepCopyInto :: "('x cell, LogConfiguration) copier" where
  "LogConfiguration_DeepCopyInto m s = (let out = m in (out, s))"

interpretation log_copies: deep_copy flat_view LogConfiguration_DeepCopyInto
  by (intro deep_copy.intro flat_memory_view deep_copy_axioms.intro)
    (auto simp: flat_view_def LogConfiguration_DeepCopyInto_def)

subsection \<open>Repositories and the configuration\<close>

fun PgbackrestRepository_value ::
  "PgbackrestRepository_mem \<Rightarrow>
   PgbackrestCredentials \<times> SecretKeySelector option \<times> SecretKeySelector option \<times> PgbackrestRetention option \<Rightarrow>
   PgbackrestRepository" where
  "PgbackrestRepository_value m (credentials, key, ca, retention) =
     \<lparr>repo_Credentials = credentials, repo_Encryption = repom_Encryption m, repo_EncryptionKey = key,
      repo_EndpointURL = repom_EndpointURL m, repo_EndpointCA = ca,
      repo_DisableVerifyTLS = repom_DisableVerifyTLS m, repo_DestinationPath = repom_DestinationPath m,
      repo_Bucket = repom_Bucket m, repo_Retention = retention\<rparr>"

definition PgbackrestRepository_view :: "('x cell, PgbackrestRepository_mem, PgbackrestRepository) view" where
  "PgbackrestRepository_view s m = map_option (apfst (PgbackrestRepository_value m))
     (pair_view PgbackrestCredentials_view
        (pair_view (ptr_view get_Selector flat_view)
          (pair_view (ptr_view get_Selector flat_view) (ptr_view get_Retention PgbackrestRetention_view))) s
        (repom_Credentials m, repom_EncryptionKey m, repom_EndpointCA m, repom_Retention m))"

definition PgbackrestRepository_DeepCopyInto :: "('x cell, PgbackrestRepository_mem) copier" where
  "PgbackrestRepository_DeepCopyInto m s =
     (let out = m;
          (credentials, s) = PgbackrestCredentials_DeepCopyInto (repom_Credentials m) s;
          out = out\<lparr>repom_Credentials := credentials\<rparr>;
          (p, s) = new_Selector (repom_EncryptionKey m) s;
          out = out\<lparr>repom_EncryptionKey := p\<rparr>;
          (p, s) = new_Selector (repom_EndpointCA m) s;
          out = out\<lparr>repom_EndpointCA := p\<rparr>;
          (p, s) = new_copy Retention_Cell get_Retention Zeroed PgbackrestRetention_DeepCopyInto (repom_Retention m) s;
          out = out\<lparr>repom_Retention := p\<rparr>
      in (out, s))"

lemmas retention_ptr = retention_copies.new_copy [where mk = Retention_Cell and get = get_Retention and zero = Zeroed]

interpretation repository_copies: deep_copy PgbackrestRepository_view PgbackrestRepository_DeepCopyInto
  by (rule deep_copy.record_copy [OF pair_deep_copy [OF credentials_copies.deep_copy_axioms
          pair_deep_copy [OF selector_copies pair_deep_copy [OF selector_copies retention_ptr]]], where
        pointers = "\<lambda>m. (repom_Credentials m, repom_EncryptionKey m, repom_EndpointCA m, repom_Retention m)" and
        put = "\<lambda>m (a, b, c, d). m\<lparr>repom_Credentials := a, repom_EncryptionKey := b, repom_EndpointCA := c,
                 repom_Retention := d\<rparr>" and
        build = PgbackrestRepository_value])
    (auto simp: fun_eq_iff get_Retention_def PgbackrestRepository_view_def PgbackrestRepository_DeepCopyInto_def
      pair_copy_def split: prod.splits)

fun PgbackrestConfiguration_value ::
  "PgbackrestConfiguration_mem \<Rightarrow>
   PgbackrestRepository list option \<times> WalBackupConfiguration option \<times> DataBackupConfiguration option
     \<times> DataRestoreConfiguration option \<times> LogConfiguration option \<Rightarrow> PgbackrestConfiguration" where
  "PgbackrestConfiguration_value m (repositories, wal, data, restore, log) =
     \<lparr>cfg_Repositories = nil_list repositories, cfg_Wal = wal, cfg_Data = data, cfg_Restore = restore,
      cfg_Compression = cfgm_Compression m, cfg_Stanza = cfgm_Stanza m, cfg_Log = log,
      cfg_CreateStanza = cfgm_CreateStanza m\<rparr>"

definition PgbackrestConfiguration_view :: "('x cell, PgbackrestConfiguration_mem, PgbackrestConfiguration) view" where
  "PgbackrestConfiguration_view s m = map_option (apfst (PgbackrestConfiguration_value m))
     (pair_view (slice_view get_Repositories PgbackrestRepository_view)
        (pair_view (ptr_view get_Wal WalBackupConfiguration_view)
          (pair_view (ptr_view get_Data DataBackupConfiguration_view)
            (pair_view (ptr_view get_Restore DataRestoreConfiguration_view) (ptr_view get_Log flat_view)))) s
        (cfgm_Repositories m, cfgm_Wal m, cfgm_Data m, cfgm_Restore m, cfgm_Log m))"

definition PgbackrestConfiguration_DeepCopyInto :: "('x cell, PgbackrestConfiguration_mem) copier" where
  "PgbackrestConfiguration_DeepCopyInto m s =
     (let out = m;
          (p, s) = make_copy Repositories_Cell get_Repositories Zeroed PgbackrestRepository_DeepCopyInto (cfgm_Repositories m) s;
          out = out\<lparr>cfgm_Repositories := p\<rparr>;
          (p, s) = new_copy Wal_Cell get_Wal Zeroed WalBackupConfiguration_DeepCopyInto (cfgm_Wal m) s;
          out = out\<lparr>cfgm_Wal := p\<rparr>;
          (p, s) = new_copy Data_Cell get_Data Zeroed DataBackupConfiguration_DeepCopyInto (cfgm_Data m) s;
          out = out\<lparr>cfgm_Data := p\<rparr>;
          (p, s) = new_copy Restore_Cell get_Restore Zeroed DataRestoreConfiguration_DeepCopyInto (cfgm_Restore m) s;
          out = out\<lparr>cfgm_Restore := p\<rparr>;
          (p, s) = new_copy Log_Cell get_Log Zeroed copy_value (cfgm_Log m) s;
          out = out\<lparr>cfgm_Log := p\<rparr>
      in (out, s))"

lemma configuration_pointers:
  "deep_copy (slice_view get_Repositories PgbackrestRepository_view)
     (make_copy Repositories_Cell get_Repositories Zeroed PgbackrestRepository_DeepCopyInto)"
  "deep_copy (ptr_view get_Wal WalBackupConfiguration_view)
     (new_copy Wal_Cell get_Wal Zeroed WalBackupConfiguration_DeepCopyInto)"
  "deep_copy (ptr_view get_Data DataBackupConfiguration_view)
     (new_copy Data_Cell get_Data Zeroed DataBackupConfiguration_DeepCopyInto)"
  "deep_copy (ptr_view get_Restore DataRestoreConfiguration_view)
     (new_copy Restore_Cell get_Restore Zeroed DataRestoreConfiguration_DeepCopyInto)"
  "deep_copy (ptr_view get_Log flat_view) (new_copy Log_Cell get_Log Zeroed copy_value)"
  by (intro repository_copies.make_copy wal_copies.new_copy data_copies.new_copy restore_copies.new_copy
      deep_copy.new_copy [OF flat_deep_copy]; simp add: get_cell_defs)+

interpretation configuration_copies: deep_copy PgbackrestConfiguration_view PgbackrestConfiguration_DeepCopyInto
  by (rule deep_copy.record_copy [OF pair_deep_copy [OF configuration_pointers(1) pair_deep_copy [OF
          configuration_pointers(2) pair_deep_copy [OF configuration_pointers(3) pair_deep_copy [OF
            configuration_pointers(4,5)]]]], where
        pointers = "\<lambda>m. (cfgm_Repositories m, cfgm_Wal m, cfgm_Data m, cfgm_Restore m, cfgm_Log m)" and
        put = "\<lambda>m (a, b, c, d, e). m\<lparr>cfgm_Repositories := a, cfgm_Wal := b, cfgm_Data := c, cfgm_Restore := d,
                 cfgm_Log := e\<rparr>" and
        build = PgbackrestConfiguration_value])
    (auto simp: fun_eq_iff PgbackrestConfiguration_view_def PgbackrestConfiguration_DeepCopyInto_def
      pair_copy_def split: prod.splits)

subsection \<open>The copies of a pointer\<close>

definition S3Credentials_DeepCopy :: "('x cell, addr option) copier" where
  "S3Credentials_DeepCopy = new_copy S3_Cell get_S3 Zeroed S3Credentials_DeepCopyInto"

definition PgbackrestCredentials_DeepCopy :: "('x cell, addr option) copier" where
  "PgbackrestCredentials_DeepCopy = new_copy Credentials_Cell get_Credentials Zeroed PgbackrestCredentials_DeepCopyInto"

definition PgbackrestRetention_DeepCopy :: "('x cell, addr option) copier" where
  "PgbackrestRetention_DeepCopy = new_copy Retention_Cell get_Retention Zeroed PgbackrestRetention_DeepCopyInto"

definition WalBackupConfiguration_DeepCopy :: "('x cell, addr option) copier" where
  "WalBackupConfiguration_DeepCopy = new_copy Wal_Cell get_Wal Zeroed WalBackupConfiguration_DeepCopyInto"

definition DataBackupConfiguration_DeepCopy :: "('x cell, addr option) copier" where
  "DataBackupConfiguration_DeepCopy = new_copy Data_Cell get_Data Zeroed DataBackupConfiguration_DeepCopyInto"

definition DataRestoreConfiguration_DeepCopy :: "('x cell, addr option) copier" where
  "DataRestoreConfiguration_DeepCopy = new_copy Restore_Cell get_Restore Zeroed DataRestoreConfiguration_DeepCopyInto"

definition LogConfiguration_DeepCopy :: "('x cell, addr option) copier" where
  "LogConfiguration_DeepCopy = new_copy Log_Cell get_Log Zeroed LogConfiguration_DeepCopyInto"

definition PgbackrestRepository_DeepCopy :: "('x cell, addr option) copier" where
  "PgbackrestRepository_DeepCopy = new_copy Repository_Cell get_Repository Zeroed PgbackrestRepository_DeepCopyInto"

definition PgbackrestConfiguration_DeepCopy :: "('x cell, addr option) copier" where
  "PgbackrestConfiguration_DeepCopy = new_copy Configuration_Cell get_Configuration Zeroed PgbackrestConfiguration_DeepCopyInto"

lemmas DeepCopy_defs = S3Credentials_DeepCopy_def PgbackrestCredentials_DeepCopy_def PgbackrestRetention_DeepCopy_def
  WalBackupConfiguration_DeepCopy_def DataBackupConfiguration_DeepCopy_def DataRestoreConfiguration_DeepCopy_def
  LogConfiguration_DeepCopy_def PgbackrestRepository_DeepCopy_def PgbackrestConfiguration_DeepCopy_def

lemma DeepCopy_contracts:
  "deep_copy (ptr_view get_S3 S3Credentials_view) S3Credentials_DeepCopy"
  "deep_copy (ptr_view get_Credentials PgbackrestCredentials_view) PgbackrestCredentials_DeepCopy"
  "deep_copy (ptr_view get_Retention PgbackrestRetention_view) PgbackrestRetention_DeepCopy"
  "deep_copy (ptr_view get_Wal WalBackupConfiguration_view) WalBackupConfiguration_DeepCopy"
  "deep_copy (ptr_view get_Data DataBackupConfiguration_view) DataBackupConfiguration_DeepCopy"
  "deep_copy (ptr_view get_Restore DataRestoreConfiguration_view) DataRestoreConfiguration_DeepCopy"
  "deep_copy (ptr_view get_Log flat_view) LogConfiguration_DeepCopy"
  "deep_copy (ptr_view get_Repository PgbackrestRepository_view) PgbackrestRepository_DeepCopy"
  "deep_copy (ptr_view get_Configuration PgbackrestConfiguration_view) PgbackrestConfiguration_DeepCopy"
  unfolding DeepCopy_defs
  by (intro s3_copies.new_copy credentials_copies.new_copy retention_copies.new_copy wal_copies.new_copy
      data_copies.new_copy restore_copies.new_copy log_copies.new_copy repository_copies.new_copy
      configuration_copies.new_copy; simp add: get_cell_defs)+

end
