(* ===== verification/Archive_Copy.thy ===== *)
theory Archive_Copy
  imports Deep_Copy
begin

text \<open>
  The deep copies of \<^verbatim>\<open>Archive\<close> objects (\<^verbatim>\<open>api/v1/zz_generated.deepcopy.go\<close>).
  The copies of the types of the Kubernetes libraries are parameters, with what they promise as the
  predicate \<open>library_ok\<close>: each is a deep copy for the view of its type.
\<close>

section \<open>The libraries\<close>

record ObjectMeta =
  om_Namespace :: string
  om_Name :: string
  om_Rest :: string

record 'x library =
  EnvVar_DeepCopyInto :: "('x cell, 'x) copier"
  EnvVar_view :: "('x cell, 'x, EnvVar) view"
  ResourceRequirements_DeepCopyInto :: "('x cell, 'x) copier"
  ResourceRequirements_view :: "('x cell, 'x, ResourceRequirements) view"
  SecurityContext_DeepCopyInto :: "('x cell, 'x) copier"
  SecurityContext_view :: "('x cell, 'x, SecurityContext) view"
  ObjectMeta_DeepCopyInto :: "('x cell, 'x) copier"
  ObjectMeta_view :: "('x cell, 'x, ObjectMeta) view"
  ListMeta_DeepCopyInto :: "('x cell, 'x) copier"
  ListMeta_view :: "('x cell, 'x, string) view"

definition library_ok :: "'x library \<Rightarrow> bool" where
  "library_ok lib \<longleftrightarrow> deep_copy (EnvVar_view lib) (EnvVar_DeepCopyInto lib)
     \<and> deep_copy (ResourceRequirements_view lib) (ResourceRequirements_DeepCopyInto lib)
     \<and> deep_copy (SecurityContext_view lib) (SecurityContext_DeepCopyInto lib)
     \<and> deep_copy (ObjectMeta_view lib) (ObjectMeta_DeepCopyInto lib)
     \<and> deep_copy (ListMeta_view lib) (ListMeta_DeepCopyInto lib)"

section \<open>The generated copies\<close>

fun InstanceSidecarConfiguration_value ::
  "EnvVar list option \<times> ResourceRequirements \<times> SecurityContext option \<Rightarrow> InstanceSidecarConfiguration" where
  "InstanceSidecarConfiguration_value (env, resources, context) =
     \<lparr>side_Env = nil_list env, side_Resources = resources, side_SecurityContext = context\<rparr>"

definition InstanceSidecarConfiguration_view ::
  "'x library \<Rightarrow> ('x cell, 'x InstanceSidecarConfiguration_mem, InstanceSidecarConfiguration) view" where
  "InstanceSidecarConfiguration_view lib s m = map_option (apfst InstanceSidecarConfiguration_value)
     (pair_view (slice_view get_Envs (EnvVar_view lib))
        (pair_view (ResourceRequirements_view lib) (ptr_view get_SecurityContext (SecurityContext_view lib))) s
        (sidem_Env m, sidem_Resources m, sidem_SecurityContext m))"

definition InstanceSidecarConfiguration_DeepCopyInto ::
  "'x library \<Rightarrow> ('x cell, 'x InstanceSidecarConfiguration_mem) copier" where
  "InstanceSidecarConfiguration_DeepCopyInto lib m s =
     (let out = m;
          (p, s) = make_copy Envs_Cell get_Envs Zeroed (EnvVar_DeepCopyInto lib) (sidem_Env m) s;
          out = out\<lparr>sidem_Env := p\<rparr>;
          (resources, s) = ResourceRequirements_DeepCopyInto lib (sidem_Resources m) s;
          out = out\<lparr>sidem_Resources := resources\<rparr>;
          (p, s) = new_copy SecurityContext_Cell get_SecurityContext Zeroed (SecurityContext_DeepCopyInto lib)
                     (sidem_SecurityContext m) s;
          out = out\<lparr>sidem_SecurityContext := p\<rparr>
      in (out, s))"

fun ArchiveSpec_value :: "PgbackrestConfiguration \<times> InstanceSidecarConfiguration \<Rightarrow> ArchiveSpec" where
  "ArchiveSpec_value (cfg, sidecar) =
     \<lparr>spec_Configuration = cfg, spec_InstanceSidecarConfiguration = sidecar\<rparr>"

definition ArchiveSpec_view :: "'x library \<Rightarrow> ('x cell, 'x ArchiveSpec_mem, ArchiveSpec) view" where
  "ArchiveSpec_view lib s m = map_option (apfst ArchiveSpec_value)
     (pair_view PgbackrestConfiguration_view (InstanceSidecarConfiguration_view lib) s
        (specm_Configuration m, specm_InstanceSidecarConfiguration m))"

definition ArchiveSpec_DeepCopyInto :: "'x library \<Rightarrow> ('x cell, 'x ArchiveSpec_mem) copier" where
  "ArchiveSpec_DeepCopyInto lib m s =
     (let out = m;
          (cfg, s) = PgbackrestConfiguration_DeepCopyInto (specm_Configuration m) s;
          out = out\<lparr>specm_Configuration := cfg\<rparr>;
          (sidecar, s) = InstanceSidecarConfiguration_DeepCopyInto lib (specm_InstanceSidecarConfiguration m) s;
          out = out\<lparr>specm_InstanceSidecarConfiguration := sidecar\<rparr>
      in (out, s))"

definition ArchiveStatus_DeepCopyInto :: "('x cell, ArchiveStatus) copier" where
  "ArchiveStatus_DeepCopyInto m s = (let out = m in (out, s))"

text \<open>An object as a value: its type, its metadata and its specification. The status is empty.\<close>

record archive_object =
  ao_TypeMeta :: TypeMeta
  ao_ObjectMeta :: ObjectMeta
  ao_Spec :: ArchiveSpec

definition archive_value :: "archive_object \<Rightarrow> Archive" where
  "archive_value o' = \<lparr>arch_Namespace = om_Namespace (ao_ObjectMeta o'), arch_Name = om_Name (ao_ObjectMeta o'),
     arch_Spec = ao_Spec o'\<rparr>"

fun Archive_object :: "'x Archive_mem \<Rightarrow> ObjectMeta \<times> ArchiveSpec \<Rightarrow> archive_object" where
  "Archive_object m (meta, spec) =
     \<lparr>ao_TypeMeta = archm_TypeMeta m, ao_ObjectMeta = meta, ao_Spec = spec\<rparr>"

definition Archive_view :: "'x library \<Rightarrow> ('x cell, 'x Archive_mem, archive_object) view" where
  "Archive_view lib s m = map_option (apfst (Archive_object m))
     (pair_view (ObjectMeta_view lib) (ArchiveSpec_view lib) s (archm_ObjectMeta m, archm_Spec m))"

definition Archive_DeepCopyInto :: "'x library \<Rightarrow> ('x cell, 'x Archive_mem) copier" where
  "Archive_DeepCopyInto lib m s =
     (let out = m;
          out = out\<lparr>archm_TypeMeta := archm_TypeMeta m\<rparr>;
          (meta, s) = ObjectMeta_DeepCopyInto lib (archm_ObjectMeta m) s;
          out = out\<lparr>archm_ObjectMeta := meta\<rparr>;
          (spec, s) = ArchiveSpec_DeepCopyInto lib (archm_Spec m) s;
          out = out\<lparr>archm_Spec := spec\<rparr>;
          out = out\<lparr>archm_Status := archm_Status m\<rparr>
      in (out, s))"

fun ArchiveList_object ::
  "'x ArchiveList_mem \<Rightarrow> string \<times> archive_object list option \<Rightarrow> TypeMeta \<times> string \<times> archive_object list" where
  "ArchiveList_object m (meta, items) = (alistm_TypeMeta m, meta, nil_list items)"

definition ArchiveList_view ::
  "'x library \<Rightarrow> ('x cell, 'x ArchiveList_mem, TypeMeta \<times> string \<times> archive_object list) view" where
  "ArchiveList_view lib s m = map_option (apfst (ArchiveList_object m))
     (pair_view (ListMeta_view lib) (slice_view get_Archives (Archive_view lib)) s
        (alistm_ListMeta m, alistm_Items m))"

definition ArchiveList_DeepCopyInto :: "'x library \<Rightarrow> ('x cell, 'x ArchiveList_mem) copier" where
  "ArchiveList_DeepCopyInto lib m s =
     (let out = m;
          out = out\<lparr>alistm_TypeMeta := alistm_TypeMeta m\<rparr>;
          (meta, s) = ListMeta_DeepCopyInto lib (alistm_ListMeta m) s;
          out = out\<lparr>alistm_ListMeta := meta\<rparr>;
          (p, s) = make_copy Archives_Cell get_Archives Zeroed (Archive_DeepCopyInto lib) (alistm_Items m) s;
          out = out\<lparr>alistm_Items := p\<rparr>
      in (out, s))"

definition InstanceSidecarConfiguration_DeepCopy :: "'x library \<Rightarrow> ('x cell, addr option) copier" where
  "InstanceSidecarConfiguration_DeepCopy lib =
     new_copy Sidecar_Cell get_Sidecar Zeroed (InstanceSidecarConfiguration_DeepCopyInto lib)"

definition ArchiveSpec_DeepCopy :: "'x library \<Rightarrow> ('x cell, addr option) copier" where
  "ArchiveSpec_DeepCopy lib = new_copy Spec_Cell get_Spec Zeroed (ArchiveSpec_DeepCopyInto lib)"

definition ArchiveStatus_DeepCopy :: "('x cell, addr option) copier" where
  "ArchiveStatus_DeepCopy = new_copy Status_Cell get_Status Zeroed ArchiveStatus_DeepCopyInto"

definition Archive_DeepCopy :: "'x library \<Rightarrow> ('x cell, addr option) copier" where
  "Archive_DeepCopy lib = new_copy Archive_Cell get_Archive Zeroed (Archive_DeepCopyInto lib)"

definition ArchiveList_DeepCopy :: "'x library \<Rightarrow> ('x cell, addr option) copier" where
  "ArchiveList_DeepCopy lib = new_copy ArchiveList_Cell get_ArchiveList Zeroed (ArchiveList_DeepCopyInto lib)"

text \<open>
  \<^verbatim>\<open>DeepCopyObject\<close> gives an interface value: a type and a pointer, or nil. It tests the
  pointer, so that the copy of a nil pointer is the nil interface.
\<close>

datatype runtime_object = Archive_Object addr | ArchiveList_Object addr

definition Archive_DeepCopyObject ::
  "'x library \<Rightarrow> addr option \<Rightarrow> 'x cell memory \<Rightarrow> runtime_object option \<times> 'x cell memory" where
  "Archive_DeepCopyObject lib p s =
     (let (c, s) = Archive_DeepCopy lib p s
      in (case c of Some c \<Rightarrow> (Some (Archive_Object c), s) | None \<Rightarrow> (None, s)))"

definition ArchiveList_DeepCopyObject ::
  "'x library \<Rightarrow> addr option \<Rightarrow> 'x cell memory \<Rightarrow> runtime_object option \<times> 'x cell memory" where
  "ArchiveList_DeepCopyObject lib p s =
     (let (c, s) = ArchiveList_DeepCopy lib p s
      in (case c of Some c \<Rightarrow> (Some (ArchiveList_Object c), s) | None \<Rightarrow> (None, s)))"

section \<open>The contracts\<close>

lemma sidecar_copies:
  assumes "library_ok lib"
  shows "deep_copy (InstanceSidecarConfiguration_view lib) (InstanceSidecarConfiguration_DeepCopyInto lib)"
proof -
  have env: "deep_copy (slice_view get_Envs (EnvVar_view lib)) (make_copy Envs_Cell get_Envs Zeroed (EnvVar_DeepCopyInto lib))"
    and security: "deep_copy (ptr_view get_SecurityContext (SecurityContext_view lib))
      (new_copy SecurityContext_Cell get_SecurityContext Zeroed (SecurityContext_DeepCopyInto lib))"
    and resources: "deep_copy (ResourceRequirements_view lib) (ResourceRequirements_DeepCopyInto lib)"
    using assms by (auto simp: library_ok_def get_cell_defs intro!: deep_copy.make_copy deep_copy.new_copy)
  show ?thesis
    by (rule deep_copy.record_copy [OF pair_deep_copy [OF env pair_deep_copy [OF resources security]], where
          pointers = "\<lambda>m. (sidem_Env m, sidem_Resources m, sidem_SecurityContext m)" and
          put = "\<lambda>m (a, b, c). m\<lparr>sidem_Env := a, sidem_Resources := b, sidem_SecurityContext := c\<rparr>" and
          build = "\<lambda>m. InstanceSidecarConfiguration_value"])
      (auto simp: InstanceSidecarConfiguration_view_def InstanceSidecarConfiguration_DeepCopyInto_def pair_copy_def
        split: prod.splits)
qed

lemma spec_copies:
  assumes "library_ok lib"
  shows "deep_copy (ArchiveSpec_view lib) (ArchiveSpec_DeepCopyInto lib)"
  by (rule deep_copy.record_copy [OF pair_deep_copy [OF configuration_copies.deep_copy_axioms sidecar_copies [OF assms]],
        where pointers = "\<lambda>m. (specm_Configuration m, specm_InstanceSidecarConfiguration m)" and
        put = "\<lambda>m (a, b). m\<lparr>specm_Configuration := a, specm_InstanceSidecarConfiguration := b\<rparr>" and
        build = "\<lambda>m. ArchiveSpec_value"])
    (auto simp: ArchiveSpec_view_def ArchiveSpec_DeepCopyInto_def pair_copy_def split: prod.splits)

lemma archive_copies:
  assumes "library_ok lib"
  shows "deep_copy (Archive_view lib) (Archive_DeepCopyInto lib)"
proof -
  have meta: "deep_copy (ObjectMeta_view lib) (ObjectMeta_DeepCopyInto lib)" using assms by (simp add: library_ok_def)
  show ?thesis
    by (rule deep_copy.record_copy [OF pair_deep_copy [OF meta spec_copies [OF assms]],
          where pointers = "\<lambda>m. (archm_ObjectMeta m, archm_Spec m)" and
          put = "\<lambda>m (a, b). m\<lparr>archm_ObjectMeta := a, archm_Spec := b\<rparr>" and
          build = Archive_object])
      (auto simp: fun_eq_iff Archive_view_def Archive_DeepCopyInto_def pair_copy_def split: prod.splits)
qed

lemma archive_list_copies:
  assumes "library_ok lib"
  shows "deep_copy (ArchiveList_view lib) (ArchiveList_DeepCopyInto lib)"
proof -
  have meta: "deep_copy (ListMeta_view lib) (ListMeta_DeepCopyInto lib)" using assms by (simp add: library_ok_def)
  have items: "deep_copy (slice_view get_Archives (Archive_view lib))
      (make_copy Archives_Cell get_Archives Zeroed (Archive_DeepCopyInto lib))"
    by (rule deep_copy.make_copy [OF archive_copies [OF assms]]) (simp add: get_Archives_def)
  show ?thesis
    by (rule deep_copy.record_copy [OF pair_deep_copy [OF meta items],
          where pointers = "\<lambda>m. (alistm_ListMeta m, alistm_Items m)" and
          put = "\<lambda>m (a, b). m\<lparr>alistm_ListMeta := a, alistm_Items := b\<rparr>" and
          build = ArchiveList_object])
      (auto simp: fun_eq_iff ArchiveList_view_def ArchiveList_DeepCopyInto_def pair_copy_def split: prod.splits)
qed

lemma Archive_DeepCopy_contracts:
  assumes "library_ok lib"
  shows "deep_copy (ptr_view get_Sidecar (InstanceSidecarConfiguration_view lib)) (InstanceSidecarConfiguration_DeepCopy lib)"
    and "deep_copy (ptr_view get_Spec (ArchiveSpec_view lib)) (ArchiveSpec_DeepCopy lib)"
    and "deep_copy (ptr_view get_Archive (Archive_view lib)) (Archive_DeepCopy lib)"
    and "deep_copy (ptr_view get_ArchiveList (ArchiveList_view lib)) (ArchiveList_DeepCopy lib)"
  unfolding InstanceSidecarConfiguration_DeepCopy_def ArchiveSpec_DeepCopy_def Archive_DeepCopy_def ArchiveList_DeepCopy_def
  by (rule deep_copy.new_copy [OF sidecar_copies [OF assms]] deep_copy.new_copy [OF spec_copies [OF assms]]
      deep_copy.new_copy [OF archive_copies [OF assms]] deep_copy.new_copy [OF archive_list_copies [OF assms]];
      simp add: get_cell_defs)+

section \<open>A copy of an object shares nothing with it\<close>

text \<open>What an Archive (a list of Archives) at an address reads as, and the addresses it reaches.\<close>

definition archive_at :: "'x library \<Rightarrow> 'x cell memory \<Rightarrow> addr \<Rightarrow> (archive_object \<times> addr list) option" where
  "archive_at lib s a = (case ptr_view get_Archive (Archive_view lib) s (Some a) of
     Some (Some v, A) \<Rightarrow> Some (v, A) | _ \<Rightarrow> None)"

definition archive_list_at ::
  "'x library \<Rightarrow> 'x cell memory \<Rightarrow> addr \<Rightarrow> ((TypeMeta \<times> string \<times> archive_object list) \<times> addr list) option" where
  "archive_list_at lib s a = (case ptr_view get_ArchiveList (ArchiveList_view lib) s (Some a) of
     Some (Some v, A) \<Rightarrow> Some (v, A) | _ \<Rightarrow> None)"

lemma archive_at_iff:
  "archive_at lib s a = Some (v, A) \<longleftrightarrow> ptr_view get_Archive (Archive_view lib) s (Some a) = Some (Some v, A)"
  by (auto simp: archive_at_def split: option.splits)

lemma archive_list_at_iff:
  "archive_list_at lib s a = Some (v, A) \<longleftrightarrow>
     ptr_view get_ArchiveList (ArchiveList_view lib) s (Some a) = Some (Some v, A)"
  by (auto simp: archive_list_at_def split: option.splits)

text \<open>The view of an address is one too.\<close>

lemma archive_at_view: "library_ok lib \<Longrightarrow> memory_view (archive_at lib)"
  using deep_copy.axioms(1) [OF Archive_DeepCopy_contracts(3)] archive_at_iff by (rule target_memory_view)

lemma archive_list_at_view: "library_ok lib \<Longrightarrow> memory_view (archive_list_at lib)"
  using deep_copy.axioms(1) [OF Archive_DeepCopy_contracts(4)] archive_list_at_iff by (rule target_memory_view)

lemma ptr_view_not_nil: "ptr_view get view s p = Some (Some v, B) \<Longrightarrow> \<exists>b. p = Some b"
  by (auto simp: ptr_view_Some)

lemma Archive_DeepCopy_copies:
  assumes "library_ok lib" "archive_at lib s a = Some (v, A)" "Archive_DeepCopy lib (Some a) s = (p, s')"
  shows "\<exists>b B. p = Some b \<and> prefix s s' \<and> archive_at lib s' b = Some (v, B) \<and> fresh_cells s s' B"
proof -
  from deep_copy.copies [OF Archive_DeepCopy_contracts(3) [OF assms(1)] assms(2) [unfolded archive_at_iff] assms(3)]
  obtain B where B: "prefix s s'" "ptr_view get_Archive (Archive_view lib) s' p = Some (Some v, B)" "fresh_cells s s' B"
    by blast
  from ptr_view_not_nil [OF B(2)] B show ?thesis by (auto simp: archive_at_iff)
qed

lemma ArchiveList_DeepCopy_copies:
  assumes "library_ok lib" "archive_list_at lib s a = Some (v, A)" "ArchiveList_DeepCopy lib (Some a) s = (p, s')"
  shows "\<exists>b B. p = Some b \<and> prefix s s' \<and> archive_list_at lib s' b = Some (v, B) \<and> fresh_cells s s' B"
proof -
  from deep_copy.copies [OF Archive_DeepCopy_contracts(4) [OF assms(1)] assms(2) [unfolded archive_list_at_iff] assms(3)]
  obtain B where B: "prefix s s'" "ptr_view get_ArchiveList (ArchiveList_view lib) s' p = Some (Some v, B)" "fresh_cells s s' B"
    by blast
  from ptr_view_not_nil [OF B(2)] B show ?thesis by (auto simp: archive_list_at_iff)
qed

text \<open>
  C21. The copy of an Archive is a new object that reads as the original, in cells that did not exist
  before and that nothing else reaches; whatever happens to the memory, the copy reads the same as
  long as its own cells are not written, and so does the original.
\<close>

theorem Archive_DeepCopyObject_isolates:
  assumes "library_ok lib" "archive_at lib s a = Some (v, A)"
    and "Archive_DeepCopyObject lib (Some a) s = (r, s')"
  shows "\<exists>b B. r = Some (Archive_Object b) \<and> prefix s s'
     \<and> archive_at lib s' b = Some (v, B) \<and> distinct B \<and> set B \<subseteq> {length s..<length s'} \<and> set A \<inter> set B = {}
     \<and> (\<forall>t. agree B s' t \<longrightarrow> archive_at lib t b = Some (v, B))
     \<and> (\<forall>t. agree A s' t \<longrightarrow> archive_at lib t a = Some (v, A))"
proof -
  obtain p where p: "Archive_DeepCopy lib (Some a) s = (p, s')"
    "r = map_option Archive_Object p" using assms(3)
    by (cases "Archive_DeepCopy lib (Some a) s") (auto simp: Archive_DeepCopyObject_def split: option.splits)
  from Archive_DeepCopy_copies [OF assms(1,2) p(1)] obtain b B
    where B: "p = Some b" "prefix s s'" "archive_at lib s' b = Some (v, B)" "fresh_cells s s' B" by blast
  note view = archive_at_view [OF assms(1)]
  have "set A \<subseteq> {..<length s}" using view assms(2) by (rule memory_view.view_bounded)
  with B(4) have "distinct B \<and> set B \<subseteq> {length s..<length s'} \<and> set A \<inter> set B = {}"
    by (fastforce simp: fresh_cells_def)
  with B p(2) memory_view.view_frame [OF view B(3)]
    memory_view.view_frame [OF view memory_view.view_prefix [OF view assms(2) B(2)]] show ?thesis
    by (intro exI [of _ b] exI [of _ B]) simp
qed

text \<open>A nil pointer is copied to the nil interface.\<close>

lemma DeepCopyObject_nil:
  "Archive_DeepCopyObject lib None s = (None, s)" "ArchiveList_DeepCopyObject lib None s = (None, s)"
  by (simp_all add: Archive_DeepCopyObject_def ArchiveList_DeepCopyObject_def Archive_DeepCopy_def
      ArchiveList_DeepCopy_def new_copy_def)

text \<open>A nil slice stays nil, and an empty one that is not nil stays so.\<close>

lemma copy_keeps_nil:
  "fst (make_copy mk get zero copy sl s) = None \<longleftrightarrow> sl = None"
  "fst (new_copy mk' get' zero' copy' p s') = None \<longleftrightarrow> p = None"
  by (auto simp: make_copy_def new_copy_def Let_def split: option.split prod.split)

section \<open>An example\<close>

text \<open>
  A library whose values are a text and a pointer to further text, both part of what a value reads
  as, and an Archive with a repository, its credentials and a data section.
\<close>

type_synonym text_value = "string \<times> addr option"

definition text_view :: "(string \<Rightarrow> string \<Rightarrow> 'v) \<Rightarrow> (text_value cell, text_value, 'v) view" where
  "text_view f s m = map_option (apfst (\<lambda>v. f (fst m) (case v of None \<Rightarrow> '''' | Some (t, p) \<Rightarrow> t)))
     (ptr_view get_Library flat_view s (snd m))"

definition text_copy :: "(text_value cell, text_value) copier" where
  "text_copy m s = (let (p, s) = new_copy Library_Cell get_Library Zeroed copy_value (snd m) s in ((fst m, p), s))"

definition text_library :: "text_value library" where
  "text_library =
     \<lparr>EnvVar_DeepCopyInto = text_copy, EnvVar_view = text_view (\<lambda>n v. \<lparr>ev_Name = n, ev_Value = v\<rparr>),
      ResourceRequirements_DeepCopyInto = text_copy, ResourceRequirements_view = text_view append,
      SecurityContext_DeepCopyInto = text_copy, SecurityContext_view = text_view append,
      ObjectMeta_DeepCopyInto = text_copy,
      ObjectMeta_view = text_view (\<lambda>n v. \<lparr>om_Namespace = ''ns'', om_Name = n, om_Rest = v\<rparr>),
      ListMeta_DeepCopyInto = text_copy, ListMeta_view = text_view append\<rparr>"

lemma text_deep_copy: "deep_copy (text_view f) text_copy"
  by (rule deep_copy.record_copy [OF deep_copy.new_copy [OF flat_deep_copy, where mk = Library_Cell and
          get = get_Library and zero = Zeroed], where pointers = snd and put = "\<lambda>m p. (fst m, p)" and
        build = "\<lambda>m v. f (fst m) (case v of None \<Rightarrow> '''' | Some (t, p) \<Rightarrow> t)"])
    (auto simp: text_view_def text_copy_def get_Library_def split: prod.splits)

lemma text_library_ok: "library_ok text_library"
  by (simp add: library_ok_def text_library_def text_deep_copy)

definition repository_example :: PgbackrestRepository_mem where
  "repository_example =
     \<lparr>repom_Credentials = \<lparr>credm_AWS = Some 1\<rparr>, repom_Encryption = '''', repom_EncryptionKey = None,
      repom_EndpointURL = ''s3.local'', repom_EndpointCA = Some 0, repom_DisableVerifyTLS = False,
      repom_DestinationPath = ''/'', repom_Bucket = ''b'', repom_Retention = None\<rparr>"

definition configuration_example :: PgbackrestConfiguration_mem where
  "configuration_example =
     \<lparr>cfgm_Repositories = Some (2, 1), cfgm_Wal = None, cfgm_Data = Some 5, cfgm_Restore = None,
      cfgm_Compression = ''gz'', cfgm_Stanza = ''main'', cfgm_Log = None, cfgm_CreateStanza = ''''\<rparr>"

definition archive_example :: "text_value Archive_mem" where
  "archive_example =
     \<lparr>archm_TypeMeta = \<lparr>tm_Kind = ''Archive'', tm_APIVersion = ''v1''\<rparr>, archm_ObjectMeta = (''store'', None),
      archm_Spec = \<lparr>specm_Configuration = configuration_example,
        specm_InstanceSidecarConfiguration =
          \<lparr>sidem_Env = None, sidem_Resources = (''cpu'', Some 6), sidem_SecurityContext = None\<rparr>\<rparr>,
      archm_Status = ()\<rparr>"

text \<open>Both selectors of the credentials and the one of the certificate are the same cell.\<close>

definition memory_example :: "text_value cell memory" where
  "memory_example =
     [Selector_Cell \<lparr>sks_Name = ''s3'', sks_Key = ''key''\<rparr>,
      S3_Cell \<lparr>s3m_KeyType = ''shared'', s3m_AccessKeyIDReference = Some 0, s3m_SecretAccessKeyReference = Some 0,
        s3m_Region = '''', s3m_URIStyle = ''''\<rparr>,
      Repositories_Cell [repository_example],
      Int32_Cell 4,
      Map_Cell [(''a'', ''1''), (''b'', ''2'')],
      Data_Cell \<lparr>datam_Jobs = Some 3, datam_ImmediateCheckpoint = True, datam_Annotations = Some 4,
        datam_AdditionalCommandArgs = None\<rparr>,
      Library_Cell (''limits'', None),
      Archive_Cell archive_example]"

definition archive_example_object :: archive_object where
  "archive_example_object = fst (the (archive_at text_library memory_example 7))"

lemma archive_example_reads:
  "archive_at text_library memory_example 7 = Some (archive_example_object, [7, 2, 1, 0, 0, 0, 5, 3, 4, 6])"
  by code_simp

theorem Archive_DeepCopyObject_isolates_witness:
  "\<exists>b B s'. Archive_DeepCopyObject text_library (Some 7) memory_example = (Some (Archive_Object b), s')
     \<and> archive_at text_library s' b = Some (archive_example_object, B)
     \<and> archive_at text_library (s'[3 := Int32_Cell 9]) b = Some (archive_example_object, B)"
proof -
  obtain r s' where c: "Archive_DeepCopyObject text_library (Some 7) memory_example = (r, s')" by fastforce
  from Archive_DeepCopyObject_isolates [OF text_library_ok archive_example_reads c] obtain b B
    where B: "r = Some (Archive_Object b)" "archive_at text_library s' b = Some (archive_example_object, B)"
      "set B \<subseteq> {length memory_example..<length s'}"
      "\<forall>t. agree B s' t \<longrightarrow> archive_at text_library t b = Some (archive_example_object, B)" by blast
  have "3 \<notin> set B" using B(3) by (auto simp: memory_example_def)
  then have "agree B s' (s'[3 := Int32_Cell 9])" by (rule agree_update)
  with B c show ?thesis by blast
qed

end
