(* ===== verification/Client_Memory.thy ===== *)
theory Client_Memory
  imports Archive_Copy Extended_Client
begin

text \<open>
  The caching client over memory (\<^verbatim>\<open>internal/cnpgi/instance/internal/client/client.go\<close>).
  \<open>Extended_Client\<close> treats objects as values; in the program they are structs with pointers. On a
  miss the cache keeps a deep copy of what the caller got; on a hit the struct of the cached object is
  assigned to the caller's, which shares what its pointers lead to. Here the objects are cells of
  \<open>Go_Memory\<close>, and every run in which callers leave the cells of cached objects alone is a
  run of the client on values.
\<close>

section \<open>Objects in memory\<close>

text \<open>A secret is a value of the library's types, with its own deep copy.\<close>

record Secret =
  secret_Namespace :: string
  secret_Name :: string
  secret_Data :: "(string \<times> string) list"

record 'x kube_library =
  kl_library :: "'x library"
  Secret_DeepCopyInto :: "('x cell, 'x) copier"
  Secret_view :: "('x cell, 'x, Secret) view"

definition kube_library_ok :: "'x kube_library \<Rightarrow> bool" where
  "kube_library_ok lib \<longleftrightarrow> library_ok (kl_library lib) \<and> deep_copy (Secret_view lib) (Secret_DeepCopyInto lib)"

definition Secret_DeepCopy :: "'x kube_library \<Rightarrow> ('x cell, addr option) copier" where
  "Secret_DeepCopy lib = new_copy Library_Cell get_Library Zeroed (Secret_DeepCopyInto lib)"

definition secret_at :: "'x kube_library \<Rightarrow> 'x cell memory \<Rightarrow> addr \<Rightarrow> (Secret \<times> addr list) option" where
  "secret_at lib s a = (case ptr_view get_Library (Secret_view lib) s (Some a) of
     Some (Some v, A) \<Rightarrow> Some (v, A) | _ \<Rightarrow> None)"

datatype object_data = Archive_Data TypeMeta string ArchiveSpec | Secret_Data "(string \<times> string) list"

definition archive_value_object :: "archive_object \<Rightarrow> object_data object" where
  "archive_value_object v =
     \<lparr>ob_Kind = Archive_Kind, ob_Namespace = om_Namespace (ao_ObjectMeta v), ob_Name = om_Name (ao_ObjectMeta v),
      ob_Data = Archive_Data (ao_TypeMeta v) (om_Rest (ao_ObjectMeta v)) (ao_Spec v)\<rparr>"

definition secret_value_object :: "Secret \<Rightarrow> object_data object" where
  "secret_value_object v =
     \<lparr>ob_Kind = Secret_Kind, ob_Namespace = secret_Namespace v, ob_Name = secret_Name v,
      ob_Data = Secret_Data (secret_Data v)\<rparr>"

definition object_at :: "'x kube_library \<Rightarrow> ('x cell, addr, object_data object) view" where
  "object_at lib s a =
     (case deref s a of
        Some (Archive_Cell m) \<Rightarrow> map_option (apfst archive_value_object) (archive_at (kl_library lib) s a)
      | Some (Library_Cell m) \<Rightarrow> map_option (apfst secret_value_object) (secret_at lib s a)
      | _ \<Rightarrow> None)"

text \<open>\<^verbatim>\<open>obj.DeepCopyObject()\<close>, by the type of the object.\<close>

definition DeepCopyObject :: "'x kube_library \<Rightarrow> ('x cell, addr) copier" where
  "DeepCopyObject lib a s =
     (case deref s a of
        Some (Archive_Cell m) \<Rightarrow>
          (case Archive_DeepCopyObject (kl_library lib) (Some a) s of
             (Some (Archive_Object b), s') \<Rightarrow> (b, s') | _ \<Rightarrow> (a, s))
      | Some (Library_Cell m) \<Rightarrow>
          (case Secret_DeepCopy lib (Some a) s of (Some b, s') \<Rightarrow> (b, s') | _ \<Rightarrow> (a, s))
      | _ \<Rightarrow> (a, s))"

lemma secret_at_iff:
  "secret_at lib s a = Some (v, A) \<longleftrightarrow> ptr_view get_Library (Secret_view lib) s (Some a) = Some (Some v, A)"
  by (auto simp: secret_at_def split: option.splits)

lemma secret_contract:
  "kube_library_ok lib \<Longrightarrow> deep_copy (ptr_view get_Library (Secret_view lib)) (Secret_DeepCopy lib)"
  unfolding Secret_DeepCopy_def by (rule deep_copy.new_copy) (simp_all add: kube_library_ok_def get_Library_def)

lemma secret_at_view: "kube_library_ok lib \<Longrightarrow> memory_view (secret_at lib)"
  using deep_copy.axioms(1) [OF secret_contract] secret_at_iff by (rule target_memory_view)

lemma object_at_cases:
  assumes "object_at lib s a = Some (v, A)"
  obtains (archive) m w B where "deref s a = Some (Archive_Cell m)" "archive_at (kl_library lib) s a = Some (w, A)"
      "Archive_view (kl_library lib) s m = Some (w, B)" "v = archive_value_object w" "A = a # B"
    | (secret) m w B where "deref s a = Some (Library_Cell m)" "secret_at lib s a = Some (w, A)"
      "Secret_view lib s m = Some (w, B)" "v = secret_value_object w" "A = a # B"
  using assms
  by (auto simp: object_at_def archive_at_iff secret_at_iff ptr_view_Some get_Archive_iff get_Library_iff
      split: option.splits cell.splits)

lemma object_at_archive:
  "deref s a = Some (Archive_Cell m) \<Longrightarrow> Archive_view (kl_library lib) s m = Some (w, B) \<Longrightarrow>
   object_at lib s a = Some (archive_value_object w, a # B)"
  by (simp add: object_at_def archive_at_def ptr_view_def get_Archive_def)

lemma object_at_secret:
  "deref s a = Some (Library_Cell m) \<Longrightarrow> Secret_view lib s m = Some (w, B) \<Longrightarrow>
   object_at lib s a = Some (secret_value_object w, a # B)"
  by (simp add: object_at_def secret_at_def ptr_view_def get_Library_def)

lemma object_deep_copy:
  assumes "kube_library_ok lib"
  shows "deep_copy (object_at lib) (DeepCopyObject lib)"
proof (intro deep_copy.intro memory_view.intro deep_copy_axioms.intro)
  have lib: "library_ok (kl_library lib)" using assms by (simp add: kube_library_ok_def)
  note archives = archive_at_view [OF lib] and secrets = secret_at_view [OF assms]
  fix s a v A assume v: "object_at lib s a = Some (v, A)"
  then show "set A \<subseteq> {..<length s}"
    by (cases rule: object_at_cases) (use memory_view.view_bounded [OF archives] memory_view.view_bounded [OF secrets] in blast)+
  show "object_at lib t a = Some (v, A)" if "agree A s t" for t
    using v
  proof (cases rule: object_at_cases)
    case (archive m w B)
    with that memory_view.view_frame [OF archives archive(2) that] show ?thesis
      by (simp add: object_at_def)
  next
    case (secret m w B)
    with that memory_view.view_frame [OF secrets secret(2) that] show ?thesis
      by (simp add: object_at_def)
  qed
  fix b s' assume copy: "DeepCopyObject lib a s = (b, s')"
  from v show "prefix s s' \<and> (\<exists>B. object_at lib s' b = Some (v, B) \<and> fresh_cells s s' B)"
  proof (cases rule: object_at_cases)
    case (archive m w B)
    obtain p t where p: "Archive_DeepCopy (kl_library lib) (Some a) s = (p, t)" by fastforce
    from Archive_DeepCopy_copies [OF lib archive(2) p] obtain c C where C: "p = Some c" "prefix s t"
      "archive_at (kl_library lib) t c = Some (w, C)" "fresh_cells s t C" by blast
    with copy archive(1) p have "b = c" "s' = t" by (simp_all add: DeepCopyObject_def Archive_DeepCopyObject_def)
    moreover from C(3) obtain m' where "deref t c = Some (Archive_Cell m')"
      by (auto simp: archive_at_iff ptr_view_Some get_Archive_iff)
    ultimately show ?thesis using C archive(4) by (simp add: object_at_def)
  next
    case (secret m w B)
    obtain p t where p: "Secret_DeepCopy lib (Some a) s = (p, t)" by fastforce
    from deep_copy.copies [OF secret_contract [OF assms] secret(2) [unfolded secret_at_iff] p] ptr_view_not_nil
    obtain c C where C: "p = Some c" "prefix s t" "secret_at lib t c = Some (w, C)" "fresh_cells s t C"
      by (metis secret_at_iff)
    with copy secret(1) p have "b = c" "s' = t" by (simp_all add: DeepCopyObject_def)
    moreover from C(3) obtain m' where "deref t c = Some (Library_Cell m')"
      by (auto simp: secret_at_iff ptr_view_Some get_Library_iff)
    ultimately show ?thesis using C secret(4) by (simp add: object_at_def)
  qed
qed

text \<open>The assignment of a struct: the other variable reads the same, and shares what the first one points to.\<close>

lemma object_assign:
  assumes "kube_library_ok lib" "object_at lib s a = Some (v, A)" "obj < length s" "obj \<notin> set A"
  shows "\<exists>B. A = a # B \<and> object_at lib (s[obj := s ! a]) obj = Some (v, obj # B)"
  using assms(2)
proof (cases rule: object_at_cases)
  case (archive m w B)
  have "deep_copy (Archive_view (kl_library lib)) (Archive_DeepCopyInto (kl_library lib))"
    using assms(1) by (intro archive_copies) (simp add: kube_library_ok_def)
  from memory_view.view_update [OF deep_copy.axioms(1) [OF this] archive(3)] archive(1,4,5) assms(3,4)
  show ?thesis by (simp add: object_at_archive deref_def split: if_splits)
next
  case (secret m w B)
  have "deep_copy (Secret_view lib) (Secret_DeepCopyInto lib)" using assms(1) by (simp add: kube_library_ok_def)
  from memory_view.view_update [OF deep_copy.axioms(1) [OF this] secret(3)] secret(1,4,5) assms(3,4)
  show ?thesis by (simp add: object_at_secret deref_def split: if_splits)
qed

section \<open>The client\<close>

record mem_entry =
  me_entry :: addr
  me_fetchUnixTime :: int
  me_ttl :: int

definition key_at :: "'x kube_library \<Rightarrow> 'x cell memory \<Rightarrow> addr \<Rightarrow> object_key option" where
  "key_at lib s a = map_option (object_key \<circ> fst) (object_at lib s a)"

definition mem_expired :: "int \<Rightarrow> mem_entry \<Rightarrow> bool" where
  "mem_expired now e \<longleftrightarrow> now - me_fetchUnixTime e * Second > me_ttl e"

datatype mem_hit = Fresh_Mem addr | Expired_Mem nat | Missing_Mem

fun mem_lookup ::
  "'x kube_library \<Rightarrow> int \<Rightarrow> object_key \<Rightarrow> 'x cell memory \<Rightarrow> nat \<Rightarrow> mem_entry list \<Rightarrow> mem_hit" where
  "mem_lookup lib now key s idx [] = Missing_Mem"
| "mem_lookup lib now key s idx (e # es) =
     (if key_at lib s (me_entry e) \<noteq> Some key then mem_lookup lib now key s (idx + 1) es
      else if mem_expired now e then Expired_Mem idx
      else Fresh_Mem (me_entry e))"

text \<open>
  The wrapped client, \<open>get\<close>, reads the object of the key into the caller's, \<open>obj\<close>. On a hit
  \<^verbatim>\<open>reflect.Indirect(outVal).Set(reflect.Indirect(objVal))\<close> assigns the struct.
\<close>

definition getCachedObject_mem ::
  "'x kube_library \<Rightarrow> int \<Rightarrow> int \<Rightarrow> (object_key \<Rightarrow> addr \<Rightarrow> 'x cell memory \<Rightarrow> unit go \<times> 'x cell memory) \<Rightarrow>
   object_key \<Rightarrow> addr \<Rightarrow> 'x cell memory \<Rightarrow> mem_entry list \<Rightarrow> unit go \<times> 'x cell memory \<times> mem_entry list" where
  "getCachedObject_mem lib now received get key obj s es =
     (case mem_lookup lib now key s 0 es of
        Fresh_Mem a \<Rightarrow> (Ret (), s[obj := s ! a], es)
      | hit \<Rightarrow>
          (case get key obj s of
             (Ret ok, s) \<Rightarrow>
               let (a, s) = DeepCopyObject lib obj s;
                   cs = \<lparr>me_entry = a, me_fetchUnixTime = received div Second, me_ttl = DefaultTTLSeconds * Second\<rparr>
               in (Ret (), s, (case hit of Expired_Mem idx \<Rightarrow> es[idx := cs] | _ \<Rightarrow> es @ [cs]))
           | (r, s) \<Rightarrow> (r, s, es)))"

definition Get_mem ::
  "'x kube_library \<Rightarrow> int \<Rightarrow> int \<Rightarrow> (object_key \<Rightarrow> addr \<Rightarrow> 'x cell memory \<Rightarrow> unit go \<times> 'x cell memory) \<Rightarrow>
   object_key \<Rightarrow> addr \<Rightarrow> 'x cell memory \<Rightarrow> mem_entry list \<Rightarrow> unit go \<times> 'x cell memory \<times> mem_entry list" where
  "Get_mem lib now received get key obj s es =
     (if \<not> isObjectCached (fst key) then (let (r, s) = get key obj s in (r, s, es))
      else getCachedObject_mem lib now received get key obj s es)"

fun removeObject_mem :: "'x kube_library \<Rightarrow> 'x cell memory \<Rightarrow> object_key \<Rightarrow> mem_entry list \<Rightarrow> mem_entry list" where
  "removeObject_mem lib s key [] = []"
| "removeObject_mem lib s key (e # es) =
     (if key_at lib s (me_entry e) = Some key then es else e # removeObject_mem lib s key es)"

definition forget_mem :: "'x kube_library \<Rightarrow> 'x cell memory \<Rightarrow> object_key \<Rightarrow> mem_entry list \<Rightarrow> mem_entry list" where
  "forget_mem lib s key es = (if isObjectCached (fst key) then removeObject_mem lib s key es else es)"

section \<open>The cache as values\<close>

definition abs_entry :: "'x kube_library \<Rightarrow> 'x cell memory \<Rightarrow> mem_entry \<Rightarrow> object_data cachedEntry" where
  "abs_entry lib s e =
     \<lparr>cache_entry = fst (the (object_at lib s (me_entry e))), cache_fetchUnixTime = me_fetchUnixTime e,
      cache_ttl = me_ttl e\<rparr>"

definition readable :: "'x kube_library \<Rightarrow> 'x cell memory \<Rightarrow> mem_entry list \<Rightarrow> bool" where
  "readable lib s es \<longleftrightarrow> (\<forall>e \<in> set es. object_at lib s (me_entry e) \<noteq> None)"

text \<open>The cells that cached objects reach.\<close>

definition cached_cells :: "'x kube_library \<Rightarrow> 'x cell memory \<Rightarrow> mem_entry list \<Rightarrow> addr set" where
  "cached_cells lib s es = {a. \<exists>e \<in> set es. \<exists>v A. object_at lib s (me_entry e) = Some (v, A) \<and> a \<in> set A}"

lemma key_at_iff:
  "object_at lib s a = Some (v, A) \<Longrightarrow> key_at lib s a = Some key \<longleftrightarrow>
     ob_Kind v = fst key \<and> ob_Namespace v = fst (snd key) \<and> ob_Name v = snd (snd key)"
  by (cases key) (simp add: key_at_def object_key_def)

lemma mem_lookup_abs:
  "readable lib s es \<Longrightarrow> cache_lookup now key i (map (abs_entry lib s) es) =
     (case mem_lookup lib now key s i es of Fresh_Mem a \<Rightarrow> Fresh (fst (the (object_at lib s a)))
      | Expired_Mem j \<Rightarrow> Expired j | Missing_Mem \<Rightarrow> Missing)"
proof (induction es arbitrary: i)
  case Nil
  show ?case by (cases key) simp
next
  case (Cons e es)
  obtain k ns n where key: "key = (k, ns, n)" by (cases key)
  from Cons.prems obtain v A where v: "object_at lib s (me_entry e) = Some (v, A)" by (auto simp: readable_def)
  from Cons show ?case
    by (simp add: key key_at_iff [OF v] abs_entry_def v isExpired_def mem_expired_def readable_def)
qed

lemma mem_lookup_fresh:
  "mem_lookup lib now key s i es = Fresh_Mem a \<Longrightarrow> \<exists>e \<in> set es. me_entry e = a \<and> key_at lib s a = Some key"
  by (induction es arbitrary: i) (auto split: if_splits)

lemma removeObject_abs:
  "readable lib s es \<Longrightarrow> object_key obj = key \<Longrightarrow>
   map (abs_entry lib s) (removeObject_mem lib s key es) = removeObject obj (map (abs_entry lib s) es)"
proof (induction es)
  case (Cons e es)
  from Cons.prems(1) obtain v A where v: "object_at lib s (me_entry e) = Some (v, A)" by (auto simp: readable_def)
  from Cons.prems(2) have "fst key = ob_Kind obj" "fst (snd key) = ob_Namespace obj" "snd (snd key) = ob_Name obj"
    by (auto simp: object_key_def)
  with Cons v show ?case by (auto simp: key_at_iff [OF v] abs_entry_def readable_def)
qed simp

lemma removeObject_mem_subset: "set (removeObject_mem lib s key es) \<subseteq> set es"
  by (induction es) auto

lemma forget_abs:
  assumes "readable lib s es" "object_key obj = key"
  shows "map (abs_entry lib s) (forget_mem lib s key es) = forget obj (map (abs_entry lib s) es)"
    and "readable lib s (forget_mem lib s key es)"
  using assms removeObject_abs [OF assms] removeObject_mem_subset [of lib s key es]
  by (auto simp: forget_mem_def forget_def object_key_def readable_def)

text \<open>Whatever is done outside of the cells that cached objects reach, the cache reads the same.\<close>

lemma cache_frame:
  assumes "kube_library_ok lib" "readable lib s es" "\<And>a. a \<in> cached_cells lib s es \<Longrightarrow> deref t a = deref s a"
  shows "map (abs_entry lib t) es = map (abs_entry lib s) es" "readable lib t es"
    "cached_cells lib t es = cached_cells lib s es"
proof -
  have "object_at lib t (me_entry e) = object_at lib s (me_entry e)" if e: "e \<in> set es" for e
  proof -
    from assms(2) e obtain v A where v: "object_at lib s (me_entry e) = Some (v, A)" by (auto simp: readable_def)
    have "agree A s t" using assms(3) e v by (auto simp: agree_def cached_cells_def)
    with memory_view.view_frame [OF deep_copy.axioms(1) [OF object_deep_copy [OF assms(1)]] v] v show ?thesis by simp
  qed
  then show "map (abs_entry lib t) es = map (abs_entry lib s) es" "readable lib t es"
    "cached_cells lib t es = cached_cells lib s es"
    using assms(2) by (auto simp: abs_entry_def readable_def cached_cells_def)
qed

lemma cached_cells_bounded: "kube_library_ok lib \<Longrightarrow> a \<in> cached_cells lib s es \<Longrightarrow> a < length s"
  using memory_view.view_bounded [OF deep_copy.axioms(1) [OF object_deep_copy]] by (fastforce simp: cached_cells_def)

text \<open>
  The wrapped client writes the caller's struct and new cells, nothing else; what it has put there
  reads as its answer and reaches only these cells.
\<close>

definition get_ok ::
  "'x kube_library \<Rightarrow> (int \<Rightarrow> object_key \<Rightarrow> addr \<Rightarrow> 'x cell memory \<Rightarrow> unit go \<times> 'x cell memory) \<Rightarrow>
   (int \<Rightarrow> object_key \<Rightarrow> object_data object go) \<Rightarrow> bool" where
  "get_ok lib get api \<longleftrightarrow> (\<forall>t key obj s r s'. obj < length s \<longrightarrow> get t key obj s = (r, s') \<longrightarrow>
      (\<forall>a < length s. a \<noteq> obj \<longrightarrow> deref s' a = deref s a) \<and> length s \<le> length s'
      \<and> (isObjectCached (fst key) \<longrightarrow> (case r of Ret u \<Rightarrow> (\<exists>v B. object_at lib s' obj = Some (v, B) \<and> api t key = Ret v
               \<and> set B \<subseteq> insert obj {length s..<length s'})
         | Fail e \<Rightarrow> api t key = Fail e | Panic m \<Rightarrow> api t key = Panic m)))"

lemma get_ok_grows: "get_ok lib get api \<Longrightarrow> get t key obj s = (r, s') \<Longrightarrow> obj < length s \<Longrightarrow> length s \<le> length s'"
  unfolding get_ok_def by blast

text \<open>What a read on values gives, and what the caller finds in its object.\<close>

definition delivers :: "'x kube_library \<Rightarrow> unit go \<Rightarrow> addr \<Rightarrow> 'x cell memory \<Rightarrow> object_data object go \<Rightarrow> bool" where
  "delivers lib r obj s r' \<longleftrightarrow>
     (case r of Ret u \<Rightarrow> (\<exists>v A. object_at lib s obj = Some (v, A) \<and> r' = Ret v)
      | Fail e \<Rightarrow> r' = Fail e | Panic m \<Rightarrow> r' = Panic m)"

text \<open>
  After a call the caller's struct is still its own; after a miss so is everything the struct
  reaches.
\<close>

definition caller_owns :: "'x kube_library \<Rightarrow> mem_hit \<Rightarrow> unit go \<Rightarrow> addr \<Rightarrow> 'x cell memory \<Rightarrow> mem_entry list \<Rightarrow> bool" where
  "caller_owns lib hit r obj s es \<longleftrightarrow> obj \<notin> cached_cells lib s es
     \<and> (returns r \<and> (\<forall>a. hit \<noteq> Fresh_Mem a) \<longrightarrow>
          (\<exists>v A. object_at lib s obj = Some (v, A) \<and> set A \<inter> cached_cells lib s es = {}))"

lemma cached_cells_add:
  assumes "object_at lib s (me_entry cs) = Some (v, C)"
  shows "cached_cells lib s (es @ [cs]) = cached_cells lib s es \<union> set C"
    and "cached_cells lib s (es[j := cs]) \<subseteq> cached_cells lib s es \<union> set C"
proof -
  have cells: "b \<in> cached_cells lib s fs \<longleftrightarrow> (\<exists>e \<in> set fs. \<exists>v A. object_at lib s (me_entry e) = Some (v, A) \<and> b \<in> set A)" for b fs
    by (simp add: cached_cells_def)
  show "cached_cells lib s (es @ [cs]) = cached_cells lib s es \<union> set C"
    using assms by (intro set_eqI) (simp add: cells bex_Un disj_commute)
  show "cached_cells lib s (es[j := cs]) \<subseteq> cached_cells lib s es \<union> set C"
  proof
    fix b assume "b \<in> cached_cells lib s (es[j := cs])"
    then obtain e w A where e: "e \<in> set (es[j := cs])" "object_at lib s (me_entry e) = Some (w, A)" "b \<in> set A"
      unfolding cells by blast
    then have "e = cs \<or> e \<in> set es" using set_update_subset_insert [of es j cs] by blast
    with e assms show "b \<in> cached_cells lib s es \<union> set C" by (auto simp: cells)
  qed
qed

lemma getCachedObject_mem_abs:
  assumes lib: "kube_library_ok lib" and get: "get_ok lib get api" and es: "readable lib s es"
    and obj: "obj < length s" "obj \<notin> cached_cells lib s es" and key: "isObjectCached (fst key)"
    and run: "getCachedObject_mem lib now received (get received) key obj s es = (r, s', es')"
  shows "\<exists>r'. getCachedObject now received (api received) key (map (abs_entry lib s) es)
        = (r', map (abs_entry lib s') es') \<and> readable lib s' es' \<and> delivers lib r obj s' r'
        \<and> caller_owns lib (mem_lookup lib now key s 0 es) r obj s' es'"
proof -
  note view = deep_copy.axioms(1) [OF object_deep_copy [OF lib]]
  note lookup = mem_lookup_abs [OF es, of now key 0]
  consider (hit) a where "mem_lookup lib now key s 0 es = Fresh_Mem a"
    | (miss) "\<forall>a. mem_lookup lib now key s 0 es \<noteq> Fresh_Mem a"
    by blast
  then show ?thesis
  proof cases
    case (hit a)
    with run have r: "r = Ret ()" "s' = s[obj := s ! a]" "es' = es" by (simp_all add: getCachedObject_mem_def)
    from mem_lookup_fresh [OF hit] obtain e where e: "e \<in> set es" "me_entry e = a" by blast
    with es obtain v A where v: "object_at lib s a = Some (v, A)" by (auto simp: readable_def)
    with obj(2) e have "obj \<notin> set A" by (auto simp: cached_cells_def)
    from object_assign [OF lib v obj(1) this] obtain B where "object_at lib s' obj = Some (v, obj # B)" by (auto simp: r)
    moreover have "deref s' b = deref s b" if "b \<in> cached_cells lib s es" for b
      using that obj(2) by (auto simp: r)
    note same = cache_frame [OF lib es this]
    ultimately show ?thesis using hit lookup v
      by (simp add: getCachedObject_def delivers_def caller_owns_def obj(2) r(1,3) same)
  next
    case miss
    obtain g s1 where g: "get received key obj s = (g, s1)" by fastforce
    from get g have others: "\<And>b. b < length s \<Longrightarrow> b \<noteq> obj \<Longrightarrow> deref s1 b = deref s b"
      and answer: "case g of Ret u \<Rightarrow> (\<exists>v B. object_at lib s1 obj = Some (v, B) \<and> api received key = Ret v
           \<and> set B \<subseteq> insert obj {length s..<length s1})
         | Fail e \<Rightarrow> api received key = Fail e | Panic m \<Rightarrow> api received key = Panic m"
      using obj(1) key unfolding get_ok_def by blast+
    have "deref s1 b = deref s b" if "b \<in> cached_cells lib s es" for b
      using that obj(2) others cached_cells_bounded [OF lib that] by blast
    note same1 = cache_frame [OF lib es this]
    show ?thesis
    proof (cases "\<exists>u. g = Ret u")
      case False
      with g miss run have "r = g" "s' = s1" "es' = es" "g \<noteq> Ret ()"
        by (auto simp: getCachedObject_mem_def split: mem_hit.splits go.splits)
      with answer miss lookup same1 show ?thesis
        by (cases g) (auto simp: getCachedObject_def delivers_def caller_owns_def obj(2) split: mem_hit.splits)
    next
      case True
      then have gr: "g = Ret ()" by simp
      with answer obtain v B where v: "object_at lib s1 obj = Some (v, B)" "api received key = Ret v"
        "set B \<subseteq> insert obj {length s..<length s1}" by auto
      obtain a s2 where copy: "DeepCopyObject lib obj s1 = (a, s2)" by fastforce
      from deep_copy.copies [OF object_deep_copy [OF lib] v(1) copy] obtain C
        where C: "prefix s1 s2" "object_at lib s2 a = Some (v, C)" "fresh_cells s1 s2 C" by blast
      let ?cs = "\<lparr>me_entry = a, me_fetchUnixTime = received div Second, me_ttl = DefaultTTLSeconds * Second\<rparr>"
      have "r = Ret () \<and> s' = s2
        \<and> es' = (case mem_lookup lib now key s 0 es of Expired_Mem idx \<Rightarrow> es[idx := ?cs] | _ \<Rightarrow> es @ [?cs])"
        using run g gr copy miss
        by (cases "mem_lookup lib now key s 0 es") (simp_all add: getCachedObject_mem_def)
      then have r: "r = Ret ()" "s' = s2"
        "es' = (case mem_lookup lib now key s 0 es of Expired_Mem idx \<Rightarrow> es[idx := ?cs] | _ \<Rightarrow> es @ [?cs])"
        by simp_all
      have "deref s2 b = deref s1 b" if "b \<in> cached_cells lib s1 es" for b
        using deref_prefix [OF C(1)] cached_cells_bounded [OF lib that] by (simp add: deref_def)
      note same = cache_frame [OF lib same1(2) this]
      have cs: "abs_entry lib s2 ?cs = \<lparr>cache_entry = v, cache_fetchUnixTime = received div Second, cache_ttl = DefaultTTLSeconds * Second\<rparr>"
        using C(2) by (simp add: abs_entry_def)
      have "readable lib s2 (es[j := ?cs])" "readable lib s2 (es @ [?cs])" for j
        using same(2) C(2) set_update_subset_insert [of es j ?cs] by (auto simp: readable_def)
      moreover have "delivers lib r obj s' (Ret v)"
        using memory_view.view_prefix [OF view v(1) C(1)] by (simp add: delivers_def r)
      moreover have "getCachedObject now received (api received) key (map (abs_entry lib s) es)
          = (Ret v, map (abs_entry lib s2) es')"
        using miss lookup v(2)
        by (cases "mem_lookup lib now key s 0 es")
          (simp_all add: getCachedObject_def r(3) map_update cs same(1) same1(1))
      moreover have "readable lib s' es'"
        using calculation(1,2) by (simp add: r(2,3) split: mem_hit.split)
      moreover have "caller_owns lib (mem_lookup lib now key s 0 es) r obj s' es'"
      proof -
        have "length s \<le> length s1" using get g obj(1) by (rule get_ok_grows)
        then have len: "\<forall>b \<in> set C. length s \<le> b \<and> length s1 \<le> b" using C(3) by (auto simp: fresh_cells_def)
        have old: "b < length s \<and> b \<noteq> obj" if "b \<in> cached_cells lib s es" for b
          using that obj(2) cached_cells_bounded [OF lib that] by blast
        have sub: "cached_cells lib s2 es' \<subseteq> cached_cells lib s es \<union> set C"
          using cached_cells_add [of lib s2 ?cs v C es] C(2) same(3) same1(3) by (simp add: r(3) split: mem_hit.split)
        have "obj \<notin> cached_cells lib s2 es'" using sub len obj by fastforce
        moreover have "set B \<inter> cached_cells lib s2 es' = {}" using sub len old v(3) obj(1) by fastforce
        ultimately show ?thesis using memory_view.view_prefix [OF view v(1) C(1)] by (auto simp: caller_owns_def r(2))
      qed
      ultimately show ?thesis by (simp add: r(2))
    qed
  qed
qed

section \<open>Runs of the client over memory\<close>

text \<open>
  Between the calls of the client the callers do what they want with their memory, short of writing
  to the cells that cached objects reach. The struct a caller reads into is not one of these.
\<close>

inductive mem_step ::
  "'x kube_library \<Rightarrow> (int \<Rightarrow> object_key \<Rightarrow> addr \<Rightarrow> 'x cell memory \<Rightarrow> unit go \<times> 'x cell memory) \<Rightarrow>
   int \<times> 'x cell memory \<times> mem_entry list \<Rightarrow> int \<times> 'x cell memory \<times> mem_entry list \<Rightarrow> bool" for lib get where
  mem_wait: "now \<le> later \<Longrightarrow> mem_step lib get (now, s, es) (later, s, es)"
| mem_caller: "(\<And>a. a \<in> cached_cells lib s es \<Longrightarrow> deref t a = deref s a) \<Longrightarrow>
     mem_step lib get (now, s, es) (now, t, es)"
| mem_get: "now \<le> received \<Longrightarrow> obj < length s \<Longrightarrow> obj \<notin> cached_cells lib s es \<Longrightarrow>
     Get_mem lib now received (get received) key obj s es = (r, s', es') \<Longrightarrow>
     mem_step lib get (now, s, es) (received, s', es')"
| mem_forget: "object_at lib s obj = Some (v, A) \<Longrightarrow>
     mem_step lib get (now, s, es) (now, s, forget_mem lib s (object_key v) es)"

inductive_cases mem_stepE: "mem_step lib get (now, s, es) t"

definition mem_run ::
  "'x kube_library \<Rightarrow> (int \<Rightarrow> object_key \<Rightarrow> addr \<Rightarrow> 'x cell memory \<Rightarrow> unit go \<times> 'x cell memory) \<Rightarrow>
   int \<Rightarrow> 'x cell memory \<Rightarrow> mem_entry list \<Rightarrow> bool" where
  "mem_run lib get now s es \<longleftrightarrow> (\<exists>start s0. (mem_step lib get)\<^sup>*\<^sup>* (start, s0, []) (now, s, es))"

lemma mem_run_new: "mem_run lib get now s []"
  by (auto simp: mem_run_def)

lemma mem_run_step: "mem_run lib get now s es \<Longrightarrow> mem_step lib get (now, s, es) (later, t, es') \<Longrightarrow> mem_run lib get later t es'"
  by (auto simp: mem_run_def intro: rtranclp.rtrancl_into_rtrancl)

lemma Get_mem_abs:
  assumes "kube_library_ok lib" "get_ok lib get api" "readable lib s es"
    and "obj < length s" "obj \<notin> cached_cells lib s es"
    and run: "Get_mem lib now received (get received) key obj s es = (r, s', es')"
  shows "readable lib s' es' \<and> (\<exists>r'. Client_Get now received (api received) key (map (abs_entry lib s) es)
      = (r', map (abs_entry lib s') es') \<and> (isObjectCached (fst key) \<longrightarrow> delivers lib r obj s' r'
          \<and> caller_owns lib (mem_lookup lib now key s 0 es) r obj s' es'))"
proof (cases "isObjectCached (fst key)")
  case True
  with run have "getCachedObject_mem lib now received (get received) key obj s es = (r, s', es')"
    by (simp add: Get_mem_def)
  from getCachedObject_mem_abs [OF assms(1-5) True this] True show ?thesis by (auto simp: Client_Get_def)
next
  case False
  with run have g: "get received key obj s = (r, s')" "es' = es" by (auto simp: Get_mem_def split: prod.splits)
  have "deref s' a = deref s a" if "a \<in> cached_cells lib s es" for a
    using that assms(2,4,5) g(1) cached_cells_bounded [OF assms(1) that] unfolding get_ok_def by blast
  note same = cache_frame [OF assms(1,3) this]
  with False g(2) show ?thesis by (auto simp: Client_Get_def)
qed

interpretation mem_runs: step_invariant "mem_step lib get"
  "\<lambda>(now, s, es). kube_library_ok lib \<and> get_ok lib get api \<longrightarrow>
     readable lib s es \<and> client_run api now (map (abs_entry lib s) es)" for lib get api
proof
  fix x y
  assume inv: "case x of (now, s, es) \<Rightarrow> kube_library_ok lib \<and> get_ok lib get api \<longrightarrow>
     readable lib s es \<and> client_run api now (map (abs_entry lib s) es)" and step: "mem_step lib get x y"
  obtain now s es where x: "x = (now, s, es)" by (cases x)
  show "case y of (now, s, es) \<Rightarrow> kube_library_ok lib \<and> get_ok lib get api \<longrightarrow>
     readable lib s es \<and> client_run api now (map (abs_entry lib s) es)"
  proof (cases y; clarsimp)
    fix now' s' es' assume y: "y = (now', s', es')" and ok: "kube_library_ok lib" "get_ok lib get api"
    with inv x have es: "readable lib s es" and run: "client_run api now (map (abs_entry lib s) es)" by auto
    from step [unfolded x] y show "readable lib s' es' \<and> client_run api now' (map (abs_entry lib s') es')"
    proof (elim mem_stepE, goal_cases)
      case (1 later)
      with es run_step [OF run client_wait] show ?case by simp
    next
      case (2 t)
      note same = cache_frame [OF ok(1) es 2(3)]
      from 2 have "now' = now" "s' = t" "es' = es" by simp_all
      with same(2) run show ?case by (simp only: same(1) simp_thms)
    next
      case (3 received obj key r t et)
      from Get_mem_abs [OF ok es 3(4,5,6)] have g: "readable lib t et"
        "map (abs_entry lib t) et = snd (Client_Get now received (api received) key (map (abs_entry lib s) es))"
        by (metis snd_conv)+
      with 3 run_step [OF run client_get [OF 3(3)]] show ?case by simp
    next
      case (4 obj v A)
      then have "now' = now" "s' = s" "es' = forget_mem lib s (object_key v) es" by auto
      with forget_abs [OF es, of v] run_step [OF run client_forget [of api now _ v]] show ?case by simp
    qed
  qed
qed

lemma mem_run_abs:
  assumes "mem_run lib get now s es" "kube_library_ok lib" "get_ok lib get api"
  shows "readable lib s es" "client_run api now (map (abs_entry lib s) es)"
proof -
  from assms(1) obtain start s0 where run: "(mem_step lib get)\<^sup>*\<^sup>* (start, s0, []) (now, s, es)"
    unfolding mem_run_def by blast
  from mem_runs.run_inv [OF run, of api] assms(2,3) run_new [of api start]
  show "readable lib s es" "client_run api now (map (abs_entry lib s) es)"
    by (simp_all add: readable_def NewExtendedClient_def)
qed

text \<open>
  C15. The cache over memory does what the cache of values does. In a run in which callers leave the
  cells of cached objects alone, the entries always read as the entries a run of the client on
  values has, and a read leaves in the caller's object what the same read on values gives. The
  caller's struct stays its own, and after a miss so does everything it reaches.
\<close>

theorem Get_mem_refines:
  assumes "kube_library_ok lib" "get_ok lib get api" "mem_run lib get now s es"
    and "obj < length s" "obj \<notin> cached_cells lib s es"
    and "Get_mem lib now received (get received) key obj s es = (r, s', es')"
  shows "client_run api now (map (abs_entry lib s) es)
    \<and> (\<exists>r'. Client_Get now received (api received) key (map (abs_entry lib s) es) = (r', map (abs_entry lib s') es')
         \<and> (isObjectCached (fst key) \<longrightarrow> delivers lib r obj s' r'
              \<and> caller_owns lib (mem_lookup lib now key s 0 es) r obj s' es'))"
  using mem_run_abs [OF assms(3,1,2)] Get_mem_abs [OF assms(1,2) _ assms(4,5,6)] by blast

section \<open>What a caller shares with the cache\<close>

text \<open>
  After a miss nothing: the cells of the caller's object and those of the new entry are different,
  so the caller may change its object.
\<close>

lemma miss_shares_nothing:
  assumes "kube_library_ok lib" "object_at lib s obj = Some (v, A)" "DeepCopyObject lib obj s = (a, s')"
  shows "\<exists>B. object_at lib s' a = Some (v, B) \<and> object_at lib s' obj = Some (v, A) \<and> set A \<inter> set B = {}"
  using deep_copy.copy_independent [OF object_deep_copy [OF assms(1)] assms(2,3)] by blast

text \<open>
  After a hit everything but the struct itself: the caller's object reaches the cells of the cached
  one.
\<close>

theorem hit_shares_cells:
  assumes "kube_library_ok lib" "mem_lookup lib now key s 0 es = Fresh_Mem a" "isObjectCached (fst key)"
    and "object_at lib s a = Some (v, A)" "obj < length s" "obj \<notin> set A"
  shows "\<exists>s' B. A = a # B \<and> Get_mem lib now received get key obj s es = (Ret (), s', es)
     \<and> object_at lib s' obj = Some (v, obj # B) \<and> object_at lib s' a = Some (v, a # B)"
proof -
  from object_assign [OF assms(1,4,5,6)] obtain B
    where B: "A = a # B" "object_at lib (s[obj := s ! a]) obj = Some (v, obj # B)" by blast
  have "object_at lib (s[obj := s ! a]) a = Some (v, A)"
    using memory_view.view_update [OF deep_copy.axioms(1) [OF object_deep_copy [OF assms(1)]] assms(4,6)] .
  with B assms(2,3) show ?thesis by (auto simp: Get_mem_def getCachedObject_mem_def)
qed

section \<open>Examples\<close>

text \<open>
  The library of texts with secrets, and an API that holds one Archive, whose data section points to
  a number of jobs.
\<close>

definition text_kube :: "text_value kube_library" where
  "text_kube = \<lparr>kl_library = text_library, Secret_DeepCopyInto = text_copy,
     Secret_view = text_view (\<lambda>n v. \<lparr>secret_Namespace = ''ns'', secret_Name = n, secret_Data = [(''key'', v)]\<rparr>)\<rparr>"

lemma text_kube_ok: "kube_library_ok text_kube"
  by (simp add: kube_library_ok_def text_kube_def text_library_ok text_deep_copy)

definition archive_key :: object_key where
  "archive_key = (Archive_Kind, ''ns'', ''store'')"

definition served_archive :: "addr \<Rightarrow> text_value Archive_mem" where
  "served_archive data =
     \<lparr>archm_TypeMeta = \<lparr>tm_Kind = ''Archive'', tm_APIVersion = ''v1''\<rparr>, archm_ObjectMeta = (''store'', None),
      archm_Spec =
        \<lparr>specm_Configuration =
           \<lparr>cfgm_Repositories = None, cfgm_Wal = None, cfgm_Data = Some data, cfgm_Restore = None,
            cfgm_Compression = '''', cfgm_Stanza = ''main'', cfgm_Log = None, cfgm_CreateStanza = ''''\<rparr>,
         specm_InstanceSidecarConfiguration =
           \<lparr>sidem_Env = None, sidem_Resources = ('''', None), sidem_SecurityContext = None\<rparr>\<rparr>,
      archm_Status = ()\<rparr>"

definition served_object :: "object_data object" where
  "served_object =
     \<lparr>ob_Kind = Archive_Kind, ob_Namespace = ''ns'', ob_Name = ''store'',
      ob_Data = Archive_Data \<lparr>tm_Kind = ''Archive'', tm_APIVersion = ''v1''\<rparr> ''''
        \<lparr>spec_Configuration =
           \<lparr>cfg_Repositories = [], cfg_Wal = None,
            cfg_Data = Some \<lparr>data_Jobs = Some 4, data_ImmediateCheckpoint = True, data_Annotations = [],
              data_AdditionalCommandArgs = []\<rparr>,
            cfg_Restore = None, cfg_Compression = '''', cfg_Stanza = ''main'', cfg_Log = None, cfg_CreateStanza = ''''\<rparr>,
         spec_InstanceSidecarConfiguration =
           \<lparr>side_Env = [], side_Resources = '''', side_SecurityContext = None\<rparr>\<rparr>\<rparr>"

definition served :: "int \<Rightarrow> object_key \<Rightarrow> object_data object go" where
  "served t key = (if key = archive_key then Ret served_object else Fail (ErrApi NotFound))"

definition get_served ::
  "int \<Rightarrow> object_key \<Rightarrow> addr \<Rightarrow> text_value cell memory \<Rightarrow> unit go \<times> text_value cell memory" where
  "get_served t key obj s =
     (if key = archive_key
      then (Ret (), s[obj := Archive_Cell (served_archive (length s + 1))]
         @ [Int32_Cell 4, Data_Cell \<lparr>datam_Jobs = Some (length s), datam_ImmediateCheckpoint = True,
              datam_Annotations = None, datam_AdditionalCommandArgs = None\<rparr>])
      else (Fail (ErrApi NotFound), s))"

lemma get_served_ok: "get_ok text_kube get_served served"
proof -
  have read: "\<exists>v B. object_at text_kube s' obj = Some (v, B) \<and> served_object = v
      \<and> set B \<subseteq> insert obj {length s..<length s'}"
    if "obj < length s" "get_served t archive_key obj s = (r, s')" for obj s t r s'
  proof -
    let ?c = "Data_Cell \<lparr>datam_Jobs = Some (length s), datam_ImmediateCheckpoint = True,
              datam_Annotations = None, datam_AdditionalCommandArgs = None\<rparr>"
    from that have s': "s' = s[obj := Archive_Cell (served_archive (length s + 1))] @ [Int32_Cell 4, ?c]"
      by (simp add: get_served_def)
    then have cells: "deref s' obj = Some (Archive_Cell (served_archive (Suc (length s))))"
      "deref s' (length s) = Some (Int32_Cell 4)" "deref s' (Suc (length s)) = Some ?c"
      using that(1) by (simp_all add: deref_def nth_append)
    have nil: "ptr_view get view s' None = Some (None, [])" "slice_view get' view' s' None = Some (None, [])"
      for get get' view view'
      by (simp_all add: ptr_view_def slice_view_def)
    have jobs: "ptr_view get_Int32 flat_view s' (Some (length s)) = Some (Some 4, [length s])"
      by (simp add: ptr_view_def flat_view_def cells get_Int32_def)
    have data: "ptr_view get_Data DataBackupConfiguration_view s' (Some (Suc (length s))) =
        Some (Some \<lparr>data_Jobs = Some 4, data_ImmediateCheckpoint = True, data_Annotations = [],
          data_AdditionalCommandArgs = []\<rparr>, [Suc (length s), length s])"
      by (simp add: ptr_view_def [of get_Data] cells(3) get_Data_def DataBackupConfiguration_view_def pair_view_def
          jobs nil nil_list_def)
    have texts: "text_view f s' (n, None) = Some (f n '''', [])" for f n
      by (simp add: text_view_def nil)
    have cfg: "PgbackrestConfiguration_view s' (specm_Configuration (archm_Spec (served_archive (Suc (length s))))) =
        Some (\<lparr>cfg_Repositories = [], cfg_Wal = None,
            cfg_Data = Some \<lparr>data_Jobs = Some 4, data_ImmediateCheckpoint = True, data_Annotations = [],
              data_AdditionalCommandArgs = []\<rparr>,
            cfg_Restore = None, cfg_Compression = '''', cfg_Stanza = ''main'', cfg_Log = None, cfg_CreateStanza = ''''\<rparr>,
          [Suc (length s), length s])"
      by (simp add: served_archive_def PgbackrestConfiguration_view_def pair_view_def nil data nil_list_def)
    have side: "InstanceSidecarConfiguration_view text_library s'
          (specm_InstanceSidecarConfiguration (archm_Spec (served_archive (Suc (length s))))) =
        Some (\<lparr>side_Env = [], side_Resources = '''', side_SecurityContext = None\<rparr>, [])"
      by (simp add: served_archive_def InstanceSidecarConfiguration_view_def pair_view_def nil nil_list_def
          text_library_def texts)
    have meta: "ObjectMeta_view text_library s' (archm_ObjectMeta (served_archive (Suc (length s)))) =
        Some (\<lparr>om_Namespace = ''ns'', om_Name = ''store'', om_Rest = ''''\<rparr>, [])"
      by (simp add: served_archive_def text_library_def texts)
    let ?w = "\<lparr>ao_TypeMeta = \<lparr>tm_Kind = ''Archive'', tm_APIVersion = ''v1''\<rparr>,
        ao_ObjectMeta = \<lparr>om_Namespace = ''ns'', om_Name = ''store'', om_Rest = ''''\<rparr>,
        ao_Spec = \<lparr>spec_Configuration =
           \<lparr>cfg_Repositories = [], cfg_Wal = None,
            cfg_Data = Some \<lparr>data_Jobs = Some 4, data_ImmediateCheckpoint = True, data_Annotations = [],
              data_AdditionalCommandArgs = []\<rparr>,
            cfg_Restore = None, cfg_Compression = '''', cfg_Stanza = ''main'', cfg_Log = None, cfg_CreateStanza = ''''\<rparr>,
         spec_InstanceSidecarConfiguration =
           \<lparr>side_Env = [], side_Resources = '''', side_SecurityContext = None\<rparr>\<rparr>\<rparr>"
    have "ArchiveSpec_view text_library s' (archm_Spec (served_archive (Suc (length s)))) =
        Some (ao_Spec ?w, [Suc (length s), length s])"
      by (simp add: ArchiveSpec_view_def pair_view_def cfg side)
    then have "Archive_view text_library s' (served_archive (Suc (length s))) = Some (?w, [Suc (length s), length s])"
      by (simp add: Archive_view_def pair_view_def meta) (simp add: served_archive_def)
    moreover have "archive_value_object ?w = served_object" by (simp add: archive_value_object_def served_object_def)
    moreover have "kl_library text_kube = text_library" by (simp add: text_kube_def)
    ultimately have "object_at text_kube s' obj = Some (served_object, obj # [Suc (length s), length s])"
      using object_at_archive [OF cells(1), of text_kube] by metis
    then show ?thesis by (simp add: s')
  qed
  have frame: "deref s' a = deref s a" if "a < length s" "a \<noteq> obj" "get_served t key obj s = (r, s')" for a obj s t key r s'
    using that by (auto simp: get_served_def deref_def nth_append split: if_splits)
  have grows: "length s \<le> length s'" if "get_served t key obj s = (r, s')" for obj s t key r s'
    using that by (auto simp: get_served_def split: if_splits)
  have answer: "case r of Ret u \<Rightarrow> (\<exists>v B. object_at text_kube s' obj = Some (v, B) \<and> served t key = Ret v
           \<and> set B \<subseteq> insert obj {length s..<length s'})
         | Fail e \<Rightarrow> served t key = Fail e | Panic m \<Rightarrow> served t key = Panic m"
    if "obj < length s" "get_served t key obj s = (r, s')" for obj s t key r s'
  proof (cases "key = archive_key")
    case True
    with read [of obj s t r s'] that have "\<exists>v B. object_at text_kube s' obj = Some (v, B) \<and> served t key = Ret v
        \<and> set B \<subseteq> insert obj {length s..<length s'}"
      by (auto simp: served_def)
    moreover from True that(2) have "r = Ret ()" by (simp add: get_served_def)
    ultimately show ?thesis by simp
  next
    case False
    with that(2) have "r = Fail (ErrApi NotFound)" by (simp add: get_served_def)
    with False show ?thesis by (simp add: served_def)
  qed
  show ?thesis unfolding get_ok_def using frame grows answer by blast
qed

text \<open>Two callers with a struct each, the first of which has read the object.\<close>

definition two_structs :: "text_value cell memory" where
  "two_structs = [Zeroed, Zeroed]"

definition first_read :: "text_value cell memory \<times> mem_entry list" where
  "first_read = snd (Get_mem text_kube Second Second (get_served Second) archive_key 0 two_structs [])"

lemma first_read_run: "mem_run text_kube get_served Second (fst first_read) (snd first_read)"
proof -
  obtain r s es where g: "Get_mem text_kube Second Second (get_served Second) archive_key 0 two_structs [] = (r, s, es)"
    by (metis prod_cases3)
  have "mem_step text_kube get_served (Second, two_structs, []) (Second, s, es)"
    by (rule mem_get [where obj = 0 and key = archive_key and r = r])
      (simp_all add: two_structs_def cached_cells_def g [unfolded two_structs_def])
  from mem_run_step [OF mem_run_new this] g show ?thesis by (simp add: first_read_def)
qed

text \<open>
  The second caller's read is a hit. It then lowers the jobs of its own object, and the next read of
  the first caller, with no answer of the API in between, has the lowered number too.
\<close>

definition jobs_of :: "object_data object \<Rightarrow> 32 word option" where
  "jobs_of v = (case ob_Data v of Archive_Data t m spec \<Rightarrow>
     Option.bind (cfg_Data (spec_Configuration spec)) data_Jobs | _ \<Rightarrow> None)"

definition read_jobs :: "text_value cell memory \<Rightarrow> addr \<Rightarrow> 32 word option" where
  "read_jobs s a = Option.bind (object_at text_kube s a) (\<lambda>(v, A). jobs_of v)"

lemma write_after_hit_reaches_cache:
  "let (s, es) = first_read;
       (r, s, es) = Get_mem text_kube (2 * Second) (2 * Second) (get_served (2 * Second)) archive_key 1 s es;
       jobs = (case object_at text_kube s 1 of Some (v, A) \<Rightarrow> A ! 2 | None \<Rightarrow> 0);
       s = s[jobs := Int32_Cell 1];
       (r, s, es) = Get_mem text_kube (3 * Second) (3 * Second) (get_served (3 * Second)) archive_key 0 s es
   in read_jobs s 0 = Some 1 \<and> map_option jobs_of (case served (3 * Second) archive_key of Ret v \<Rightarrow> Some v | _ \<Rightarrow> None)
        = Some (Some 4)"
  by code_simp

lemma cached_cells_list:
  "cached_cells lib s es =
     set (concat (map (\<lambda>e. case object_at lib s (me_entry e) of Some (v, A) \<Rightarrow> A | None \<Rightarrow> []) es))"
proof -
  have cells: "set (case object_at lib s (me_entry e) of Some (v, A) \<Rightarrow> A | None \<Rightarrow> [])
      = {a. \<exists>v A. object_at lib s (me_entry e) = Some (v, A) \<and> a \<in> set A}" for e
    by (cases "object_at lib s (me_entry e)") auto
  show ?thesis unfolding cached_cells_def set_concat set_map image_image cells by blast
qed

theorem Get_mem_refines_witness:
  "\<exists>s' es' A. Get_mem text_kube (2 * Second) (2 * Second) (get_served (2 * Second)) archive_key 1
       (fst first_read) (snd first_read) = (Ret (), s', es')
     \<and> object_at text_kube s' 1 = Some (served_object, A)"
proof -
  let ?s = "fst first_read" and ?es = "snd first_read"
  obtain r s' es' where g: "Get_mem text_kube (2 * Second) (2 * Second) (get_served (2 * Second)) archive_key 1 ?s ?es = (r, s', es')"
    by (metis prod_cases3)
  have run: "mem_run text_kube get_served (2 * Second) ?s ?es"
    by (rule mem_run_step [OF first_read_run mem_wait]) (simp add: Second_def)
  have own: "1 \<notin> cached_cells text_kube ?s ?es" unfolding cached_cells_list by code_simp
  have len: "1 < length ?s" by code_simp
  from Get_mem_refines [OF text_kube_ok get_served_ok run len own g] obtain r' where
    r': "Client_Get (2 * Second) (2 * Second) (served (2 * Second)) archive_key (map (abs_entry text_kube ?s) ?es)
        = (r', map (abs_entry text_kube s') es')" "delivers text_kube r 1 s' r'"
    by (auto simp: isObjectCached_def archive_key_def)
  have "fst (Client_Get (2 * Second) (2 * Second) (served (2 * Second)) archive_key (map (abs_entry text_kube ?s) ?es))
      = Ret served_object" by code_simp
  with r' have "delivers text_kube r 1 s' (Ret served_object)" by simp
  then have "r = Ret ()" "\<exists>A. object_at text_kube s' 1 = Some (served_object, A)"
    by (cases r; auto simp: delivers_def)+
  with g show ?thesis by blast
qed

theorem hit_shares_cells_witness:
  "\<exists>s' B. Get_mem text_kube (2 * Second) (2 * Second) (get_served (2 * Second)) archive_key 1
       (fst first_read) (snd first_read) = (Ret (), s', snd first_read)
     \<and> object_at text_kube s' 1 = Some (served_object, 1 # B)
     \<and> object_at text_kube s' 4 = Some (served_object, 4 # B) \<and> length B = 2"
proof -
  let ?s = "fst first_read" and ?es = "snd first_read"
  have hit: "mem_lookup text_kube (2 * Second) archive_key ?s 0 ?es = Fresh_Mem 4" by code_simp
  have read: "object_at text_kube ?s 4 = Some (served_object, [4, 5, 6])" by code_simp
  have "1 < length ?s" by code_simp
  from hit_shares_cells [OF text_kube_ok hit _ read this, where get = "get_served (2 * Second)" and received = "2 * Second"]
  obtain s' B where B: "[4, 5, 6] = 4 # B" "Get_mem text_kube (2 * Second) (2 * Second) (get_served (2 * Second)) archive_key 1 ?s ?es = (Ret (), s', ?es)"
    "object_at text_kube s' 1 = Some (served_object, 1 # B)" "object_at text_kube s' 4 = Some (served_object, 4 # B)"
    by (auto simp: isObjectCached_def archive_key_def)
  from B(1) have "length B = 2" by auto
  with B(2-4) show ?thesis by blast
qed

end
