(* ===== verification/Archive_Run.thy ===== *)
theory Archive_Run
  imports Wal_Service
begin

text \<open>
  Archiving over time: a sequence of archive requests, with anything happening to the rest of the
  file system in between, keeps the spool honest, so that every acknowledged segment is in the
  archive. What pgBackRest does for it is stated over a view of its remote side.
\<close>

section \<open>The contract of pgBackRest\<close>

text \<open>
  \<open>archived r n\<close>: the remote side holds the segment \<open>n\<close>. As documented, a push that ends
  with success has put the segment there, and pushing, listing and creating a stanza remove none.
\<close>

definition archiving_command :: "string list \<Rightarrow> bool" where
  "archiving_command argv \<longleftrightarrow> hd argv \<in> {''info'', ''stanza-create''} \<or> (\<exists>os n. argv = push_options os n)"

definition archive_ok :: "'r executable \<Rightarrow> ('r \<Rightarrow> string \<Rightarrow> bool) \<Rightarrow> bool" where
  "archive_ok exec archived \<longleftrightarrow>
     (\<forall>os n env fs r out fs' r'. exec (push_options os n) env fs r = (ProcOk out, fs', r') \<longrightarrow> archived r' (path_base n))
     \<and> (\<forall>argv env fs r pr fs' r' m. archiving_command argv \<and> exec argv env fs r = (pr, fs', r') \<and> archived r m
          \<longrightarrow> archived r' m)"

text \<open>The spool directory is apart from the flag file and the certificates.\<close>

definition spool_apart :: "WALServiceImplementation \<Rightarrow> bool" where
  "spool_apart svc \<longleftrightarrow> (let spool = \<lparr>spoolDirectory = svc_SpoolDirectory svc\<rparr> in
     outside_spool spool (path_join [svc_PGDataPath svc, CheckEmptyWalArchiveFile])
     \<and> (\<forall>p \<in> set (path_prefixes CertificatesDir). outside_spool spool p)
     \<and> (\<forall>i. outside_spool spool (PgBackRestBackupEndpointCACertificateLocation i)))"

section \<open>What leaves the spool as it is\<close>

lemma same_spool_refl [simp]: "same_spool spool fs fs"
  by (simp add: same_spool_def)

lemma same_spool_trans: "same_spool spool a b \<Longrightarrow> same_spool spool b c \<Longrightarrow> same_spool spool a c"
  by (simp add: same_spool_def)

lemma same_but_spool: "same_but A fs fs' \<Longrightarrow> (\<And>p. path_clean p \<in> A \<Longrightarrow> outside_spool spool p) \<Longrightarrow> same_spool spool fs fs'"
  by (auto simp: same_but_def same_spool_def outside_spool_def)

lemma outside_spool_cong: "path_clean p = path_clean q \<Longrightarrow> outside_spool spool p = outside_spool spool q"
  by (simp add: outside_spool_def)

lemma same_spool_credentials:
  assumes "spool_apart svc"
  shows "same_spool \<lparr>spoolDirectory = svc_SpoolDirectory svc\<rparr> fs (snd (EnvSetBackupCloudCredentials h ns cfg env fs))"
proof (rule same_but_spool [OF same_but_credentials(1)])
  fix p assume "path_clean p \<in> certificate_paths PgBackRestBackupEndpointCACertificateLocation"
  then obtain q where "path_clean p = path_clean q"
    "q \<in> set (path_prefixes CertificatesDir) \<union> range PgBackRestBackupEndpointCACertificateLocation"
    by (auto simp: certificate_paths_def)
  then show "outside_spool \<lparr>spoolDirectory = svc_SpoolDirectory svc\<rparr> p"
    using assms outside_spool_cong [of p q] by (auto simp: spool_apart_def Let_def)
qed

lemma leaves_spool_run:
  assumes "leaves_spool (h_pgbackrest h) spool"
  shows "same_spool spool (w_fs w) (w_fs (snd (run_pgbackrest h argv env w)))"
proof -
  obtain pr f s where e: "h_pgbackrest h argv env (w_fs w) (w_remote w) = (pr, f, s)" by (metis prod.collapse)
  with assms have "same_spool spool (w_fs w) f"
    unfolding leaves_spool_def same_spool_def Let_def by (metis fst_conv snd_conv)
  with e show ?thesis by (simp add: run_pgbackrest_def)
qed

section \<open>The invariant and its steps\<close>

text \<open>Of what the spool holds, and of a set \<open>K\<close> of further segments, nothing is missing in the archive.\<close>

definition spool_honest ::
  "fileutils \<Rightarrow> WALSpool \<Rightarrow> ('r \<Rightarrow> string \<Rightarrow> bool) \<Rightarrow> string set \<Rightarrow> 'r world \<Rightarrow> bool" where
  "spool_honest fu spool archived K w \<longleftrightarrow>
     spool_ready fu spool (w_fs w) \<and> (\<forall>m \<in> spool_elems spool (w_fs w) \<union> K. archived (w_remote w) m)"

text \<open>One world comes after another when the spool is as it was and nothing left the archive.\<close>

definition goes_on :: "WALSpool \<Rightarrow> ('r \<Rightarrow> string \<Rightarrow> bool) \<Rightarrow> 'r world \<Rightarrow> 'r world \<Rightarrow> bool" where
  "goes_on spool archived w w' \<longleftrightarrow>
     same_spool spool (w_fs w) (w_fs w') \<and> (\<forall>m. archived (w_remote w) m \<longrightarrow> archived (w_remote w') m)"

lemma goes_on_refl [simp]: "goes_on spool archived w w"
  by (simp add: goes_on_def)

lemma goes_on_trans: "goes_on spool archived a b \<Longrightarrow> goes_on spool archived b c \<Longrightarrow> goes_on spool archived a c"
  by (auto simp: goes_on_def intro: same_spool_trans)

lemma goes_on_honest:
  "goes_on spool archived w w' \<Longrightarrow> spool_honest fu spool archived K w \<Longrightarrow> spool_honest fu spool archived K w'"
  using same_spool_ready same_spool_elems by (fastforce simp: goes_on_def spool_honest_def)

lemma goes_on_run:
  assumes "leaves_spool (h_pgbackrest h) spool" "archive_ok (h_pgbackrest h) archived" "archiving_command argv"
  shows "goes_on spool archived w (snd (run_pgbackrest h argv env w))"
proof -
  obtain pr f s where e: "h_pgbackrest h argv env (w_fs w) (w_remote w) = (pr, f, s)" by (metis prod.collapse)
  have "archived (w_remote w) m \<longrightarrow> archived s m" for m
    using assms(2,3) e unfolding archive_ok_def by blast
  with leaves_spool_run [OF assms(1), of w argv env] e show ?thesis by (simp add: goes_on_def run_pgbackrest_def)
qed

lemma goes_on_push:
  assumes "leaves_spool (h_pgbackrest h) spool" "archive_ok (h_pgbackrest h) archived"
  shows "goes_on spool archived w (snd (push_step h a n os w))"
    and "fst (push_step h a n os w) = Ret u \<Longrightarrow> archived (w_remote (snd (push_step h a n os w))) (path_base n)"
proof -
  have c: "archiving_command (push_options os n)" by (auto simp: archiving_command_def)
  show "goes_on spool archived w (snd (push_step h a n os w))"
    using goes_on_run [OF assms c] by (simp add: push_step_def snd_wrapW)
  obtain pr f s where e: "h_pgbackrest h (push_options os n) (pa_Env a) (w_fs w) (w_remote w) = (pr, f, s)"
    by (metis prod.collapse)
  assume "fst (push_step h a n os w) = Ret u"
  with e obtain out where "pr = ProcOk out"
    and "w_remote (snd (push_step h a n os w)) = s"
    by (cases pr) (auto simp: push_step_def run_streaming_def run_pgbackrest_def wrapW_def split: if_splits)
  with assms(2) e show "archived (w_remote (snd (push_step h a n os w))) (path_base n)"
    unfolding archive_ok_def by blast
qed

text \<open>The goroutines of a batch: what each has done so far, and an honest spool.\<close>

definition batch_honest ::
  "fileutils \<Rightarrow> WALSpool \<Rightarrow> ('r \<Rightarrow> string \<Rightarrow> bool) \<Rightarrow> string set \<Rightarrow> string list \<Rightarrow> worker list \<times> 'r world \<Rightarrow> bool" where
  "batch_honest fu spool archived K ns = (\<lambda>(ws, w). spool_honest fu spool archived K w
     \<and> (\<forall>i < length ws. ws ! i \<in> {Pushed, Cleaned, Done None} \<longrightarrow> archived (w_remote w) (path_base (ns ! i))))"

lemma batch_honest_update:
  assumes "batch_honest fu spool archived K ns (ws, w)" "goes_on spool archived w w'"
    and "x \<in> {Pushed, Cleaned, Done None} \<Longrightarrow> archived (w_remote w') (path_base (ns ! i))"
  shows "batch_honest fu spool archived K ns (ws[i := x], w')"
proof -
  have "archived (w_remote w') (path_base (ns ! j))"
    if "j < length ws" "ws[i := x] ! j \<in> {Pushed, Cleaned, Done None}" for j
  proof (cases "j = i")
    case False
    then have "archived (w_remote w) (path_base (ns ! j))" using that assms(1) by (auto simp: batch_honest_def)
    then show ?thesis using assms(2) by (simp add: goes_on_def)
  qed (use that assms(3) in simp)
  then show ?thesis using assms(1) goes_on_honest [OF assms(2)] by (simp add: batch_honest_def)
qed

lemma batch_honest_step:
  assumes inv: "batch_honest (h_fileutils h) spool archived K ns (ws, w)"
    and safe: "leaves_spool (h_pgbackrest h) spool" "outside_spool spool (pa_EmptyWalArchivePath a)"
      "archive_ok (h_pgbackrest h) archived"
    and touch: "pa_Touch a = Touch spool" and names: "\<forall>n \<in> set ns. spool_name n" and len: "length ws = length ns"
  shows "batch_honest (h_fileutils h) spool archived K ns (worker_step h a ns os i (ws, w))"
proof (cases "i < length ws \<and> \<not> finished (ws ! i)")
  case False
  then show ?thesis using inv by (cases "ws ! i") (auto simp: worker_step_def)
next
  case True
  then have i: "i < length ws" by simp
  have r: "spool_ready (h_fileutils h) spool (w_fs w)" using inv by (simp add: batch_honest_def spool_honest_def)
  then have rm: "remove_file_ok (h_fileutils h)" by (simp add: spool_ready_def fileutils_ok_def)
  note update = batch_honest_update [OF inv]
  show ?thesis
  proof (cases "ws ! i")
    case Todo
    obtain q w' where q: "push_step h a (ns ! i) os w = (q, w')" by fastforce
    have "batch_honest (h_fileutils h) spool archived K ns (ws[i := next_worker q Pushed], w')"
      using goes_on_push [OF safe(1,3), where w = w and a = a and n = "ns ! i" and os = os] q next_worker_eq [of q Pushed]
      by (intro update) auto
    then show ?thesis using q i Todo by (simp add: worker_step_def)
  next
    case Pushed
    obtain q w' where q: "cleanup_step h a w = (q, w')" by fastforce
    then have "w_remote w' = w_remote w" by (auto simp: cleanup_step_def wrapW_def)
    moreover have "archived (w_remote w) (path_base (ns ! i))" using inv i Pushed by (auto simp: batch_honest_def)
    ultimately have "batch_honest (h_fileutils h) spool archived K ns
        (ws[i := next_worker q (if i \<noteq> 0 then Cleaned else Done None)], w')"
      using cleanup_step_spool [OF rm safe(2) q] by (intro update) (auto simp: goes_on_def)
    then show ?thesis using q i Pushed by (simp add: worker_step_def)
  next
    case Cleaned
    then have ar: "archived (w_remote w) (path_base (ns ! i))" using inv i by (auto simp: batch_honest_def)
    have "spool_name (ns ! i)" using names i len by simp
    with dir_spool.touch_elems [OF r] obtain fs' where t: "Touch spool (ns ! i) (w_fs w) = (Ret (), fs')"
      "spool_ready (h_fileutils h) spool fs'"
      "spool_elems spool fs' = insert (path_base (ns ! i)) (spool_elems spool (w_fs w))" by blast
    have "archived (w_remote w) (path_base (ns ! j))"
      if "j < length ws" "ws[i := Done None] ! j \<in> {Pushed, Cleaned, Done None}" for j
      using that inv ar by (cases "j = i") (auto simp: batch_honest_def)
    then have "batch_honest (h_fileutils h) spool archived K ns (ws[i := Done None], w\<lparr>w_fs := fs'\<rparr>)"
      using inv ar t(2,3) by (simp add: batch_honest_def spool_honest_def)
    then show ?thesis using t i Cleaned touch by (simp add: worker_step_def)
  qed (use True in auto)
qed

lemma batch_honest_run:
  assumes "batch_honest (h_fileutils h) spool archived K ns (ws, w)" "length ws = length ns"
    and "leaves_spool (h_pgbackrest h) spool" "outside_spool spool (pa_EmptyWalArchivePath a)"
      "archive_ok (h_pgbackrest h) archived" "pa_Touch a = Touch spool" "\<forall>n \<in> set ns. spool_name n"
  shows "batch_honest (h_fileutils h) spool archived K ns (run_schedule h a ns os sched (ws, w))"
  using assms(1,2)
proof (induction sched arbitrary: ws w)
  case (Cons i sched)
  obtain ws1 w1 where s: "worker_step h a ns os i (ws, w) = (ws1, w1)" by fastforce
  from batch_honest_step [OF Cons.prems(1) assms(3-7) Cons.prems(2), of os i] worker_step_length [of h a ns os i "(ws, w)"]
  show ?case using Cons s by simp
qed simp

text \<open>A batch leaves an honest spool, and when it reports no error all of it is in the archive.\<close>

lemma ArchiveList_honest:
  assumes "spool_honest (h_fileutils h) (wa_spool arch) archived K w" "archiver_ok h arch"
    and "archive_ok (h_pgbackrest h) archived" "\<forall>n \<in> set ns. spool_name n"
    and "ArchiveList h sched arch ns os w = (r, w')"
  shows "spool_honest (h_fileutils h) (wa_spool arch) archived K w'"
    and "r = Ret results \<Longrightarrow> \<forall>x \<in> set results. res_Err x = None \<Longrightarrow> \<forall>n \<in> set ns. archived (w_remote w') (path_base n)"
proof -
  let ?a = "wa_pgbackrestArchiver arch" and ?n = "length ns"
  obtain ws w1 where run: "run_schedule h ?a ns os (sched @ wait_for_all ?n) (replicate ?n Todo, w) = (ws, w1)" by fastforce
  have w1: "w1 = w'" using assms(5) run by (auto simp: ArchiveList_def Archive_list_def split: option.splits)
  have "batch_honest (h_fileutils h) (wa_spool arch) archived K ns (replicate ?n Todo, w)"
    using assms(1) by (simp add: batch_honest_def)
  from batch_honest_run [OF this _ _ _ assms(3) _ assms(4), of ?a os "sched @ wait_for_all ?n"] assms(2)
  have b: "batch_honest (h_fileutils h) (wa_spool arch) archived K ns (ws, w')"
    using run w1 by (simp add: archiver_ok_def)
  then show "spool_honest (h_fileutils h) (wa_spool arch) archived K w'" by (simp add: batch_honest_def)
  assume r: "r = Ret results" "\<forall>x \<in> set results. res_Err x = None"
  have len: "length ws = ?n"
    using run run_schedule_length [of h ?a ns os "sched @ wait_for_all ?n" "(replicate ?n Todo, w)"] by simp
  have res: "results = map (\<lambda>(n, s). \<lparr>res_WalName = n, res_Err = worker_error s\<rparr>) (zip ns ws)" "crash_of ws = None"
    using assms(5) r(1) run by (auto simp: ArchiveList_def Archive_list_def split: option.splits)
  have "ws ! i = Done None" if "i < ?n" for i
  proof -
    have "finished (ws ! i)" using all_finish [OF that, of h ?a os sched w] run by simp
    moreover have "\<forall>m. ws ! i \<noteq> Crashed m" using res(2) that len by (auto simp: crash_of_None_iff)
    ultimately obtain e where e: "ws ! i = Done e" by (cases "ws ! i") auto
    have "i < length results" using that len res(1) by simp
    then have "res_Err (results ! i) = None" using r(2) nth_mem by blast
    with e that len res(1) show ?thesis by simp
  qed
  with b len show "\<forall>n \<in> set ns. archived (w_remote w') (path_base n)"
    by (auto simp: batch_honest_def in_set_conv_nth)
qed

section \<open>The names in a batch\<close>

lemma walk_invariant:
  fixes P :: "'s \<Rightarrow> bool"
  assumes "\<And>p d e s. P s \<Longrightarrow> P (snd (fn p d e s))"
  shows "P s \<Longrightarrow> P (snd (walkDir n fs fn q isDir s))" "P s \<Longrightarrow> P (snd (walkEntries n fs fn q names s))"
  using assms
proof (induction n fs fn q isDir s and n fs fn q names s rule: walkDir_walkEntries.induct)
  case (2 n fs fn p isDir s)
  obtain r s1 where f1: "fn p isDir False s = (r, s1)" by fastforce
  obtain r2 s2 where f2: "fn p isDir True s1 = (r2, s2)" by fastforce
  have k: "P s1" "P s2"
    using "2.prems"(2) [OF "2.prems"(1), of p isDir False] "2.prems"(2) [of s1 p isDir True] f1 f2 by auto
  show ?case
  proof (cases "r \<noteq> WalkNil \<or> \<not> isDir")
    case False
    have "P (snd (walkEntries n fs fn p names s1))" if "os_ReadDir p fs = Ret names" for names
      using "2.IH" [OF f1 [symmetric] refl False that k(1) "2.prems"(2)] by simp
    then show ?thesis using f1 f2 False k by (auto split: go.splits)
  qed (use f1 k in auto)
next
  case (4 n fs fn p name names s)
  let ?q = "path_join [p, name]"
  obtain r s1 where f: "walkDir n fs fn ?q (node_at fs ?q = Some Dir) s = (r, s1)" by fastforce
  then have k: "P s1" using "4.IH"(1) [OF refl "4.prems"] by simp
  show ?case using "4.IH"(2) [OF refl f [symmetric] refl _ _ k "4.prems"(2)] f k by (simp del: walkDir.simps)
qed auto

lemma base_of_ready:
  assumes "HasSuffix p ''.ready''"
  shows "slash \<notin> set (path_base p)"
proof -
  from assms obtain q where p: "p = q @ ''.ready''" by (auto simp: HasSuffix_iff suffix_def)
  then have "rev (dropWhile (\<lambda>c. c = slash) (rev p)) = p" by simp
  moreover have "slash \<notin> set (after_last_slash p)"
    by (auto simp: after_last_slash_def dest: set_takeWhileD)
  ultimately show ?thesis using p by (simp add: path_base_def Let_def)
qed

lemma TrimSuffix_set: "set (TrimSuffix s x) \<subseteq> set s"
  by (auto simp: TrimSuffix_def dest: in_set_takeD)

lemma join_no_slash:
  assumes "slash \<notin> set y" "spool_name (path_join [d, ''..''])" "plain_name n" "d = path_join [e, n]"
  shows "spool_name (path_join [d, y])"
proof -
  have base: "path_base d = n" using assms(3,4) by (simp add: path_base_join)
  have d: "d \<noteq> []" using assms(3,4) by (auto simp: path_join_plain plain_name_def)
  then have c: "path_clean d = d" using assms(4) by (auto simp: path_join_def Let_def split: if_splits)
  consider "plain_name y" | "y = ''..''" | "y = []" | "y = ''.''" using assms(1) by (auto simp: plain_name_def)
  then show ?thesis
  proof cases
    case 1
    then show ?thesis by (simp add: spool_name_def path_base_join)
  next
    case 4
    have "path_clean (d @ slash # ''.'') = path_clean d"
      using split_on_append_sep [of slash "''.''" d] d by (simp add: path_clean_def Let_def clean_step_def)
    then have "path_join [d, y] = d" using 4 d c by (simp add: path_join_def)
    then show ?thesis using base assms(3) by (simp add: spool_name_def)
  next
    case 3
    then have "path_join [d, y] = d" using d c by (simp add: path_join_def)
    then show ?thesis using base assms(3) by (simp add: spool_name_def)
  qed (use assms(2) in simp)
qed

lemma gather_spool_names:
  assumes "GatherWALFilesToArchive h src par fs = Ret batch" "spool_name src" "spool_name (path_join [wal_dir h, ''..''])"
  shows "\<forall>n \<in> set batch. spool_name n"
proof -
  let ?fn = "gather_fn (wal_dir h) (status_dir h) src par" and ?s = "[path_join [wal_dir h, path_base src]]"
  let ?P = "\<lambda>wl. \<forall>n \<in> set wl. spool_name n"
  have wd: "wal_dir h = path_join [getenv (h_environ h) ''PGDATA'', ''pg_wal'']" by (simp add: wal_dir_def)
  have fn: "?P (snd (?fn p d e wl))" if "?P wl" for p d e wl
  proof (cases "HasSuffix p ''.ready''")
    case True
    have "slash \<notin> set (TrimSuffix (path_base p) ''.ready'')" using base_of_ready [OF True] TrimSuffix_set by blast
    from join_no_slash [OF this assms(3) plain_constants(1) wd] that show ?thesis by (auto simp: gather_fn_def Let_def)
  qed (use that in \<open>simp add: gather_fn_def\<close>)
  have s: "?P ?s" using assms(2) by (simp add: spool_name_def path_base_join)
  have "batch = WalkDir fs ?fn (status_dir h) ?s"
    using assms(1) by (simp add: GatherWALFilesToArchive_def Let_def status_dir_def wal_dir_def split: if_splits)
  moreover have "?P (WalkDir fs ?fn (status_dir h) ?s)"
    unfolding WalkDir_def using fn [OF s] walk_invariant(1) [of ?P ?fn, OF fn s] by (simp del: walkDir.simps)
  ultimately show ?thesis by simp
qed

section \<open>Requests\<close>

lemma goes_on_bindW:
  assumes "goes_on spool archived w (snd x)" "\<And>a w'. x = (Ret a, w') \<Longrightarrow> goes_on spool archived w' (snd (f a w'))"
  shows "goes_on spool archived w (snd (bindW x f))"
  using assms by (cases x; cases "fst x") (auto intro: goes_on_trans)

lemma goes_on_GetBackupList:
  assumes "leaves_spool (h_pgbackrest h) spool" "archive_ok (h_pgbackrest h) archived"
  shows "goes_on spool archived w (snd (GetBackupList h cfg stanza env w))"
  unfolding GetBackupList_def executeQueryCommand_def info_options_flags
  by (intro goes_on_bindW) (auto intro!: goes_on_run assms simp: archiving_command_def)

lemma goes_on_CreateStanza:
  assumes "leaves_spool (h_pgbackrest h) spool" "archive_ok (h_pgbackrest h) archived"
  shows "goes_on spool archived w (snd (CreatePgbackrestStanza h b stanza env w))"
  unfolding CreatePgbackrestStanza_def stanza_create_flags
  by (intro goes_on_bindW) (auto intro!: goes_on_run assms simp: archiving_command_def snd_wrapW)

lemma goes_on_check_destination:
  assumes "leaves_spool (h_pgbackrest h) spool" "archive_ok (h_pgbackrest h) archived"
  shows "goes_on spool archived w (snd (check_destination h svc cfg stanza env w))"
proof -
  let ?c = "CheckWalArchiveDestination h cfg stanza env w"
  have c: "goes_on spool archived w (snd ?c)"
    unfolding CheckWalArchiveDestination_def by (intro goes_on_bindW goes_on_GetBackupList assms) simp
  obtain r w1 where rw: "?c = (r, w1)" by fastforce
  have s: "goes_on spool archived w1 (snd (CreatePgbackrestStanza h (NewBackupCommand cfg None (svc_PGDataPath svc)) stanza env w1))"
    by (rule goes_on_CreateStanza [OF assms])
  show ?thesis using c rw goes_on_trans [OF _ s, of w]
    by (cases r) (auto simp: check_destination_def split: prod.splits go.splits)
qed

lemma archive_batch_honest:
  assumes "spool_honest (h_fileutils h) (wa_spool arch) archived K w" "archiver_ok h arch"
    and "archive_ok (h_pgbackrest h) archived" "spool_name src" "spool_name (path_join [wal_dir h, ''..''])"
    and "archive_batch h sched arch cfg stanza src w = (r, w')"
  shows "spool_honest (h_fileutils h) (wa_spool arch) archived K w' \<and> (r = Ret () \<longrightarrow> archived (w_remote w') (path_base src))"
proof -
  let ?o = "PgbackrestWalArchiveOptions cfg stanza"
  show ?thesis
  proof (cases ?o)
    case (Ret options)
    show ?thesis
    proof (cases "GatherWALFilesToArchive h src (max_parallel cfg) (w_fs w)")
      case (Ret batch)
      obtain q w1 where q: "ArchiveList h sched arch batch options w = (q, w1)" by fastforce
      note honest = ArchiveList_honest [OF assms(1-3) gather_spool_names [OF Ret assms(4,5)] q]
      have w1: "w' = w1" using assms(6) q Ret \<open>?o = Ret options\<close> by (cases q) (simp_all add: archive_batch_def)
      have "archived (w_remote w') (path_base src)" if "r = Ret ()"
      proof -
        from that obtain results where "q = Ret results" "last_error None results = None"
          using assms(6) q Ret \<open>?o = Ret options\<close> by (cases q) (auto simp: archive_batch_def split: option.splits)
        with honest(2) have "\<forall>n \<in> set batch. archived (w_remote w1) (path_base n)" by (simp add: last_error_None)
        then have "archived (w_remote w1) (path_base (path_join [wal_dir h, path_base src]))"
          using gather_keeps_requested [OF Ret] by blast
        then show ?thesis using w1 assms(4) by (simp add: path_base_join spool_name_def)
      qed
      then show ?thesis using honest(1) w1 by simp
    qed (use assms(1,6) Ret in \<open>auto simp: archive_batch_def\<close>)
  qed (use assms(1,6) in \<open>auto simp: archive_batch_def\<close>)
qed

text \<open>What the requests of a run share: the executable, the spool and where things are.\<close>

definition archiving_setup :: "'r host \<Rightarrow> WALServiceImplementation \<Rightarrow> ('r \<Rightarrow> string \<Rightarrow> bool) \<Rightarrow> bool" where
  "archiving_setup h svc archived \<longleftrightarrow>
     leaves_spool (h_pgbackrest h) \<lparr>spoolDirectory = svc_SpoolDirectory svc\<rparr>
     \<and> archive_ok (h_pgbackrest h) archived \<and> spool_apart svc \<and> spool_name (path_join [wal_dir h, ''..''])"

lemma Service_Archive_honest:
  assumes "archiving_setup h svc archived" "spool_name src"
    and "spool_honest (h_fileutils h) \<lparr>spoolDirectory = svc_SpoolDirectory svc\<rparr> archived K w"
    and "Service_Archive h cn sched svc def src w = (r, w')"
  shows "spool_honest (h_fileutils h) \<lparr>spoolDirectory = svc_SpoolDirectory svc\<rparr> archived K w'
    \<and> (r = Ret () \<longrightarrow> archived (w_remote w') (path_base src))"
proof -
  let ?spool = "\<lparr>spoolDirectory = svc_SpoolDirectory svc\<rparr>" and ?fu = "h_fileutils h"
  let ?flag = "path_join [svc_PGDataPath svc, CheckEmptyWalArchiveFile]"
  have leaves: "leaves_spool (h_pgbackrest h) ?spool" and ok: "archive_ok (h_pgbackrest h) archived"
    and apart: "spool_apart svc" and up: "spool_name (path_join [wal_dir h, ''..''])"
    using assms(1) by (auto simp: archiving_setup_def)
  show ?thesis
  proof (cases "\<exists>configuration archive env fs'. archive_env h cn def w configuration archive env fs'")
    case True
    then obtain configuration archive env fs' where e: "archive_env h cn def w configuration archive env fs'" by blast
    let ?cfg = "archive_cfg archive" and ?st = "pc_Stanza configuration" and ?w1 = "w\<lparr>w_fs := fs'\<rparr>"
    have "goes_on ?spool archived w ?w1"
      using e same_spool_credentials [OF apart, of "w_fs w" h "arch_Namespace archive" ?cfg "SanitizedEnviron h"]
      by (simp add: goes_on_def archive_env_def)
    then have w1: "spool_honest ?fu ?spool archived K ?w1" using assms(3) by (rule goes_on_honest)
    then have ready: "spool_ready ?fu ?spool fs'" by (simp add: spool_honest_def)
    from Archiver_New_existing [OF ready] obtain arch where
      a: "Archiver_New h env (svc_SpoolDirectory svc) (svc_PGDataPath svc) ?flag fs' = (Ret arch, fs')" "wa_spool arch = ?spool" by blast
    have aok: "archiver_ok h arch" using Archiver_New_ok [OF a(1)] apart leaves by (simp add: spool_apart_def Let_def)
    from DeleteFromSpool_result [of h arch fs' src] ready a(2) assms(2) obtain fs2 where
      d: "DeleteFromSpool h arch src fs' = (Ret (path_base src \<in> spool_elems ?spool fs'), fs2)"
        "spool_ready ?fu ?spool fs2" "spool_elems ?spool fs2 = spool_elems ?spool fs' - {path_base src}" by auto
    have w2: "spool_honest ?fu ?spool archived K (w\<lparr>w_fs := fs2\<rparr>)" using w1 d(2,3) by (auto simp: spool_honest_def)
    have s: "Service_Archive h cn sched svc def src w =
        (if path_base src \<in> spool_elems ?spool fs' then (Ret (), w\<lparr>w_fs := fs2\<rparr>)
         else bindW (check_destination h svc ?cfg ?st env (w\<lparr>w_fs := fs2\<rparr>)) (\<lambda>_ w. archive_batch h sched arch ?cfg ?st src w))"
      unfolding Service_Archive_unfold [OF e] by (simp add: on_files_def a(1) d(1))
    show ?thesis
    proof (cases "path_base src \<in> spool_elems ?spool fs'")
      case True
      with s assms(4) w1 w2 show ?thesis by (auto simp: spool_honest_def)
    next
      case False
      obtain q w3 where q: "check_destination h svc ?cfg ?st env (w\<lparr>w_fs := fs2\<rparr>) = (q, w3)" by fastforce
      with goes_on_check_destination [OF leaves ok, of "w\<lparr>w_fs := fs2\<rparr>" svc ?cfg ?st env] w2
      have w3: "spool_honest ?fu ?spool archived K w3" by (auto intro: goes_on_honest)
      show ?thesis
      proof (cases q)
        case (Ret u)
        then have "archive_batch h sched arch ?cfg ?st src w3 = (r, w')" using s q False assms(4) by simp
        from archive_batch_honest [OF _ aok ok assms(2) up this] w3 a(2) show ?thesis by simp
      qed (use s q False assms(4) w3 in auto)
    qed
  next
    case False
    then have r: "r \<noteq> Ret ()" using Service_Archive_Ret_env assms(4) by blast
    have "goes_on ?spool archived w w'"
    proof (cases "NewFromClusterJSON cn def")
      case (Ret c)
      note c = Ret
      show ?thesis
      proof (cases "h_get_archive h (fst (GetArchiveObjectKey c)) (snd (GetArchiveObjectKey c))")
        case (Ret archive)
        obtain q f where e: "EnvSetBackupCloudCredentials h (arch_Namespace archive) (archive_cfg archive) (SanitizedEnviron h) (w_fs w)
            = (q, f)" by fastforce
        have "q \<noteq> Ret env" for env using False c Ret e by (auto simp: archive_env_def)
        then have "w' = w\<lparr>w_fs := f\<rparr>" using assms(4) c Ret e
          by (cases q) (auto simp: Service_Archive_def split_beta Let_def)
        then show ?thesis
          using same_spool_credentials [OF apart, of "w_fs w" h "arch_Namespace archive" "archive_cfg archive" "SanitizedEnviron h"] e
          by (simp add: goes_on_def)
      qed (use assms(4) c in \<open>auto simp: Service_Archive_def split_beta\<close>)
    qed (use assms(4) in \<open>auto simp: Service_Archive_def\<close>)
    with assms(3) r show ?thesis using goes_on_honest by blast
  qed
qed

section \<open>Runs\<close>

text \<open>
  A step of the world and of the list of acknowledged requests: an archive request, under any
  schedule and for any cluster, answered in any way; or anything that leaves the spool alone and
  takes no segment out of the archive.
\<close>

inductive archive_step ::
  "'r host \<Rightarrow> cnpg \<Rightarrow> WALServiceImplementation \<Rightarrow> ('r \<Rightarrow> string \<Rightarrow> bool) \<Rightarrow>
   'r world \<times> string list \<Rightarrow> 'r world \<times> string list \<Rightarrow> bool"
  for h cn svc archived where
  archive_others: "goes_on \<lparr>spoolDirectory = svc_SpoolDirectory svc\<rparr> archived w w' \<Longrightarrow>
     archive_step h cn svc archived (w, acks) (w', acks)"
| archive_request: "spool_name src \<Longrightarrow> Service_Archive h cn sched svc def src w = (r, w') \<Longrightarrow>
     archive_step h cn svc archived (w, acks) (w', if r = Ret () then src # acks else acks)"

inductive_cases archive_stepE: "archive_step h cn svc archived (w, acks) s"

definition archive_inv ::
  "'r host \<Rightarrow> WALServiceImplementation \<Rightarrow> ('r \<Rightarrow> string \<Rightarrow> bool) \<Rightarrow> 'r world \<times> string list \<Rightarrow> bool" where
  "archive_inv h svc archived = (\<lambda>(w, acks). archiving_setup h svc archived \<longrightarrow>
     spool_honest (h_fileutils h) \<lparr>spoolDirectory = svc_SpoolDirectory svc\<rparr> archived (path_base ` set acks) w)"

interpretation archive_runs: step_invariant "archive_step h cn svc archived" "archive_inv h svc archived"
  for h cn svc archived
proof
  fix s t assume inv: "archive_inv h svc archived s" and step: "archive_step h cn svc archived s t"
  obtain w acks where s: "s = (w, acks)" by fastforce
  from step [unfolded s] show "archive_inv h svc archived t"
  proof (elim archive_stepE)
    fix w' assume "t = (w', acks)" "goes_on \<lparr>spoolDirectory = svc_SpoolDirectory svc\<rparr> archived w w'"
    with inv s show ?thesis using goes_on_honest by (auto simp: archive_inv_def)
  next
    fix src sched def r w'
    assume t: "t = (w', if r = Ret () then src # acks else acks)" and src: "spool_name src"
      and r: "Service_Archive h cn sched svc def src w = (r, w')"
    from Service_Archive_honest [OF _ src _ r, of archived "path_base ` set acks"] inv s t
    show ?thesis by (auto simp: archive_inv_def spool_honest_def)
  qed
qed

text \<open>
  C1. Archiving is safe: in every state reached from an empty spool, each segment whose request was
  acknowledged is in the archive, and so is each segment the spool holds a marker for.
\<close>

theorem archive_run_safe:
  assumes "archiving_setup h svc archived"
    and "spool_ready (h_fileutils h) \<lparr>spoolDirectory = svc_SpoolDirectory svc\<rparr> (w_fs w0)"
    and "spool_elems \<lparr>spoolDirectory = svc_SpoolDirectory svc\<rparr> (w_fs w0) = {}"
    and "(archive_step h cn svc archived)\<^sup>*\<^sup>* (w0, []) (w, acks)"
  shows "(\<forall>src \<in> set acks. archived (w_remote w) (path_base src))
    \<and> (\<forall>n \<in> spool_elems \<lparr>spoolDirectory = svc_SpoolDirectory svc\<rparr> (w_fs w). archived (w_remote w) n)"
proof -
  have "archive_inv h svc archived (w0, [])" using assms(2,3) by (simp add: archive_inv_def spool_honest_def)
  from archive_runs.run_inv [OF assms(4) this] assms(1) show ?thesis by (auto simp: archive_inv_def spool_honest_def)
qed

section \<open>An example\<close>

text \<open>An executable whose remote side is the list of what it was asked to push.\<close>

definition store_host :: "string list host" where
  "store_host = \<lparr>h_pgbackrest = (\<lambda>argv env fs r. (ProcOk '''', fs, path_base (last argv) # r)),
     h_fileutils = posix_fileutils, h_environ = [''PGDATA=/pg''], h_get_secret = secrets_example,
     h_get_archive = (\<lambda>ns n. Ret service_archive), h_parse_json = h_parse_json info_host\<rparr>"

definition in_store :: "string list \<Rightarrow> string \<Rightarrow> bool" where
  "in_store r n \<longleftrightarrow> n \<in> set r"

definition store_world :: "string list world" where
  "store_world = \<lparr>w_fs = del_node (spool_file spool_example ''B'') fs_example, w_remote = [], w_ran = []\<rparr>"

lemma clean_join_plain: "plain_name n \<Longrightarrow> d \<noteq> [] \<Longrightarrow> path_clean (d @ slash # n) = join_prefix d @ n"
  using path_join_plain [of n d] by (auto simp: path_join_def plain_name_def)

lemma outside_spool_example:
  assumes "path_clean p \<noteq> ''/s''" "\<And>n. path_clean p \<noteq> ''/s/'' @ n"
  shows "outside_spool spool_example p"
proof -
  have "path_clean ''/s'' = ''/s''" by (simp add: path_clean_def clean_step_def)
  moreover have "path_clean (spool_file spool_example n) = ''/s/'' @ n" if "plain_name n" for n
    using path_clean_spool_file [of spool_example n] spool_file_example [OF that] by (simp add: spool_example_def)
  ultimately show ?thesis using assms by (simp add: outside_spool_def) (simp add: spool_example_def)
qed

lemma certificate_paths_cases:
  assumes "path_clean p \<in> certificate_paths PgBackRestBackupEndpointCACertificateLocation
    \<union> certificate_paths PgBackRestRestoreEndpointCACertificateLocation"
  shows "path_clean p \<in> {''/'', ''/controller'', ''/controller/certificates''}
    \<or> (\<exists>n. path_clean p = ''/controller/certificates/'' @ n)"
proof -
  have dirs: "map path_clean (path_prefixes CertificatesDir) = [''/'', ''/controller'', ''/controller/certificates'']" by code_simp
  have certs: "\<exists>n. path_clean (CertificatesDir @ kind @ fmt_nat 10 (i + 1) @ ''-'' @ PgBackRestEndpointCACertificateFileName)
      = ''/controller/certificates/'' @ n" if "kind \<in> {''backup-repo'', ''restore-repo''}" for kind i
  proof -
    let ?n = "kind @ fmt_nat 10 (i + 1) @ ''-'' @ PgBackRestEndpointCACertificateFileName"
    have "plain_name ?n" using fmt_nat_no_char [of slash "i + 1"] that
      by (auto simp: digit_val_def plain_name_def PgBackRestEndpointCACertificateFileName_def)
    then have "path_clean (''/controller/certificates'' @ slash # ?n) = join_prefix ''/controller/certificates'' @ ?n"
      by (intro clean_join_plain) simp_all
    moreover have "join_prefix ''/controller/certificates'' = ''/controller/certificates/''" by code_simp
    ultimately show ?thesis by (simp add: CertificatesDir_def ScratchDataDirectory_def)
  qed
  have "path_clean p \<in> path_clean ` set (path_prefixes CertificatesDir)
      \<or> (\<exists>i. path_clean p = path_clean (PgBackRestBackupEndpointCACertificateLocation i))
      \<or> (\<exists>i. path_clean p = path_clean (PgBackRestRestoreEndpointCACertificateLocation i))"
    using assms by (auto simp: certificate_paths_def)
  then show ?thesis
    unfolding set_map [symmetric] dirs PgBackRestBackupEndpointCACertificateLocation_def
      PgBackRestRestoreEndpointCACertificateLocation_def using certs [of "''backup-repo''"] certs [of "''restore-repo''"] by auto
qed

lemma certificates_example:
  "path_clean p \<in> certificate_paths PgBackRestBackupEndpointCACertificateLocation
    \<union> certificate_paths PgBackRestRestoreEndpointCACertificateLocation \<Longrightarrow> outside_spool spool_example p"
  using certificate_paths_cases [of p] by (intro outside_spool_example) auto

lemma store_setup: "archiving_setup store_host (service_example ''c-1'') in_store"
proof -
  have sp: "\<lparr>spoolDirectory = svc_SpoolDirectory (service_example ''c-1'')\<rparr> = spool_example"
    by (simp add: service_example_def spool_example_def)
  have c: "path_clean (path_join [''/pg'', CheckEmptyWalArchiveFile]) = ''/pg/.check-empty-wal-archive''" by code_simp
  have "outside_spool spool_example (path_join [''/pg'', CheckEmptyWalArchiveFile])"
    by (rule outside_spool_example) (simp_all only: c, simp_all)
  moreover have "outside_spool spool_example p"
    if "p \<in> set (path_prefixes CertificatesDir) \<union> range PgBackRestBackupEndpointCACertificateLocation" for p
    using that by (intro certificates_example) (simp add: certificate_paths_def)
  ultimately have "spool_apart (service_example ''c-1'')"
    unfolding spool_apart_def Let_def sp by (auto simp: service_example_def)
  moreover have "leaves_spool (h_pgbackrest store_host) spool_example" by (simp add: leaves_spool_def store_host_def)
  moreover have "archive_ok (h_pgbackrest store_host) in_store"
    by (auto simp: archive_ok_def store_host_def in_store_def push_options_def)
  moreover have "spool_name (path_join [wal_dir store_host, ''..''])"
  proof -
    have "path_base (path_join [wal_dir store_host, ''..'']) = ''pg''" by code_simp
    then show ?thesis by (simp add: spool_name_def plain_name_def)
  qed
  ultimately show ?thesis by (simp add: archiving_setup_def sp)
qed

lemma empty_spool_example:
  "spool_ready posix_fileutils spool_example (del_node (spool_file spool_example ''B'') fs_example)"
  "spool_elems spool_example (del_node (spool_file spool_example ''B'') fs_example) = {}"
proof -
  have b: "plain_name ''B''" by (simp add: plain_name_def)
  have "spool_elems spool_example fs_example \<subseteq> {''B''}"
  proof
    fix n assume "n \<in> spool_elems spool_example fs_example"
    then have n: "plain_name n" "node_at fs_example (spool_file spool_example n) \<noteq> None" by (auto simp: spool_elems_def)
    moreover have "path_clean (''/s/'' @ n) = ''/s/'' @ n"
      using path_clean_spool_file [of spool_example n] spool_file_example [OF n(1)] by (simp add: spool_example_def)
    ultimately show "n \<in> {''B''}"
      by (auto simp: spool_file_example [OF n(1)] node_at_def fs_example_def split: if_splits)
  qed
  with spool_ready_del [OF spool_example_ready b] show
    "spool_ready posix_fileutils spool_example (del_node (spool_file spool_example ''B'') fs_example)"
    "spool_elems spool_example (del_node (spool_file spool_example ''B'') fs_example) = {}" by auto
qed

theorem archive_run_safe_witness:
  "\<exists>w. Service_Archive store_host cnpg_example [] (service_example ''c-1'') [] ''pg_wal/A'' store_world = (Ret (), w)
     \<and> (archive_step store_host cnpg_example (service_example ''c-1'') in_store)\<^sup>*\<^sup>* (store_world, []) (w, [''pg_wal/A''])
     \<and> in_store (w_remote w) ''A''"
proof -
  let ?svc = "service_example ''c-1''"
  let ?r = "Service_Archive store_host cnpg_example [] ?svc [] ''pg_wal/A'' store_world"
  have sp: "\<lparr>spoolDirectory = svc_SpoolDirectory ?svc\<rparr> = spool_example"
    by (simp add: service_example_def spool_example_def)
  have start: "spool_ready (h_fileutils store_host) \<lparr>spoolDirectory = svc_SpoolDirectory ?svc\<rparr> (w_fs store_world)"
    "spool_elems \<lparr>spoolDirectory = svc_SpoolDirectory ?svc\<rparr> (w_fs store_world) = {}"
    unfolding sp using empty_spool_example by (simp_all add: store_world_def store_host_def)
  have "returns (fst ?r)" by code_simp
  then obtain w where r: "?r = (Ret (), w)" by (cases ?r; cases "fst ?r") auto
  have names: "spool_name ''pg_wal/A''" "path_base ''pg_wal/A'' = ''A''"
    by (simp_all add: spool_name_def plain_name_def path_base_def after_last_slash_def)
  have run: "(archive_step store_host cnpg_example ?svc in_store)\<^sup>*\<^sup>* (store_world, []) (w, [''pg_wal/A''])"
    using archive_request [OF names(1) r, of in_store "[]"] by simp
  from archive_run_safe [OF store_setup start this] have "in_store (w_remote w) ''A''" by (simp add: names(2))
  with r run show ?thesis by blast
qed

end
