(* ===== verification/Archive_Progress.thy ===== *)
theory Archive_Progress
  imports Archive_Run
begin

text \<open>
  Archiving makes progress: when pgBackRest and the files behave, an archive request is
  acknowledged, whatever the goroutines of its batch do in which order. The counterpart of the
  safety of \<open>Archive_Run\<close>.
\<close>

section \<open>When the environment behaves\<close>

text \<open>
  Pushes end with success, and reports can be read; no process takes the spool or makes a directory
  of the flag file.
\<close>

definition pushing_works :: "'r host \<Rightarrow> WALSpool \<Rightarrow> string \<Rightarrow> PgbackrestConfiguration \<Rightarrow> bool" where
  "pushing_works h spool flag cfg \<longleftrightarrow> leaves_spool (h_pgbackrest h) spool
     \<and> (\<forall>argv env fs r. node_at (fst (snd (h_pgbackrest h argv env fs r))) flag = Some Dir \<longrightarrow> node_at fs flag = Some Dir)
     \<and> (\<forall>os n env fs r. \<exists>out. fst (h_pgbackrest h (push_options os n) env fs r) = ProcOk out)
     \<and> (\<forall>stanza env w. returns (fst (GetBackupList h cfg stanza env w)))"

text \<open>A spool and a flag file that can be used.\<close>

definition files_fine :: "fileutils \<Rightarrow> WALSpool \<Rightarrow> string \<Rightarrow> fs \<Rightarrow> bool" where
  "files_fine fu spool flag fs \<longleftrightarrow> spool_ready fu spool fs \<and> \<not> denied fs flag \<and> node_at fs flag \<noteq> Some Dir"

lemma files_fine_run:
  assumes "pushing_works h spool flag cfg" "files_fine fu spool flag (w_fs w)"
  shows "files_fine fu spool flag (w_fs (snd (run_pgbackrest h argv env w)))"
proof -
  have l: "leaves_spool (h_pgbackrest h) spool" using assms(1) by (simp add: pushing_works_def)
  have same: "same_spool spool (w_fs w) (w_fs (snd (run_pgbackrest h argv env w)))" by (rule leaves_spool_run [OF l])
  have "w_fs (snd (run_pgbackrest h argv env w)) = fst (snd (h_pgbackrest h argv env (w_fs w) (w_remote w)))"
    by (simp add: run_pgbackrest_def split_beta)
  then have "node_at (w_fs (snd (run_pgbackrest h argv env w))) flag \<noteq> Some Dir"
    using assms by (auto simp: pushing_works_def files_fine_def)
  with same same_spool_ready [OF same] assms(2) show ?thesis by (simp add: files_fine_def same_spool_def)
qed

section \<open>The batch\<close>

definition batch_fine :: "fileutils \<Rightarrow> WALSpool \<Rightarrow> string \<Rightarrow> worker list \<times> 'r world \<Rightarrow> bool" where
  "batch_fine fu spool flag = (\<lambda>(ws, w). files_fine fu spool flag (w_fs w)
     \<and> set ws \<subseteq> {Todo, Pushed, Cleaned, Done None})"

lemma batch_fine_update:
  assumes "batch_fine fu spool flag (ws, w)" "files_fine fu spool flag (w_fs w')" "s \<in> {Todo, Pushed, Cleaned, Done None}"
  shows "batch_fine fu spool flag (ws[i := s], w')"
  using assms set_update_subset_insert [of ws i s] by (auto simp: batch_fine_def)

lemma push_step_works:
  assumes "pushing_works h spool flag cfg" "files_fine fu spool flag (w_fs w)" "int (length os) < MaxInt - 2"
  shows "\<exists>w'. push_step h a n os w = (Ret (), w') \<and> files_fine fu spool flag (w_fs w')"
proof -
  obtain out where "fst (h_pgbackrest h (push_options os n) (pa_Env a) (w_fs w) (w_remote w)) = ProcOk out"
    using assms(1) unfolding pushing_works_def by blast
  then have "fst (run_pgbackrest h (push_options os n) (pa_Env a) w) = Ret out" by (simp add: run_pgbackrest_def split_beta)
  then obtain w' where "run_pgbackrest h (push_options os n) (pa_Env a) w = (Ret out, w')" by (metis prod.collapse)
  with files_fine_run [OF assms(1,2), of "push_options os n" "pa_Env a"] assms(3) show ?thesis
    by (simp add: push_step_def run_streaming_def)
qed

lemma cleanup_step_works:
  assumes "files_fine (h_fileutils h) spool (pa_EmptyWalArchivePath a) (w_fs w)" "outside_spool spool (pa_EmptyWalArchivePath a)"
  shows "\<exists>w'. cleanup_step h a w = (Ret (), w') \<and> files_fine (h_fileutils h) spool (pa_EmptyWalArchivePath a) (w_fs w')"
proof -
  let ?flag = "pa_EmptyWalArchivePath a"
  have rm: "remove_file_ok (h_fileutils h)" using assms(1) by (simp add: files_fine_def spool_ready_def fileutils_ok_def)
  have flag: "\<not> denied (w_fs w) ?flag" "node_at (w_fs w) ?flag = None \<or> (\<exists>c. node_at (w_fs w) ?flag = Some (File c))"
    using assms(1) by (auto simp: files_fine_def) (metis node.exhaust option.exhaust)
  then obtain fs' where fs': "fu_RemoveFile (h_fileutils h) ?flag (w_fs w) = (Ret (), fs')" "fs' = w_fs w \<or> fs' = del_node ?flag (w_fs w)"
    using rm by (auto simp: remove_file_ok_def)
  then have c: "cleanup_step h a w = (Ret (), w\<lparr>w_fs := fs'\<rparr>)" by (simp add: cleanup_step_def)
  have "spool_ready (h_fileutils h) spool fs'"
    using cleanup_step_spool [OF rm assms(2) c] same_spool_ready assms(1) by (simp add: files_fine_def)
  with c fs'(2) assms(1) show ?thesis by (auto simp: files_fine_def)
qed

lemma touch_works:
  assumes "files_fine fu spool flag fs" "outside_spool spool flag" "spool_name n"
  shows "\<exists>fs'. Touch spool n fs = (Ret (), fs') \<and> files_fine fu spool flag fs'"
proof -
  have r: "spool_ready fu spool fs" and n: "plain_name (path_base n)" using assms by (simp_all add: files_fine_def spool_name_def)
  have "path_clean (spool_file spool (path_base n)) \<noteq> path_clean flag" using assms(2) n by (auto simp: outside_spool_def)
  with Touch_elems [OF r assms(3)] spool_ready_put(1) [OF r n] assms(1) show ?thesis by (simp add: files_fine_def)
qed

lemma batch_fine_step:
  assumes "batch_fine (h_fileutils h) spool (pa_EmptyWalArchivePath a) (ws, w)"
    and "pushing_works h spool (pa_EmptyWalArchivePath a) cfg" "outside_spool spool (pa_EmptyWalArchivePath a)"
    and "pa_Touch a = Touch spool" "\<forall>n \<in> set ns. spool_name n" "length ws = length ns" "int (length os) < MaxInt - 2"
  shows "batch_fine (h_fileutils h) spool (pa_EmptyWalArchivePath a) (worker_step h a ns os i (ws, w))"
proof (cases "i < length ws")
  case i: True
  have fine: "files_fine (h_fileutils h) spool (pa_EmptyWalArchivePath a) (w_fs w)" and s: "ws ! i \<in> {Todo, Pushed, Cleaned, Done None}"
    using assms(1) nth_mem [OF i] unfolding batch_fine_def by blast+
  have n: "spool_name (ns ! i)" using assms(5,6) i by simp
  from s show ?thesis
  proof (elim insertE emptyE)
    assume "ws ! i = Todo"
    with push_step_works [OF assms(2) fine assms(7), of a "ns ! i"] i show ?thesis
      by (auto simp: worker_step_def intro: batch_fine_update [OF assms(1)])
  next
    assume "ws ! i = Pushed"
    with cleanup_step_works [OF fine assms(3)] i show ?thesis
      by (auto simp: worker_step_def intro!: batch_fine_update [OF assms(1)])
  next
    assume "ws ! i = Cleaned"
    with touch_works [OF fine assms(3) n] i assms(4) show ?thesis
      by (auto simp: worker_step_def intro!: batch_fine_update [OF assms(1)])
  qed (use i assms(1) in \<open>simp add: worker_step_def\<close>)
qed (use assms(1) in \<open>simp add: worker_step_def\<close>)

lemma batch_fine_run:
  assumes "batch_fine (h_fileutils h) spool (pa_EmptyWalArchivePath a) (ws, w)" "length ws = length ns"
    and "pushing_works h spool (pa_EmptyWalArchivePath a) cfg" "outside_spool spool (pa_EmptyWalArchivePath a)"
    and "pa_Touch a = Touch spool" "\<forall>n \<in> set ns. spool_name n" "int (length os) < MaxInt - 2"
  shows "batch_fine (h_fileutils h) spool (pa_EmptyWalArchivePath a) (run_schedule h a ns os sched (ws, w))"
  using assms(1,2)
proof (induction sched arbitrary: ws w)
  case (Cons i sched)
  obtain ws1 w1 where s: "worker_step h a ns os i (ws, w) = (ws1, w1)" by fastforce
  from batch_fine_step [OF Cons.prems(1) assms(3-6) Cons.prems(2) assms(7), of i] worker_step_length [of h a ns os i "(ws, w)"]
  show ?case using Cons s by simp
qed simp

lemma ArchiveList_works:
  assumes "files_fine (h_fileutils h) (wa_spool arch) (pa_EmptyWalArchivePath (wa_pgbackrestArchiver arch)) (w_fs w)"
    and "pushing_works h (wa_spool arch) (pa_EmptyWalArchivePath (wa_pgbackrestArchiver arch)) cfg"
    and "archiver_ok h arch" "\<forall>n \<in> set ns. spool_name n" "int (length os) < MaxInt - 2"
  shows "\<exists>results w'. ArchiveList h sched arch ns os w = (Ret results, w') \<and> (\<forall>x \<in> set results. res_Err x = None)"
proof -
  let ?a = "wa_pgbackrestArchiver arch" and ?n = "length ns"
  obtain ws w' where run: "run_schedule h ?a ns os (sched @ wait_for_all ?n) (replicate ?n Todo, w) = (ws, w')" by fastforce
  have "batch_fine (h_fileutils h) (wa_spool arch) (pa_EmptyWalArchivePath ?a) (replicate ?n Todo, w)"
    using assms(1) by (auto simp: batch_fine_def)
  from batch_fine_run [OF this _ assms(2) _ _ assms(4,5), of "sched @ wait_for_all ?n"] assms(3) run
  have ws: "set ws \<subseteq> {Todo, Pushed, Cleaned, Done None}" by (simp add: archiver_ok_def batch_fine_def)
  then have "crash_of ws = None" by (auto simp: crash_of_None_iff)
  moreover have "worker_error s = None" if "s \<in> set ws" for s using ws that by auto
  ultimately show ?thesis using run
    by (auto simp: ArchiveList_def Archive_list_def dest!: set_zip_rightD)
qed

section \<open>The request\<close>

lemma DeleteFromSpool_fine:
  assumes "files_fine (h_fileutils h) (wa_spool arch) flag fs" "outside_spool (wa_spool arch) flag" "spool_name src"
  shows "\<exists>fs'. DeleteFromSpool h arch src fs = (Ret (path_base src \<in> spool_elems (wa_spool arch) fs), fs')
    \<and> files_fine (h_fileutils h) (wa_spool arch) flag fs'"
proof -
  have r: "spool_ready (h_fileutils h) (wa_spool arch) fs" and n: "plain_name (path_base src)"
    using assms by (simp_all add: files_fine_def spool_name_def)
  have "path_clean (spool_file (wa_spool arch) (path_base src)) \<noteq> path_clean flag" using assms(2) n by (auto simp: outside_spool_def)
  then have "files_fine (h_fileutils h) (wa_spool arch) flag (del_node (spool_file (wa_spool arch) (path_base src)) fs)"
    using assms(1) spool_ready_del(1) [OF r n] by (simp add: files_fine_def)
  then show ?thesis using Contains_elems [OF r assms(3)] Remove_elems [OF r assms(3)] assms(1)
    by (cases "path_base src \<in> spool_elems (wa_spool arch) fs") (simp_all add: DeleteFromSpool_def delete_if_present_def)
qed

lemma check_destination_works:
  assumes "pushing_works h spool flag cfg" "files_fine fu spool flag (w_fs w)"
  shows "\<exists>w'. check_destination h svc cfg stanza env w = (Ret (), w') \<and> files_fine fu spool flag (w_fs w')"
proof -
  let ?P = "\<lambda>w. files_fine fu spool flag (w_fs w)"
  have run: "outcome (\<lambda>_. ?P) ?P (run_pgbackrest h argv e w)" if "?P w" for argv e w
    using files_fine_run [OF assms(1) that, of argv e]
    by (cases "run_pgbackrest h argv e w"; cases "fst (run_pgbackrest h argv e w)") simp_all
  have "outcome (\<lambda>_. ?P) ?P (GetBackupList h cfg stanza env w)"
    unfolding GetBackupList_def executeQueryCommand_def info_options_flags
    by (rule outcome_bindW [where R = "\<lambda>_. ?P"], simp_all add: run assms(2), simp add: outcome_def split: go.split)
  moreover obtain catalog w1 where l: "GetBackupList h cfg stanza env w = (Ret catalog, w1)"
    using assms(1) unfolding pushing_works_def returns_iff by (metis prod.collapse)
  ultimately have w1: "?P w1" by simp
  let ?c = "CreatePgbackrestStanza h (NewBackupCommand cfg None (svc_PGDataPath svc)) stanza env w1"
  have "?P (snd ?c)" using files_fine_run [OF assms(1) w1]
    by (simp add: CreatePgbackrestStanza_def stanza_create_flags snd_wrapW)
  moreover have "fst ?c \<noteq> Panic m" for m
    using run_never_panics(2) by (simp add: CreatePgbackrestStanza_def stanza_create_flags wrapW_def)
  then have "(case ?c of (Panic m, w) \<Rightarrow> (Panic m, w) | (_, w) \<Rightarrow> (Ret (), w)) = (Ret (), snd ?c)"
    by (cases ?c; cases "fst ?c") auto
  ultimately show ?thesis using l w1
    by (auto simp: check_destination_def CheckWalArchiveDestination_def errors_is_def)
qed

text \<open>
  C5. Archiving makes progress: when the processes and the files behave, a request is acknowledged,
  under every schedule of the goroutines, whether its segment is pushed now or was pushed ahead.
\<close>

theorem Service_Archive_acknowledges:
  assumes "archive_env h cn def w configuration archive env fs'"
    and "pushing_works h \<lparr>spoolDirectory = svc_SpoolDirectory svc\<rparr> (path_join [svc_PGDataPath svc, CheckEmptyWalArchiveFile])
      (archive_cfg archive)"
    and "spool_apart svc" "spool_name (path_join [wal_dir h, ''..''])" "spool_name src"
    and "files_fine (h_fileutils h) \<lparr>spoolDirectory = svc_SpoolDirectory svc\<rparr>
      (path_join [svc_PGDataPath svc, CheckEmptyWalArchiveFile]) fs'"
    and "PgbackrestWalArchiveOptions (archive_cfg archive) (pc_Stanza configuration) = Ret options" "int (length options) < MaxInt - 2"
  shows "\<exists>w'. Service_Archive h cn sched svc def src w = (Ret (), w')"
proof -
  let ?spool = "\<lparr>spoolDirectory = svc_SpoolDirectory svc\<rparr>" and ?flag = "path_join [svc_PGDataPath svc, CheckEmptyWalArchiveFile]"
  let ?cfg = "archive_cfg archive" and ?st = "pc_Stanza configuration"
  have ready: "spool_ready (h_fileutils h) ?spool fs'" using assms(6) by (simp add: files_fine_def)
  obtain arch where a: "Archiver_New h env (svc_SpoolDirectory svc) (svc_PGDataPath svc) ?flag fs' = (Ret arch, fs')" "wa_spool arch = ?spool"
    using Archiver_New_existing [OF ready] by blast
  have flag: "pa_EmptyWalArchivePath (wa_pgbackrestArchiver arch) = ?flag" and aok: "archiver_ok h arch"
    using Archiver_New_env [OF a(1)] Archiver_New_ok [OF a(1)] assms(2,3) by (simp_all add: spool_apart_def pushing_works_def Let_def)
  obtain fs2 where d: "DeleteFromSpool h arch src fs' = (Ret (path_base src \<in> spool_elems ?spool fs'), fs2)"
    and fine2: "files_fine (h_fileutils h) ?spool ?flag fs2"
    using DeleteFromSpool_fine [of h arch ?flag fs' src] assms(3,5,6) a(2) by (auto simp: spool_apart_def Let_def)
  then have "files_fine (h_fileutils h) ?spool ?flag (w_fs (w\<lparr>w_fs := fs2\<rparr>))" by simp
  from check_destination_works [OF assms(2) this] obtain w3 where c:
    "check_destination h svc ?cfg ?st env (w\<lparr>w_fs := fs2\<rparr>) = (Ret (), w3)" "files_fine (h_fileutils h) ?spool ?flag (w_fs w3)" by blast
  have "max_parallel ?cfg \<ge> 1" by (auto simp: max_parallel_def split: option.split)
  then obtain batch where g: "GatherWALFilesToArchive h src (max_parallel ?cfg) (w_fs w3) = Ret batch"
    by (auto simp: GatherWALFilesToArchive_def Let_def MaxInt_def)
  obtain results w4 where l: "ArchiveList h sched arch batch options w3 = (Ret results, w4)" "\<forall>x \<in> set results. res_Err x = None"
    using ArchiveList_works [OF _ _ aok gather_spool_names [OF g assms(5,4)] assms(8)] c(2) assms(2) a(2) flag by fastforce
  then have "last_error None results = None" by (simp add: last_error_None)
  then have "archive_batch h sched arch ?cfg ?st src w3 = (Ret (), w4)" using assms(7) g l(1) by (simp add: archive_batch_def)
  then show ?thesis unfolding Service_Archive_unfold [OF assms(1)] using a(1) d c(1) by (auto simp: on_files_def)
qed

section \<open>An example\<close>

lemma store_works: "pushing_works store_host spool_example (path_join [''/pg'', CheckEmptyWalArchiveFile]) cfg"
proof -
  have "returns (NewCatalogFromPgbackrestInfo (h_parse_json store_host) '''')" by code_simp
  moreover have "run_pgbackrest store_host argv env w = (Ret '''', w\<lparr>w_remote := path_base (last argv) # w_remote w, w_ran := w_ran w @ [argv]\<rparr>)"
    for argv env w by (simp add: run_pgbackrest_def store_host_def)
  ultimately have "returns (fst (GetBackupList store_host cfg stanza env w))" for stanza env w
    by (simp add: GetBackupList_def executeQueryCommand_def info_options_flags)
  then show ?thesis by (simp add: pushing_works_def leaves_spool_def) (simp add: store_host_def)
qed

theorem Service_Archive_acknowledges_witness:
  "\<exists>w. Service_Archive store_host cnpg_example [1, 0, 1] (service_example ''c-1'') [] ''pg_wal/A'' store_world = (Ret (), w)"
proof -
  let ?svc = "service_example ''c-1''" and ?c = "NewFromCluster cnpg_example cluster_example"
  have sp: "\<lparr>spoolDirectory = svc_SpoolDirectory ?svc\<rparr> = spool_example" and pg: "svc_PGDataPath ?svc = ''/pg''"
    by (simp_all add: service_example_def spool_example_def)
  let ?r = "EnvSetBackupCloudCredentials store_host ''ns'' (archive_cfg service_archive) (SanitizedEnviron store_host) (w_fs store_world)"
  have "returns (fst ?r) \<and> snd ?r = w_fs store_world" by code_simp
  then obtain env where "?r = (Ret env, w_fs store_world)" by (cases ?r; cases "fst ?r") auto
  moreover have "arch_Namespace service_archive = ''ns''" by (simp add: service_archive_def archive_example_def)
  ultimately have e: "archive_env store_host cnpg_example [] store_world ?c service_archive env (w_fs store_world)"
    by (simp add: archive_env_def NewFromClusterJSON_def) (simp add: cnpg_example_def store_host_def)
  have "case PgbackrestWalArchiveOptions (archive_cfg service_archive) (pc_Stanza ?c) of Ret options \<Rightarrow> length options < 100 | _ \<Rightarrow> False"
    by code_simp
  then obtain options where o: "PgbackrestWalArchiveOptions (archive_cfg service_archive) (pc_Stanza ?c) = Ret options"
    "int (length options) < MaxInt - 2" by (auto simp: MaxInt_def split: go.splits)
  have s: "spool_apart ?svc" "spool_name (path_join [wal_dir store_host, ''..''])"
    using store_setup by (simp_all add: archiving_setup_def)
  have n: "spool_name ''pg_wal/A''" by (simp add: spool_name_def plain_name_def path_base_def after_last_slash_def)
  have "\<not> denied (w_fs store_world) (path_join [''/pg'', CheckEmptyWalArchiveFile])
      \<and> node_at (w_fs store_world) (path_join [''/pg'', CheckEmptyWalArchiveFile]) = None" by code_simp
  then have f: "files_fine (h_fileutils store_host) spool_example (path_join [''/pg'', CheckEmptyWalArchiveFile]) (w_fs store_world)"
    using empty_spool_example(1) by (simp add: files_fine_def store_host_def) (simp add: store_world_def)
  from Service_Archive_acknowledges [OF e _ s n _ o, unfolded sp pg, OF store_works f] show ?thesis by blast
qed

end
