(* ===== verification/Restore_Run.thy ===== *)
theory Restore_Run
  imports Archive_Run
begin

text \<open>
  Restoring over time: a sequence of restore requests, each with its prefetch into the spool, with
  anything happening to the rest of the world in between. Whatever was fetched ahead is what the
  archive holds, so that every segment the service hands out has the content of the archive.
\<close>

section \<open>The contract of pgBackRest\<close>

text \<open>
  \<open>content r n\<close> is what the archive holds under the name \<open>n\<close>. As documented, a fetch that ends with
  success has written this to its destination, one that does not has written nothing there; it does
  not change the archive. Paths in \<open>own\<close> (locks, logs) are pgBackRest's own business.
\<close>

definition archive_get_ok :: "'r executable \<Rightarrow> string set \<Rightarrow> ('r \<Rightarrow> string \<Rightarrow> string option) \<Rightarrow> bool" where
  "archive_get_ok exec own content \<longleftrightarrow>
     (\<forall>os n dest env fs r pr fs' r'. exec (get_options os n dest) env fs r = (pr, fs', r') \<longrightarrow>
        content r' = content r
        \<and> (case pr of ProcOk out \<Rightarrow> \<exists>c. content r n = Some c \<and> same_but own (put_node dest (File c) fs) fs'
           | _ \<Rightarrow> same_but own fs fs'))"

abbreviation service_spool :: "WALServiceImplementation \<Rightarrow> WALSpool" where
  "service_spool svc \<equiv> \<lparr>spoolDirectory = svc_SpoolDirectory svc\<rparr>"

abbreviation restore_certificates :: "string set" where
  "restore_certificates \<equiv> certificate_paths PgBackRestRestoreEndpointCACertificateLocation"

definition restoring_setup ::
  "'r host \<Rightarrow> WALServiceImplementation \<Rightarrow> string set \<Rightarrow> ('r \<Rightarrow> string \<Rightarrow> string option) \<Rightarrow> bool" where
  "restoring_setup h svc own content \<longleftrightarrow> archive_get_ok (h_pgbackrest h) own content
     \<and> (\<forall>p. path_clean p \<in> own \<union> restore_certificates \<longrightarrow> outside_spool (service_spool svc) p)"

text \<open>An ordinary destination, apart from the spool, the certificates and pgBackRest's own files.\<close>

definition apart_dest :: "WALSpool \<Rightarrow> string set \<Rightarrow> string \<Rightarrow> bool" where
  "apart_dest spool own dest \<longleftrightarrow> outside_spool spool dest
     \<and> {path_clean dest, path_clean (path_dir dest)} \<inter> (own \<union> restore_certificates) = {}"

definition usable_dest :: "fs \<Rightarrow> string \<Rightarrow> bool" where
  "usable_dest fs dest \<longleftrightarrow> \<not> denied fs dest \<and> node_at fs dest \<noteq> Some Dir \<and> node_at fs (path_dir dest) = Some Dir"

text \<open>The names PostgreSQL asks for: file names, those of segments in upper case.\<close>

definition request_name :: "string \<Rightarrow> bool" where
  "request_name n \<longleftrightarrow> plain_name n \<and> n \<noteq> endOfWALStreamFlagFilename
     \<and> (\<forall>s. SegmentFromName n = Ret s \<longrightarrow> Segment_Name s = n)"

section \<open>The invariant\<close>

text \<open>What the archive holds for a segment: the segment, or the partial one a prefetch of a promotion takes.\<close>

definition held :: "(string \<Rightarrow> string option) \<Rightarrow> string \<Rightarrow> node option \<Rightarrow> bool" where
  "held m n x \<longleftrightarrow> (\<exists>c. x = Some (File c) \<and> (m n = Some c \<or> m (n @ ''.partial'') = Some c))"

definition spool_true :: "fileutils \<Rightarrow> WALSpool \<Rightarrow> (string \<Rightarrow> string option) \<Rightarrow> fs \<Rightarrow> bool" where
  "spool_true fu spool m fs \<longleftrightarrow> spool_ready fu spool fs
     \<and> (\<forall>n \<in> spool_elems spool fs - {endOfWALStreamFlagFilename}. held m n (node_at fs (spool_file spool n)))"

lemma spool_true_keep:
  assumes "spool_true fu spool m fs" "spool_ready fu spool fs'"
    and "\<And>n. plain_name n \<Longrightarrow> n \<noteq> endOfWALStreamFlagFilename \<Longrightarrow>
      node_at fs' (spool_file spool n) \<in> {None, node_at fs (spool_file spool n)} \<or> held m n (node_at fs' (spool_file spool n))"
  shows "spool_true fu spool m fs'"
proof -
  have "held m n (node_at fs' (spool_file spool n))"
    if "n \<in> spool_elems spool fs'" "n \<noteq> endOfWALStreamFlagFilename" for n
  proof -
    have n: "plain_name n" "node_at fs' (spool_file spool n) \<noteq> None" using that by (auto simp: spool_elems_def)
    show ?thesis
    proof (cases "held m n (node_at fs' (spool_file spool n))")
      case False
      with assms(3) [OF n(1) that(2)] n(2) have "node_at fs' (spool_file spool n) = node_at fs (spool_file spool n)" by auto
      moreover have "n \<in> spool_elems spool fs" using n calculation by (simp add: spool_elems_def)
      ultimately show ?thesis using assms(1) that(2) by (auto simp: spool_true_def)
    qed
  qed
  with assms(2) show ?thesis by (auto simp: spool_true_def)
qed

lemma spool_true_same:
  assumes "spool_true fu spool m fs" "same_spool spool fs fs'"
  shows "spool_true fu spool m fs'"
proof (rule spool_true_keep [OF assms(1)])
  show "spool_ready fu spool fs'" using assms same_spool_ready by (auto simp: spool_true_def)
qed (use assms(2) in \<open>auto simp: same_spool_def\<close>)

lemma spool_true_same_but:
  "spool_true fu spool m fs \<Longrightarrow> same_but A fs fs' \<Longrightarrow> (\<And>p. path_clean p \<in> A \<Longrightarrow> outside_spool spool p) \<Longrightarrow>
     spool_true fu spool m fs'"
  by (rule spool_true_same, assumption, rule same_but_spool)

lemma spool_true_put_outside:
  assumes "spool_true fu spool m fs" "outside_spool spool p"
  shows "spool_true fu spool m (put_node p x fs)"
proof (rule spool_true_same_but [OF assms(1)])
  show "same_but {path_clean p} fs (put_node p x fs)" by (rule same_but_put) simp
  show "outside_spool spool q" if "path_clean q \<in> {path_clean p}" for q
    using that assms(2) outside_spool_cong [of q p] by simp
qed

lemma spool_true_put:
  assumes "spool_true fu spool m fs" "plain_name n" "n = endOfWALStreamFlagFilename \<or> held m n (Some (File c))"
  shows "spool_true fu spool m (put_node (spool_file spool n) (File c) fs)"
proof (rule spool_true_keep [OF assms(1)])
  have r: "spool_ready fu spool fs" using assms(1) by (simp add: spool_true_def)
  show "spool_ready fu spool (put_node (spool_file spool n) (File c) fs)" using spool_ready_put(1) [OF r assms(2)] .
  show "node_at (put_node (spool_file spool n) (File c) fs) (spool_file spool k) \<in> {None, node_at fs (spool_file spool k)}
      \<or> held m k (node_at (put_node (spool_file spool n) (File c) fs) (spool_file spool k))"
    if "plain_name k" "k \<noteq> endOfWALStreamFlagFilename" for k
    using that r assms(2,3) by (auto simp: spool_ready_def spool_file_inject)
qed

lemma spool_true_del:
  assumes "spool_true fu spool m fs" "plain_name n"
  shows "spool_true fu spool m (del_node (spool_file spool n) fs)"
proof (rule spool_true_keep [OF assms(1)])
  show "spool_ready fu spool (del_node (spool_file spool n) fs)"
    using spool_ready_del(1) assms by (simp add: spool_true_def)
qed simp

lemma spool_true_MoveOut:
  assumes "spool_true fu spool m fs" "plain_name n" "usable_dest fs dest" "outside_spool spool dest"
  shows "outcome (\<lambda>_ fs'. spool_true fu spool m fs' \<and> node_at fs' dest = node_at fs (spool_file spool n)
      \<and> node_at fs (spool_file spool n) \<noteq> None) (\<lambda>fs'. fs' = fs) (MoveOut fu spool n dest fs)"
proof (cases "node_at fs (spool_file spool n)")
  case None
  then show ?thesis using MoveOut_absent [OF _ assms(2)] assms(1) by (simp add: spool_true_def)
next
  case (Some x)
  have r: "spool_ready fu spool fs" using assms(1) by (simp add: spool_true_def)
  have "\<forall>n. plain_name n \<longrightarrow> path_clean dest \<noteq> spool_file spool n"
    using assms(4) r by (simp add: outside_spool_def spool_ready_def)
  with MoveOut_present [OF r assms(2) _ _ _ _ Some, of dest] assms(3) obtain c where "x = File c"
    "MoveOut fu spool n dest fs = (Ret (), put_node dest (File c) (del_node (spool_file spool n) fs))"
    by (auto simp: usable_dest_def)
  with Some spool_true_put_outside [OF spool_true_del [OF assms(1,2)] assms(4)] show ?thesis by simp
qed


section \<open>A prefetch\<close>

text \<open>The names fetched ahead: segments, or the partial one.\<close>

definition prefetch_name :: "string \<Rightarrow> bool" where
  "prefetch_name x \<longleftrightarrow> (\<exists>n. plain_name n \<and> n \<noteq> endOfWALStreamFlagFilename
     \<and> TrimSuffix x ''.partial'' = n \<and> x \<in> {n, n @ ''.partial''})"

lemma prefetch_Segment_Name:
  "prefetch_name (Segment_Name s)" "prefetch_name (Segment_Name s @ ''.partial'')"
proof -
  have "CHR ''n'' \<notin> set (Segment_Name s)" by (rule Segment_Name_no_char) (simp_all add: hex_class_def)
  then have "Segment_Name s \<noteq> endOfWALStreamFlagFilename" by (auto simp: endOfWALStreamFlagFilename_def)
  then show "prefetch_name (Segment_Name s)" "prefetch_name (Segment_Name s @ ''.partial'')"
    unfolding prefetch_name_def by (intro exI [of _ "Segment_Name s"]; simp)+
qed

lemma gathered_names:
  assumes "gatherWALFilesToRestore walName par promotion = Ret names" "request_name walName"
  shows "(names \<noteq> [] \<longrightarrow> hd names = walName) \<and> (\<forall>x \<in> set (tl names). prefetch_name x)"
proof (cases "SegmentFromName walName")
  case (Ret seg)
  with assms(1) obtain segs where segs: "NextSegments seg par None None = Ret segs"
    and names: "names = map Segment_Name segs \<or> segs \<noteq> [] \<and> names = map Segment_Name segs @ [last (map Segment_Name segs) @ ''.partial'']"
    by (auto simp: gatherWALFilesToRestore_def bindG_Ret_iff Let_def split: if_splits)
  have "0 \<le> par" using segs by (auto simp: NextSegments_def split: if_splits)
  then have s: "segs = next_segments_loop (nat par) 255 False seg" using segs by (simp add: NextSegments_default)
  have hd: "segs \<noteq> [] \<longrightarrow> hd (map Segment_Name segs) = walName"
    using assms(2) Ret unfolding s by (cases seg; cases "nat par") (auto simp: request_name_def)
  have all: "\<forall>x \<in> set names. prefetch_name x"
    using names by (auto simp: prefetch_Segment_Name last_map)
  have "names \<noteq> [] \<longrightarrow> hd names = walName" using names hd by (auto simp: hd_append)
  moreover have "set (tl names) \<subseteq> set names" by (cases names) auto
  ultimately show ?thesis using all by blast
qed (use assms(1) in \<open>auto simp: gatherWALFilesToRestore_def\<close>)

lemma wal_files_list_names:
  assumes "wal_files_list cfg walName promotion = Ret names" "request_name walName"
  shows "(names \<noteq> [] \<longrightarrow> hd names = walName) \<and> (\<forall>x \<in> set (tl names). prefetch_name x)"
  using assms gathered_names by (auto simp: wal_files_list_def split: if_splits)

lemma Restore_wal_true:
  assumes "archive_get_ok (h_pgbackrest h) own content" "Restore_wal h r n d os w = (q, w')"
  shows "content (w_remote w') = content (w_remote w)
    \<and> (if q = Ret () then \<exists>c. content (w_remote w) n = Some c \<and> same_but own (put_node d (File c) (w_fs w)) (w_fs w')
       else same_but own (w_fs w) (w_fs w') \<and> (\<exists>e. q = Fail e))"
proof -
  obtain pr f s where e: "h_pgbackrest h (get_options os n d) (wr_env r) (w_fs w) (w_remote w) = (pr, f, s)"
    by (metis prod.collapse)
  have ok: "content s = content (w_remote w)
      \<and> (case pr of ProcOk out \<Rightarrow> \<exists>c. content (w_remote w) n = Some c \<and> same_but own (put_node d (File c) (w_fs w)) f
         | _ \<Rightarrow> same_but own (w_fs w) f)"
    using assms(1) e unfolding archive_get_ok_def by blast
  show ?thesis using assms(2) e ok
    by (cases pr) (auto simp: Restore_wal_def run_streaming_def run_pgbackrest_def split: if_splits)
qed

text \<open>
  The goroutines of a prefetch: an honest spool, and the requested segment at the destination once
  its fetch has ended without an error.
\<close>

definition prefetch_inv ::
  "fileutils \<Rightarrow> WALSpool \<Rightarrow> ('r \<Rightarrow> string \<Rightarrow> string option) \<Rightarrow> (string \<Rightarrow> string option) \<Rightarrow> string \<Rightarrow> string \<Rightarrow>
   Restore_Result list \<times> 'r world \<Rightarrow> bool" where
  "prefetch_inv fu spool content m walName dest = (\<lambda>(rs, w). content (w_remote w) = m
     \<and> spool_true fu spool m (w_fs w)
     \<and> (rs \<noteq> [] \<and> rr_WalName (rs ! 0) \<noteq> '''' \<and> rr_Err (rs ! 0) = None
        \<longrightarrow> (\<exists>c. node_at (w_fs w) dest = Some (File c) \<and> m walName = Some c)))"

lemma prefetch_step:
  assumes inv: "prefetch_inv (h_fileutils h) (wr_spool r) content m walName dest (rs, w)"
    and ok: "archive_get_ok (h_pgbackrest h) own content" "\<And>p. path_clean p \<in> own \<Longrightarrow> outside_spool (wr_spool r) p"
    and dest: "outside_spool (wr_spool r) dest" "path_clean dest \<notin> own"
    and names: "fl ! 0 = walName" "i \<noteq> 0 \<longrightarrow> prefetch_name (fl ! i)"
  shows "prefetch_inv (h_fileutils h) (wr_spool r) content m walName dest (fetch_step h r fl dest os i (rs, w))"
proof -
  let ?sp = "wr_spool r" and ?d = "fetch_destination r dest i (fl ! i)"
  obtain q w' where q: "Restore_wal h r (fl ! i) ?d os w = (q, w')" by fastforce
  note true = Restore_wal_true [OF ok(1) q]
  have m: "content (w_remote w) = m" "content (w_remote w') = m" and st: "spool_true (h_fileutils h) ?sp m (w_fs w)"
    using inv true by (simp_all add: prefetch_inv_def)
  have own: "spool_true (h_fileutils h) ?sp m f \<Longrightarrow> same_but own f f' \<Longrightarrow> spool_true (h_fileutils h) ?sp m f'" for f f'
    by (rule spool_true_same_but [OF _ _ ok(2)])
  have keep: "same_but own f f' \<Longrightarrow> node_at f' dest = node_at f dest" for f f'
    using dest(2) by (simp add: same_but_def)
  show ?thesis
  proof (cases "i = 0")
    case True
    then have d: "?d = dest" by (simp add: fetch_destination_def)
    show ?thesis
    proof (cases "q = Ret ()")
      case ret: True
      with true m d True names(1) obtain c where c: "m walName = Some c"
        "same_but own (put_node dest (File c) (w_fs w)) (w_fs w')" by auto
      have "spool_true (h_fileutils h) ?sp m (w_fs w')" "node_at (w_fs w') dest = Some (File c)"
        using own [OF spool_true_put_outside [OF st dest(1)] c(2)] keep [OF c(2)] by simp_all
      with c m q True d show ?thesis by (auto simp: prefetch_inv_def fetch_step_def)
    next
      case False
      with true obtain e where e: "q = Fail e" "same_but own (w_fs w) (w_fs w')" by auto
      with own [OF st e(2)] m q True d show ?thesis by (auto simp: prefetch_inv_def fetch_step_def)
    qed
  next
    case False
    with names(2) obtain n where n: "plain_name n" "n \<noteq> endOfWALStreamFlagFilename" "TrimSuffix (fl ! i) ''.partial'' = n"
      "fl ! i \<in> {n, n @ ''.partial''}" by (auto simp: prefetch_name_def)
    have d: "?d = spool_file ?sp n" using False n(3) by (simp add: fetch_destination_spool)
    have ne: "path_clean (spool_file ?sp n) \<noteq> path_clean dest" using dest(1) n(1) by (auto simp: outside_spool_def)
    have "spool_true (h_fileutils h) ?sp m (w_fs w') \<and> node_at (w_fs w') dest = node_at (w_fs w) dest"
    proof (cases "q = Ret ()")
      case True
      with true m d obtain c where c: "m (fl ! i) = Some c"
        "same_but own (put_node (spool_file ?sp n) (File c) (w_fs w)) (w_fs w')" by auto
      have "held m n (Some (File c))" using c(1) n(4) by (auto simp: held_def)
      with own [OF spool_true_put [OF st n(1)] c(2)] keep [OF c(2)] ne show ?thesis by simp
    qed (use true own [OF st] keep in auto)
    with inv m q False show ?thesis by (simp add: prefetch_inv_def fetch_step_def)
  qed
qed

lemma prefetch_fold:
  assumes "prefetch_inv (h_fileutils h) (wr_spool r) content m walName dest (rs, w)" "set order \<subseteq> {..<length fl}"
    and "archive_get_ok (h_pgbackrest h) own content" "\<And>p. path_clean p \<in> own \<Longrightarrow> outside_spool (wr_spool r) p"
    and "outside_spool (wr_spool r) dest" "path_clean dest \<notin> own"
    and "fl ! 0 = walName" "\<forall>x \<in> set (tl fl). prefetch_name x"
  shows "prefetch_inv (h_fileutils h) (wr_spool r) content m walName dest (fold (fetch_step h r fl dest os) order (rs, w))"
  using assms(1,2)
proof (induction order arbitrary: rs w)
  case (Cons i order)
  have "i \<noteq> 0 \<longrightarrow> prefetch_name (fl ! i)" using Cons.prems(2) assms(8) by (cases fl; cases i) auto
  from prefetch_step [OF Cons.prems(1) assms(3-7) this] obtain rs' w' where
    s: "fetch_step h r fl dest os i (rs, w) = (rs', w')" "prefetch_inv (h_fileutils h) (wr_spool r) content m walName dest (rs', w')"
    by (metis prod.collapse)
  from Cons.IH [OF s(2)] Cons.prems(2) s(1) show ?case by simp
qed simp


lemma fetch_fold_first:
  assumes "rs \<noteq> []" "0 \<in> set order \<or> rr_WalName (rs ! 0) = fl ! 0"
  shows "fst (fold (fetch_step h r fl dest os) order (rs, w)) \<noteq> []
    \<and> rr_WalName (fst (fold (fetch_step h r fl dest os) order (rs, w)) ! 0) = fl ! 0"
  using assms
proof (induction order arbitrary: rs w)
  case (Cons i order)
  obtain rs' w' where s: "fetch_step h r fl dest os i (rs, w) = (rs', w')" by fastforce
  then have "rs' \<noteq> []" "rr_WalName (rs' ! 0) = (if i = 0 then fl ! 0 else rr_WalName (rs ! 0))"
    using Cons.prems(1) by (auto simp: fetch_step_def Let_def split_beta)
  with Cons.IH [of rs' w'] Cons.prems(2) s show ?case by (auto split: if_splits)
qed auto

lemma RestoreList_true:
  assumes "spool_true (h_fileutils h) (wr_spool r) (content (w_remote w)) (w_fs w)"
    and "archive_get_ok (h_pgbackrest h) own content" "\<And>p. path_clean p \<in> own \<Longrightarrow> outside_spool (wr_spool r) p"
    and "outside_spool (wr_spool r) dest" "path_clean dest \<notin> own"
    and "fl \<noteq> [] \<longrightarrow> hd fl = walName" "\<forall>x \<in> set (tl fl). prefetch_name x" "walName \<noteq> ''''"
    and "RestoreList h sched r fl dest os w = (results, w')"
  shows "content (w_remote w') = content (w_remote w)
    \<and> spool_true (h_fileutils h) (wr_spool r) (content (w_remote w)) (w_fs w')
    \<and> (results \<noteq> [] \<and> rr_Err (results ! 0) = None
       \<longrightarrow> (\<exists>c. node_at (w_fs w') dest = Some (File c) \<and> content (w_remote w) walName = Some c))"
proof (cases "fl = []")
  case False
  let ?rs = "replicate (length fl) \<lparr>rr_WalName = '''', rr_DestinationPath = '''', rr_Err = None\<rparr>"
  have start: "prefetch_inv (h_fileutils h) (wr_spool r) content (content (w_remote w)) walName dest (?rs, w)"
    using assms(1) False by (simp add: prefetch_inv_def)
  have "set (fetch_order sched (length fl)) \<subseteq> {..<length fl}" "0 \<in> set (fetch_order sched (length fl))"
    using False by (auto simp: fetch_order_set)
  with prefetch_fold [OF start this(1) assms(2-5) _ assms(7), of os] fetch_fold_first [of ?rs "fetch_order sched (length fl)" fl h r dest os w]
    assms(6,9) False hd_conv_nth [OF False]
  have "prefetch_inv (h_fileutils h) (wr_spool r) content (content (w_remote w)) walName dest (results, w')"
    and "rr_WalName (results ! 0) = walName" by (auto simp: RestoreList_def)
  with assms(8) show ?thesis by (auto simp: prefetch_inv_def)
qed (use assms in \<open>simp add: RestoreList_def fetch_order_def\<close>)

section \<open>The end-of-stream flag\<close>

lemma ready_of_true: "spool_true fu spool m fs \<Longrightarrow> spool_ready fu spool fs"
  by (simp add: spool_true_def)

lemma checkEndOfWALStreamFlag_true:
  assumes "spool_true (h_fileutils h) (wr_spool r) m fs"
  shows "outcome (\<lambda>_. spool_true (h_fileutils h) (wr_spool r) m) (spool_true (h_fileutils h) (wr_spool r) m)
    (checkEndOfWALStreamFlag h r fs)"
proof -
  have plain: "plain_name endOfWALStreamFlagFilename" using flag_name by (simp add: spool_name_def)
  show ?thesis
    using Remove_elems [OF ready_of_true [OF assms] flag_name(1)] spool_true_del [OF assms plain] assms
    by (simp add: checkEndOfWALStreamFlag_def IsEndOfWALStream_elems [OF ready_of_true [OF assms]]
        ResetEndOfWalStream_def flag_name)
qed

lemma SetEndOfWALStream_true:
  assumes "spool_true (h_fileutils h) (wr_spool r) m fs" "outside_spool (wr_spool r) dest"
  shows "\<exists>fs'. SetEndOfWALStream h r fs = (Ret (), fs') \<and> spool_true (h_fileutils h) (wr_spool r) m fs'
    \<and> node_at fs' dest = node_at fs dest"
proof -
  have plain: "plain_name endOfWALStreamFlagFilename" using flag_name by (simp add: spool_name_def)
  then have "path_clean (spool_file (wr_spool r) endOfWALStreamFlagFilename) \<noteq> path_clean dest"
    using assms(2) by (auto simp: outside_spool_def)
  then show ?thesis
    using Touch_elems [OF ready_of_true [OF assms(1)] flag_name(1)] spool_true_put [OF assms(1) plain] assms(1)
    by (simp add: SetEndOfWALStream_def IsEndOfWALStream_elems [OF ready_of_true [OF assms(1)]] flag_name)
qed

lemma finish_restore_true:
  assumes "spool_true (h_fileutils h) (wr_spool r) m (w_fs w)" "outside_spool (wr_spool r) dest"
    and "results \<noteq> [] \<and> rr_Err (results ! 0) = None \<longrightarrow> (\<exists>c. node_at (w_fs w) dest = Some (File c) \<and> m walName = Some c)"
  shows "outcome (\<lambda>_ w'. w_remote w' = w_remote w \<and> spool_true (h_fileutils h) (wr_spool r) m (w_fs w')
        \<and> held m walName (node_at (w_fs w') dest))
      (\<lambda>w'. w_remote w' = w_remote w \<and> spool_true (h_fileutils h) (wr_spool r) m (w_fs w'))
      (finish_restore h streaming r results w)"
proof (cases "results \<noteq> [] \<and> rr_Err (results ! 0) = None")
  case True
  then obtain res rest where res: "results = res # rest" "rr_Err res = None" by (cases results) auto
  obtain c where c: "node_at (w_fs w) dest = Some (File c)" "m walName = Some c" using True assms(3) by blast
  then have "held m walName (node_at (w_fs w) dest)" by (simp add: held_def)
  with SetEndOfWALStream_true [OF assms(1,2)] assms(1) res show ?thesis by (auto simp: finish_restore_def)
qed (use assms(1) in \<open>auto simp: finish_restore_def split: list.split option.split\<close>)


section \<open>A request\<close>

lemma credentials_true:
  assumes "spool_true fu spool m fs" "\<And>p. path_clean p \<in> restore_certificates \<Longrightarrow> outside_spool spool p"
    and "apart_dest spool own dest" "usable_dest fs dest"
  shows "outcome (\<lambda>_ fs'. spool_true fu spool m fs' \<and> usable_dest fs' dest) (spool_true fu spool m)
    (EnvSetRestoreCloudCredentials h ns cfg env fs)"
proof -
  obtain r fs' where e: "EnvSetRestoreCloudCredentials h ns cfg env fs = (r, fs')" by fastforce
  with same_but_credentials(2) [of fs h ns cfg env] have s: "same_but restore_certificates fs fs'" by simp
  with assms(3,4) have "usable_dest fs' dest" by (simp add: usable_dest_def apart_dest_def same_but_def)
  with spool_true_same_but [OF assms(1) s assms(2)] e show ?thesis by (cases r) simp_all
qed

lemma RestoreFromSpool_true:
  assumes "spool_true (h_fileutils h) (wr_spool r) m fs" "plain_name n" "n \<noteq> endOfWALStreamFlagFilename"
    and "usable_dest fs dest" "outside_spool (wr_spool r) dest"
  shows "outcome (\<lambda>b fs'. spool_true (h_fileutils h) (wr_spool r) m fs' \<and> (b \<longrightarrow> held m n (node_at fs' dest)))
    (spool_true (h_fileutils h) (wr_spool r) m) (RestoreFromSpool h r n dest fs)"
proof -
  obtain q fs' where q: "MoveOut (h_fileutils h) (wr_spool r) n dest fs = (q, fs')" by fastforce
  have "held m n (node_at fs (spool_file (wr_spool r) n))" if "node_at fs (spool_file (wr_spool r) n) \<noteq> None"
    using that assms(1-3) by (auto simp: spool_true_def spool_elems_def)
  with spool_true_MoveOut [OF assms(1,2,4,5)] q assms(1) show ?thesis
    by (cases q) (auto simp: RestoreFromSpool_def)
qed

lemma restoreFromPgbackrestArchive_true:
  assumes ready: "restoring_setup h svc own content" and name: "request_name walName"
    and dest: "apart_dest (service_spool svc) own dest" "usable_dest (w_fs w) dest"
    and inv: "content (w_remote w) = m" "spool_true (h_fileutils h) (service_spool svc) m (w_fs w)"
  defines "I \<equiv> \<lambda>w. content (w_remote w) = m \<and> spool_true (h_fileutils h) (service_spool svc) m (w_fs w)"
  shows "outcome (\<lambda>_ w'. I w' \<and> held m walName (node_at (w_fs w') dest)) I
    (restoreFromPgbackrestArchive h cn sched svc cluster archive stanza walName dest promotion w)"
proof -
  let ?spool = "service_spool svc"
  have plain: "plain_name walName" "walName \<noteq> endOfWALStreamFlagFilename" "walName \<noteq> ''''"
    using name by (auto simp: request_name_def plain_name_def)
  have out: "outside_spool ?spool dest" "path_clean dest \<notin> own" using dest(1) by (auto simp: apart_dest_def)
  have get: "archive_get_ok (h_pgbackrest h) own content"
    and own: "path_clean p \<in> own \<Longrightarrow> outside_spool ?spool p"
    and cert: "path_clean p \<in> restore_certificates \<Longrightarrow> outside_spool ?spool p" for p
    using ready by (auto simp: restoring_setup_def)
  have fetch: "outcome (\<lambda>_ w'. I w' \<and> held m walName (node_at (w_fs w') dest)) I
      (let (walStatus, w) = RestoreList h sched r names dest options w in finish_restore h streaming r walStatus w)"
    if "I w" "wr_spool r = ?spool" "wal_files_list cfg walName promotion = Ret names" for r names options w streaming cfg
  proof -
    obtain results w1 where l: "RestoreList h sched r names dest options w = (results, w1)" by fastforce
    note n = wal_files_list_names [OF that(3) name]
    have "spool_true (h_fileutils h) (wr_spool r) (content (w_remote w)) (w_fs w)" using that by (simp add: I_def)
    from RestoreList_true [OF this get _ _ out(2) n [THEN conjunct1] n [THEN conjunct2] plain(3) l] that own out(1)
    have t: "content (w_remote w1) = m" "spool_true (h_fileutils h) ?spool m (w_fs w1)"
      "results \<noteq> [] \<and> rr_Err (results ! 0) = None \<longrightarrow> (\<exists>c. node_at (w_fs w1) dest = Some (File c) \<and> m walName = Some c)"
      by (auto simp: I_def)
    show ?thesis unfolding l using finish_restore_true [of h r m w1 dest results walName streaming] t that(2) out(1)
      by (auto simp: I_def elim!: outcome_mono)
  qed
  have flag: "outcome (\<lambda>_. I) I (if streaming then on_files (checkEndOfWALStreamFlag h r) w else (Ret (), w))"
    if "I w" "wr_spool r = ?spool" for r w streaming
    using checkEndOfWALStreamFlag_true [of h r m "w_fs w"] that by (auto simp: I_def elim!: outcome_mono)
  have spooled: "outcome (\<lambda>b w'. I w' \<and> (b \<longrightarrow> held m walName (node_at (w_fs w') dest))) I
      (wrapW msg (on_files (RestoreFromSpool h r walName dest) w))"
    if "I w" "usable_dest (w_fs w) dest" "wr_spool r = ?spool" for r w msg
    using RestoreFromSpool_true [of h r m "w_fs w" walName dest] that plain out by (auto simp: I_def elim!: outcome_mono)
  have new: "outcome (\<lambda>r w'. I w' \<and> usable_dest (w_fs w') dest \<and> wr_spool r = ?spool) I
      (wrapW msg (on_files (NewWALRestorer h env (svc_SpoolDirectory svc)) w))"
    if "I w" "usable_dest (w_fs w) dest" for env w msg
    using that NewWALRestorer_existing [of h "svc_SpoolDirectory svc" "w_fs w" env] by (simp add: I_def spool_true_def)
  have cred: "outcome (\<lambda>_ w'. I w' \<and> usable_dest (w_fs w') dest) I
      (wrapW msg (on_files (EnvSetRestoreCloudCredentials h ns cfg env) w))" for msg ns cfg env
    using credentials_true [OF inv(2) cert dest, of h ns cfg env] inv(1) by (auto simp: I_def elim!: outcome_mono)
  have list: "outcome (\<lambda>_ w'. I w' \<and> held m walName (node_at (w_fs w') dest)) I
      (bindW (wal_files_list cfg walName promotion, w) (\<lambda>names w.
         let (walStatus, w) = RestoreList h sched r names dest options w in finish_restore h streaming r walStatus w))"
    if "I w" "wr_spool r = ?spool" for r options w cfg streaming
    by (intro outcome_bindW_pure fetch that)
  have rest: "outcome (\<lambda>_ w'. I w' \<and> held m walName (node_at (w_fs w') dest)) I
      (bindW (isStreamingAvailable cn cluster (svc_InstanceName svc), w) (\<lambda>streaming w.
       bindW (if streaming then on_files (checkEndOfWALStreamFlag h r) w else (Ret (), w)) (\<lambda>_ w.
       bindW (wal_files_list cfg walName promotion, w) (\<lambda>names w.
         let (walStatus, w) = RestoreList h sched r names dest options w in finish_restore h streaming r walStatus w))))"
    if "I w" "wr_spool r = ?spool" for r options w cfg
    by (intro outcome_bindW_pure outcome_bindW [OF flag [OF that]] list that)
  show ?thesis
    unfolding restoreFromPgbackrestArchive_def Let_def
    by (rule outcome_bindW [OF cred], rule outcome_bindW_pure, simp, rule outcome_bindW [OF new], simp, simp,
        rule outcome_bindW [OF spooled], simp, simp, simp) (use rest in \<open>auto simp: Let_def\<close>)
qed


text \<open>A request keeps the spool honest, and when it succeeds the destination has what the archive holds.\<close>

lemma Service_Restore_true:
  assumes "restoring_setup h svc own content" "request_name walName"
    and "apart_dest (service_spool svc) own dest" "usable_dest (w_fs w) dest"
    and "content (w_remote w) = m" "spool_true (h_fileutils h) (service_spool svc) m (w_fs w)"
  shows "outcome (\<lambda>_ w'. (content (w_remote w') = m \<and> spool_true (h_fileutils h) (service_spool svc) m (w_fs w'))
        \<and> held m walName (node_at (w_fs w') dest))
      (\<lambda>w'. content (w_remote w') = m \<and> spool_true (h_fileutils h) (service_spool svc) m (w_fs w'))
      (Service_Restore h cn sched svc def walName dest w)"
  unfolding Service_Restore_def Let_def split_beta
  by (intro outcome_bindW_pure restoreFromPgbackrestArchive_true [OF assms] conjI assms(5,6))

section \<open>What the archive holds is delivered\<close>

text \<open>As documented, a fetch of a segment the archive holds ends with success.\<close>

definition archive_get_available :: "'r executable \<Rightarrow> ('r \<Rightarrow> string \<Rightarrow> string option) \<Rightarrow> bool" where
  "archive_get_available exec content \<longleftrightarrow>
     (\<forall>os n dest env fs r. content r n \<noteq> None \<longrightarrow> (\<exists>out. fst (exec (get_options os n dest) env fs r) = ProcOk out))"

lemma Restore_wal_available:
  assumes "archive_get_available (h_pgbackrest h) content" "content (w_remote w) n \<noteq> None" "int (length os) < MaxInt - 3"
  shows "fst (Restore_wal h r n d os w) = Ret ()"
proof -
  obtain pr f s where e: "h_pgbackrest h (get_options os n d) (wr_env r) (w_fs w) (w_remote w) = (pr, f, s)"
    by (metis prod.collapse)
  then obtain out where "pr = ProcOk out" using assms(1,2) unfolding archive_get_available_def by (metis fst_conv)
  with e assms(3) show ?thesis by (simp add: Restore_wal_def run_streaming_def run_pgbackrest_def)
qed

lemma fetch_fold_available:
  assumes "archive_get_ok (h_pgbackrest h) own content" "archive_get_available (h_pgbackrest h) content"
    and "content (w_remote w) (fl ! 0) \<noteq> None" "int (length os) < MaxInt - 3" "rs \<noteq> []" "rr_Err (rs ! 0) = None"
  shows "rr_Err (fst (fold (fetch_step h r fl dest os) order (rs, w)) ! 0) = None"
  using assms(3,5,6)
proof (induction order arbitrary: rs w)
  case (Cons i order)
  let ?d = "fetch_destination r dest i (fl ! i)"
  obtain q w' where q: "Restore_wal h r (fl ! i) ?d os w = (q, w')" by fastforce
  have c: "content (w_remote w') = content (w_remote w)" using Restore_wal_true [OF assms(1) q] by blast
  have "i = 0 \<longrightarrow> q = Ret ()" using Restore_wal_available [OF assms(2) _ assms(4), of w "fl ! 0" r ?d] Cons.prems(1) q by auto
  then have "rr_Err (rs[i := \<lparr>rr_WalName = fl ! i, rr_DestinationPath = ?d, rr_Err = go_error q\<rparr>] ! 0) = None"
    using Cons.prems(2,3) by (cases "i = 0") simp_all
  with Cons.IH [of w' "rs[i := \<lparr>rr_WalName = fl ! i, rr_DestinationPath = ?d, rr_Err = go_error q\<rparr>]"] Cons.prems c q
  show ?case by (simp add: fetch_step_def)
qed simp

lemma RestoreList_available:
  assumes "archive_get_ok (h_pgbackrest h) own content" "archive_get_available (h_pgbackrest h) content"
    and "content (w_remote w) first \<noteq> None" "int (length options) < MaxInt - 3"
    and "RestoreList h sched r (first # names) dest options w = (results, w')"
  shows "results \<noteq> [] \<and> rr_Err (results ! 0) = None"
  using fetch_fold_available [OF assms(1,2) _ assms(4), of w "first # names"
      "replicate (length (first # names)) \<lparr>rr_WalName = [], rr_DestinationPath = [], rr_Err = None\<rparr>" r dest
      "fetch_order sched (length (first # names))"] RestoreList_slots(1) [OF assms(4,5)] assms(3,5)
  by (auto simp: RestoreList_def)

lemma finish_restore_Ret:
  assumes "spool_true (h_fileutils h) (wr_spool r) m (w_fs w)" "results \<noteq> []" "rr_Err (results ! 0) = None"
  shows "fst (finish_restore h streaming r results w) = Ret ()"
proof -
  obtain res rest where "results = res # rest" "rr_Err res = None" using assms(2,3) by (cases results) auto
  moreover have "fst (SetEndOfWALStream h r (w_fs w)) = Ret ()"
    using SetEndOfWALStream_elems [OF ready_of_true [OF assms(1)]] by auto
  ultimately show ?thesis by (simp add: finish_restore_def)
qed

text \<open>Once the credentials are set, from the files \<open>fs'\<close> they left.\<close>

lemma Service_Restore_succeeds:
  assumes "restoring_setup h svc own content" "archive_get_available (h_pgbackrest h) content"
    and "restore_env h cn svc def w configuration archive promotion env options fs'" "int (length options) < MaxInt - 3"
    and "isStreamingAvailable cn (Some (pc_Cluster configuration)) (svc_InstanceName svc) = Ret streaming"
    and "wal_files_list (archive_cfg archive) walName promotion = Ret (first # names)"
    and "request_name walName" "apart_dest (service_spool svc) own dest"
    and st: "spool_true (h_fileutils h) (service_spool svc) (content (w_remote w)) fs'" and dest: "usable_dest fs' dest"
    and flag: "endOfWALStreamFlagFilename \<notin> spool_elems (service_spool svc) fs'"
    and held: "content (w_remote w) walName \<noteq> None"
  shows "fst (Service_Restore h cn sched svc def walName dest w) = Ret ()"
proof -
  let ?sp = "service_spool svc" and ?m = "content (w_remote w)"
  let ?r = "\<lparr>wr_spool = ?sp, wr_env = env\<rparr>" and ?w = "w\<lparr>w_fs := fs'\<rparr>"
  have get: "archive_get_ok (h_pgbackrest h) own content" using assms(1) by (simp add: restoring_setup_def)
  have plain: "plain_name walName" using assms(7) by (simp add: request_name_def)
  note ready = ready_of_true [OF st]
  have out: "\<forall>n. plain_name n \<longrightarrow> path_clean dest \<noteq> spool_file ?sp n"
    using assms(8) ready by (auto simp: apart_dest_def outside_spool_def spool_ready_def)
  show ?thesis
  proof (cases "walName \<in> spool_elems ?sp fs'")
    case True
    with RestoreFromSpool_serves [of h ?r fs' walName dest] ready plain dest out obtain fs2 where
      "RestoreFromSpool h ?r walName dest fs' = (Ret True, fs2)" by (auto simp: usable_dest_def)
    then show ?thesis unfolding Service_Restore_unfold [OF assms(3)] by (simp add: on_files_def NewWALRestorer_existing [OF ready])
  next
    case False
    then have "MoveOut (h_fileutils h) ?sp walName dest fs' = (Fail ErrorNonExistentFile, fs')"
      using plain by (intro MoveOut_absent [OF ready plain]) (simp add: spool_elems_def)
    then have no: "RestoreFromSpool h ?r walName dest fs' = (Ret False, fs')" by (simp add: RestoreFromSpool_def)
    have chk: "checkEndOfWALStreamFlag h ?r fs' = (Ret (), fs')"
      using IsEndOfWALStream_elems [of h ?r fs'] ready flag by (simp add: checkEndOfWALStreamFlag_def)
    obtain results w1 where l: "RestoreList h sched ?r (first # names) dest options ?w = (results, w1)" by fastforce
    note n = wal_files_list_names [OF assms(6,7)]
    then have first: "first = walName" by simp
    have "results \<noteq> [] \<and> rr_Err (results ! 0) = None"
      using RestoreList_available [OF get assms(2) _ assms(4) l] held first by simp
    moreover have "spool_true (h_fileutils h) ?sp ?m (w_fs w1)"
      using RestoreList_true [of h ?r content ?w own dest "first # names" walName sched options results w1] st get assms(1,8) n plain l
      by (auto simp: restoring_setup_def apart_dest_def plain_name_def)
    ultimately have "fst (finish_restore h streaming ?r results w1) = Ret ()" by (intro finish_restore_Ret) simp_all
    then show ?thesis unfolding Service_Restore_unfold [OF assms(3)]
      using l by (cases streaming) (simp_all add: on_files_def NewWALRestorer_existing [OF ready] no chk assms(5,6))
  qed
qed


section \<open>Runs\<close>

text \<open>
  A step of the world and of the list of what was handed out: a restore request, under any
  schedule and for any cluster, answered in any way; or anything that leaves the spool alone and
  only adds to the archive.
\<close>

inductive restore_step ::
  "'r host \<Rightarrow> cnpg \<Rightarrow> WALServiceImplementation \<Rightarrow> string set \<Rightarrow> ('r \<Rightarrow> string \<Rightarrow> string option) \<Rightarrow>
   'r world \<times> (string \<times> node option) list \<Rightarrow> 'r world \<times> (string \<times> node option) list \<Rightarrow> bool"
  for h cn svc own content where
  step_others: "same_spool (service_spool svc) (w_fs w) (w_fs w') \<Longrightarrow> content (w_remote w) \<subseteq>\<^sub>m content (w_remote w') \<Longrightarrow>
     restore_step h cn svc own content (w, log) (w', log)"
| step_request: "request_name walName \<Longrightarrow> apart_dest (service_spool svc) own dest \<Longrightarrow> usable_dest (w_fs w) dest \<Longrightarrow>
     Service_Restore h cn sched svc def walName dest w = (r, w') \<Longrightarrow>
     restore_step h cn svc own content (w, log)
       (w', if r = Ret () then (walName, node_at (w_fs w') dest) # log else log)"

inductive_cases restore_stepE: "restore_step h cn svc own content (w, log) s"

definition restore_inv ::
  "'r host \<Rightarrow> WALServiceImplementation \<Rightarrow> string set \<Rightarrow> ('r \<Rightarrow> string \<Rightarrow> string option) \<Rightarrow>
   'r world \<times> (string \<times> node option) list \<Rightarrow> bool" where
  "restore_inv h svc own content = (\<lambda>(w, log). restoring_setup h svc own content \<longrightarrow>
     spool_true (h_fileutils h) (service_spool svc) (content (w_remote w)) (w_fs w)
     \<and> (\<forall>(n, x) \<in> set log. held (content (w_remote w)) n x))"

lemma held_mono: "held m n x \<Longrightarrow> m \<subseteq>\<^sub>m m' \<Longrightarrow> held m' n x"
  by (force simp: held_def map_le_def dom_def)

lemma spool_true_mono: "spool_true fu spool m fs \<Longrightarrow> m \<subseteq>\<^sub>m m' \<Longrightarrow> spool_true fu spool m' fs"
  by (auto simp: spool_true_def intro: held_mono)

interpretation restore_runs: step_invariant "restore_step h cn svc own content" "restore_inv h svc own content"
  for h cn svc own content
proof
  fix s t assume inv: "restore_inv h svc own content s" and step: "restore_step h cn svc own content s t"
  obtain w log where s: "s = (w, log)" by fastforce
  from step [unfolded s] show "restore_inv h svc own content t"
  proof (elim restore_stepE)
    fix w' assume t: "t = (w', log)" and "same_spool (service_spool svc) (w_fs w) (w_fs w')"
      "content (w_remote w) \<subseteq>\<^sub>m content (w_remote w')"
    with inv s show ?thesis
      by (auto simp: restore_inv_def intro: held_mono spool_true_mono [OF spool_true_same])
  next
    fix walName dest sched def r w'
    assume t: "t = (w', if r = Ret () then (walName, node_at (w_fs w') dest) # log else log)"
      and req: "request_name walName" "apart_dest (service_spool svc) own dest" "usable_dest (w_fs w) dest"
      and r: "Service_Restore h cn sched svc def walName dest w = (r, w')"
    have "content (w_remote w') = content (w_remote w)
        \<and> spool_true (h_fileutils h) (service_spool svc) (content (w_remote w)) (w_fs w')
        \<and> (r = Ret () \<longrightarrow> held (content (w_remote w)) walName (node_at (w_fs w') dest))"
      if "restoring_setup h svc own content"
      using Service_Restore_true [OF that req refl, of cn sched def] inv s that r
      by (cases r) (auto simp: restore_inv_def)
    with inv s t show ?thesis by (auto simp: restore_inv_def)
  qed
qed



section \<open>An example\<close>

text \<open>An executable over a list of segments with their contents, and an Archive with a prefetch of two.\<close>

definition get_store :: "(string \<times> string) list executable" where
  "get_store argv env fs r =
     (case rev argv of
        dest # n # cmd # _ \<Rightarrow>
          (case map_of r n of
             Some c \<Rightarrow> (ProcOk '''', put_node dest (File c) fs, r)
           | None \<Rightarrow> (ProcExit 1, fs, r))
      | _ \<Rightarrow> (ProcOk '''', fs, r))"

definition prefetch_archive :: Archive where
  "prefetch_archive = service_archive\<lparr>arch_Spec := (arch_Spec service_archive)\<lparr>spec_Configuration :=
     (spec_Configuration (arch_Spec service_archive))\<lparr>cfg_Wal := Some \<lparr>wal_MaxParallel = 2,
       wal_ArchiveAdditionalCommandArgs = [], wal_RestoreAdditionalCommandArgs = []\<rparr>\<rparr>\<rparr>\<rparr>"

definition get_host :: "(string \<times> string) list host" where
  "get_host = \<lparr>h_pgbackrest = get_store, h_fileutils = posix_fileutils, h_environ = [''PGDATA=/pg''],
     h_get_secret = secrets_example, h_get_archive = (\<lambda>ns n. Ret prefetch_archive), h_parse_json = h_parse_json info_host\<rparr>"

definition get_world :: "(string \<times> string) list world" where
  "get_world = \<lparr>w_fs = del_node (spool_file spool_example ''B'') fs_example,
     w_remote = [(''000000010000000000000001'', ''one''), (''000000010000000000000002'', ''two'')], w_ran = []\<rparr>"

lemma restoring_example: "restoring_setup get_host (service_example ''c-2'') {} map_of"
proof -
  have "archive_get_ok get_store {} map_of"
    by (auto simp: archive_get_ok_def get_store_def get_options_def split: option.splits)
  moreover have "service_spool (service_example ''c-2'') = spool_example"
    by (simp add: service_example_def spool_example_def)
  ultimately show ?thesis using certificates_example by (auto simp: restoring_setup_def get_host_def)
qed

definition first_answer :: "unit go \<times> (string \<times> string) list world" where
  "first_answer = Service_Restore get_host cnpg_example [1, 0] (service_example ''c-2'') [] ''000000010000000000000001'' ''/d/1'' get_world"

definition second_answer :: "unit go \<times> (string \<times> string) list world" where
  "second_answer = Service_Restore get_host cnpg_example [] (service_example ''c-2'') [] ''000000010000000000000002'' ''/d/2'' (snd first_answer)"

lemma answers_example:
  "returns (fst first_answer)" "returns (fst second_answer)" "length (w_ran (snd second_answer)) = 2"
  "map (map_of (w_remote (snd second_answer))) [''000000010000000000000002'', ''000000010000000000000002.partial''] = [Some ''two'', None]"
  "usable_dest (w_fs get_world) ''/d/1''" "usable_dest (w_fs (snd first_answer)) ''/d/2''"
  by code_simp+

lemma dest_example:
  assumes "n \<in> {''1'', ''2''}"
  shows "apart_dest spool_example {} (''/d/'' @ n)"
proof -
  have c: "path_clean (''/d/'' @ n) = ''/d/'' @ n" "path_clean (path_dir (''/d/'' @ n)) = ''/d''"
    using assms by (auto simp: path_dir_def upto_last_slash_def path_clean_def clean_step_def)
  have "path_clean p \<notin> restore_certificates" if "path_clean p \<in> {''/d'', ''/d/'' @ n}" for p
    using certificate_paths_cases [of p] that by auto
  with c have "{path_clean (''/d/'' @ n), path_clean (path_dir (''/d/'' @ n))} \<inter> restore_certificates = {}"
    by (metis disjoint_insert(1) inf_bot_left insertI1 insertI2 Int_insert_left)
  moreover have "outside_spool spool_example (''/d/'' @ n)" using c(1) by (intro outside_spool_example) simp_all
  ultimately show ?thesis by (simp add: apart_dest_def)
qed


lemma get_restore_env:
  "\<exists>env options. restore_env get_host cnpg_example (service_example ''c-2'') [] get_world
     (NewFromCluster cnpg_example cluster_example) prefetch_archive False env options (w_fs get_world)
     \<and> int (length options) < MaxInt - 3"
proof -
  let ?c = "NewFromCluster cnpg_example cluster_example"
  let ?r = "EnvSetRestoreCloudCredentials get_host ''ns'' (archive_cfg prefetch_archive) (SanitizedEnviron get_host) (w_fs get_world)"
  have "returns (fst ?r) \<and> snd ?r = w_fs get_world" by code_simp
  then obtain env where env: "?r = (Ret env, w_fs get_world)" by (cases ?r; cases "fst ?r") auto
  have s: "restore_source cnpg_example (service_example ''c-2'') ?c = (pc_Stanza ?c, GetArchiveObjectKey ?c, False)"
    by (simp add: restore_source_def cnpg_example_def cluster_example_def NewFromCluster_def Let_def)
  have "case CloudWalRestoreOptions (archive_cfg prefetch_archive) (pc_Stanza ?c) ''/pg'' of
      Ret options \<Rightarrow> length options < 100 | _ \<Rightarrow> False" by code_simp
  then obtain options where o: "CloudWalRestoreOptions (archive_cfg prefetch_archive) (pc_Stanza ?c) ''/pg'' = Ret options"
    "int (length options) < MaxInt - 3" by (auto simp: MaxInt_def split: go.splits)
  have "arch_Namespace prefetch_archive = ''ns''"
    by (simp add: prefetch_archive_def service_archive_def archive_example_def)
  then have "restore_env get_host cnpg_example (service_example ''c-2'') [] get_world ?c prefetch_archive False env options
      (w_fs get_world)"
    using env s o(1) by (simp add: restore_env_def NewFromClusterJSON_def)
      (simp add: cnpg_example_def get_host_def service_example_def)
  with o(2) show ?thesis by blast
qed


end
