(* ===== verification/Restore_Order.thy ===== *)
theory Restore_Order
  imports Restore_Run
begin

text \<open>
  The parallel prefetch (\<open>RestoreList\<close> of \<open>Wal_Restorer\<close>) against a program that fetches the same
  segments one after the other: whatever order the goroutines run in, the results and the files are
  those of the sequential program. Of pgBackRest this asks that it fails exactly for what the archive
  does not hold.
\<close>

section \<open>The sequential program\<close>

fun fetch_in_turn ::
  "(string \<Rightarrow> string option) \<Rightarrow> (string \<times> string) list \<Rightarrow> fs \<Rightarrow> Restore_Result list \<times> fs" where
  "fetch_in_turn archive [] fs = ([], fs)"
| "fetch_in_turn archive ((walName, dest) # segments) fs =
     (let (err, fs) = (case archive walName of None \<Rightarrow> (Some ErrWALNotFound, fs)
                       | Some c \<Rightarrow> (None, put_node dest (File c) fs));
          (results, fs) = fetch_in_turn archive segments fs
      in (\<lparr>rr_WalName = walName, rr_DestinationPath = dest, rr_Err = err\<rparr> # results, fs))"

definition fetch_plan :: "WALRestorer \<Rightarrow> string \<Rightarrow> string list \<Rightarrow> (string \<times> string) list" where
  "fetch_plan restorer dest fetchList =
     map (\<lambda>i. (fetchList ! i, fetch_destination restorer dest i (fetchList ! i))) [0..<length fetchList]"

text \<open>pgBackRest exits with status 1 for a segment the archive does not hold.\<close>

definition archive_get_missing :: "'r executable \<Rightarrow> ('r \<Rightarrow> string \<Rightarrow> string option) \<Rightarrow> bool" where
  "archive_get_missing exec content \<longleftrightarrow> (\<forall>os n dest env fs r pr s. exec (get_options os n dest) env fs r = (pr, s) \<longrightarrow>
     content r n = None \<longrightarrow> pr = ProcExit 1)"

section \<open>What the segments of a set write\<close>

definition written ::
  "string set \<Rightarrow> (string \<Rightarrow> string option) \<Rightarrow> (string \<times> string) set \<Rightarrow> fs \<Rightarrow> fs \<Rightarrow> bool" where
  "written own archive X fs fs' \<longleftrightarrow> denied fs' = denied fs
     \<and> (\<forall>(n, d) \<in> X. \<forall>c. archive n = Some c \<longrightarrow> node_at fs' d = Some (File c))
     \<and> (\<forall>p. path_clean p \<notin> own \<longrightarrow> (\<forall>(n, d) \<in> X. archive n \<noteq> None \<longrightarrow> path_clean d \<noteq> path_clean p) \<longrightarrow>
          node_at fs' p = node_at fs p)"

lemma node_at_clean: "path_clean p = path_clean q \<Longrightarrow> node_at fs p = node_at fs q"
  by (simp add: node_at_def)

lemma written_none: "written own archive {} fs fs"
  by (simp add: written_def)

lemma written_insert:
  assumes "written own archive {(n, d)} fs fs1" "written own archive X fs1 fs2"
    and "path_clean d \<notin> own" "path_clean d \<notin> (path_clean \<circ> snd) ` X"
  shows "written own archive (insert (n, d) X) fs fs2"
proof -
  have "node_at fs2 d = node_at fs1 d" using assms(2-4) by (force simp: written_def)
  with assms(1,2) show ?thesis unfolding written_def by (auto split: prod.splits)
qed

text \<open>These facts leave no choice outside of pgBackRest's own files.\<close>

lemma written_unique:
  assumes "written own archive X fs a" "written {} archive X fs b" "\<forall>(n, d) \<in> X. path_clean d \<notin> own"
  shows "same_but own b a"
proof -
  have "node_at a p = node_at b p" if p: "path_clean p \<notin> own" for p
  proof (cases "\<exists>(n, d) \<in> X. archive n \<noteq> None \<and> path_clean d = path_clean p")
    case True
    then obtain n d c where "(n, d) \<in> X" "archive n = Some c" "path_clean d = path_clean p" by auto
    with assms(1,2) have "node_at a d = Some (File c)" "node_at b d = Some (File c)" by (auto simp: written_def)
    with \<open>path_clean d = path_clean p\<close> show ?thesis using node_at_clean by metis
  next
    case False
    with assms(1,2) p have "node_at a p = node_at fs p" "node_at b p = node_at fs p"
      unfolding written_def by (force)+
    then show ?thesis by simp
  qed
  moreover have "denied a = denied b" using assms(1,2) by (simp add: written_def)
  ultimately show ?thesis by (simp add: same_but_def)
qed

lemma fetch_in_turn_spec:
  assumes "distinct (map (path_clean \<circ> snd) plan)"
  shows "fst (fetch_in_turn archive plan fs) = map (\<lambda>(n, d). \<lparr>rr_WalName = n, rr_DestinationPath = d,
        rr_Err = (if archive n = None then Some ErrWALNotFound else None)\<rparr>) plan
    \<and> written {} archive (set plan) fs (snd (fetch_in_turn archive plan fs))"
  using assms
proof (induction plan arbitrary: fs)
  case Nil
  show ?case by (simp add: written_none)
next
  case (Cons x plan)
  obtain n d where x: "x = (n, d)" by fastforce
  let ?fs1 = "case archive n of None \<Rightarrow> fs | Some c \<Rightarrow> put_node d (File c) fs"
  have step: "fetch_in_turn archive (x # plan) fs =
      (\<lparr>rr_WalName = n, rr_DestinationPath = d, rr_Err = (if archive n = None then Some ErrWALNotFound else None)\<rparr>
         # fst (fetch_in_turn archive plan ?fs1), snd (fetch_in_turn archive plan ?fs1))"
    by (simp add: x split_beta split: option.split)
  have one: "written {} archive {(n, d)} fs ?fs1" by (cases "archive n") (simp_all add: written_def fun_eq_iff)
  have "distinct (map (path_clean \<circ> snd) plan)" using Cons.prems by (simp add: o_def)
  note ih = Cons.IH [OF this, of ?fs1]
  have "path_clean d \<notin> (path_clean \<circ> snd) ` set plan" using Cons.prems x by simp
  from written_insert [OF one conjunct2 [OF ih] emptyE [THEN notI] this]
  have "written {} archive (insert (n, d) (set plan)) fs (snd (fetch_in_turn archive plan ?fs1))" .
  with ih show ?case unfolding step fst_conv snd_conv by (simp only: x list.map list.set prod.case simp_thms)
qed

section \<open>The goroutines\<close>

lemma fetch_step_exact:
  assumes "archive_get_ok (h_pgbackrest h) own content" "archive_get_available (h_pgbackrest h) content"
    and "archive_get_missing (h_pgbackrest h) content" "int (length options) < MaxInt - 3"
    and "fetch_step h r fl dest options i (rs, w) = (rs', w')"
  shows "content (w_remote w') = content (w_remote w)"
    and "rs' = rs[i := \<lparr>rr_WalName = fl ! i, rr_DestinationPath = fetch_destination r dest i (fl ! i),
           rr_Err = (if content (w_remote w) (fl ! i) = None then Some ErrWALNotFound else None)\<rparr>]"
    and "path_clean (fetch_destination r dest i (fl ! i)) \<notin> own \<Longrightarrow>
         written own (content (w_remote w)) {(fl ! i, fetch_destination r dest i (fl ! i))} (w_fs w) (w_fs w')"
proof -
  let ?d = "fetch_destination r dest i (fl ! i)" and ?m = "content (w_remote w)"
  obtain q where q: "Restore_wal h r (fl ! i) ?d options w = (q, w')" and rs': "rs' = rs[i := \<lparr>rr_WalName = fl ! i,
      rr_DestinationPath = ?d, rr_Err = go_error q\<rparr>]"
    using assms(5) by (auto simp: fetch_step_def Let_def split: prod.splits)
  note true = Restore_wal_true [OF assms(1) q]
  show "content (w_remote w') = ?m" using true by blast
  have q_found: "q = Ret ()" if "?m (fl ! i) \<noteq> None"
    using Restore_wal_available [OF assms(2) that assms(4), of r ?d] q by simp
  have q_missing: "q = Fail ErrWALNotFound" if "?m (fl ! i) = None"
  proof -
    obtain pr s where "h_pgbackrest h (get_options options (fl ! i) ?d) (wr_env r) (w_fs w) (w_remote w) = (pr, s)"
      by (metis prod.collapse)
    moreover from this that assms(3) have "pr = ProcExit 1" unfolding archive_get_missing_def by blast
    ultimately show ?thesis using q assms(4)
      by (auto simp: Restore_wal_def run_streaming_def run_pgbackrest_def walRestoreError_def walNotFoundExitCode_def
          split: prod.splits)
  qed
  show "rs' = rs[i := \<lparr>rr_WalName = fl ! i, rr_DestinationPath = ?d,
      rr_Err = (if ?m (fl ! i) = None then Some ErrWALNotFound else None)\<rparr>]"
    using rs' q_found q_missing by (cases "?m (fl ! i)") auto
  assume own: "path_clean ?d \<notin> own"
  show "written own ?m {(fl ! i, ?d)} (w_fs w) (w_fs w')"
  proof (cases "?m (fl ! i)")
    case None
    with true q_missing have "same_but own (w_fs w) (w_fs w')" by simp
    with None show ?thesis by (simp add: written_def same_but_def)
  next
    case (Some c)
    with true q_found have "same_but own (put_node ?d (File c) (w_fs w)) (w_fs w')" by simp
    with Some own show ?thesis by (auto simp: written_def same_but_def)
  qed
qed

lemma fetch_fold_exact:
  assumes "archive_get_ok (h_pgbackrest h) own content" "archive_get_available (h_pgbackrest h) content"
    and "archive_get_missing (h_pgbackrest h) content" "int (length options) < MaxInt - 3"
    and "distinct (map (\<lambda>i. path_clean (fetch_destination r dest i (fl ! i))) order)" "set order \<subseteq> {..<length rs}"
    and "\<And>i. i \<in> set order \<Longrightarrow> path_clean (fetch_destination r dest i (fl ! i)) \<notin> own"
    and "fold (fetch_step h r fl dest options) order (rs, w) = (results, w')"
  shows "length results = length rs
    \<and> (\<forall>i < length rs. results ! i = (if i \<in> set order
         then \<lparr>rr_WalName = fl ! i, rr_DestinationPath = fetch_destination r dest i (fl ! i),
           rr_Err = (if content (w_remote w) (fl ! i) = None then Some ErrWALNotFound else None)\<rparr> else rs ! i))
    \<and> written own (content (w_remote w)) ((\<lambda>i. (fl ! i, fetch_destination r dest i (fl ! i))) ` set order) (w_fs w) (w_fs w')"
  using assms(5-8)
proof (induction order arbitrary: rs w)
  case Nil
  then show ?case by (simp add: written_none)
next
  case (Cons i order)
  obtain rs1 w1 where s: "fetch_step h r fl dest options i (rs, w) = (rs1, w1)" by fastforce
  note step = fetch_step_exact [OF assms(1-4) s]
  have fold: "fold (fetch_step h r fl dest options) order (rs1, w1) = (results, w')" using Cons.prems(4) s by simp
  have len: "length rs1 = length rs" using step(2) by simp
  have ih: "length results = length rs1
    \<and> (\<forall>j < length rs1. results ! j = (if j \<in> set order
         then \<lparr>rr_WalName = fl ! j, rr_DestinationPath = fetch_destination r dest j (fl ! j),
           rr_Err = (if content (w_remote w) (fl ! j) = None then Some ErrWALNotFound else None)\<rparr> else rs1 ! j))
    \<and> written own (content (w_remote w)) ((\<lambda>j. (fl ! j, fetch_destination r dest j (fl ! j))) ` set order) (w_fs w1) (w_fs w')"
    using Cons.IH [OF _ _ _ fold] Cons.prems(1-3) len by (simp add: step(1))
  have own: "path_clean (fetch_destination r dest i (fl ! i)) \<notin> own" using Cons.prems(3) by simp
  have "path_clean (fetch_destination r dest i (fl ! i))
      \<notin> (path_clean \<circ> snd) ` (\<lambda>j. (fl ! j, fetch_destination r dest j (fl ! j))) ` set order"
    using Cons.prems(1) by (auto simp: image_image)
  with written_insert [OF step(3) [OF own] conjunct2 [OF conjunct2 [OF ih]] own]
  have "written own (content (w_remote w)) ((\<lambda>j. (fl ! j, fetch_destination r dest j (fl ! j))) ` set (i # order)) (w_fs w) (w_fs w')"
    by simp
  moreover have "results ! j = (if j \<in> set (i # order)
         then \<lparr>rr_WalName = fl ! j, rr_DestinationPath = fetch_destination r dest j (fl ! j),
           rr_Err = (if content (w_remote w) (fl ! j) = None then Some ErrWALNotFound else None)\<rparr> else rs ! j)"
    if "j < length rs" for j
    using ih that len step(2) Cons.prems(2) by (cases "j = i") auto
  ultimately show ?case using ih len by simp
qed

text \<open>
  C20. The parallel prefetch is the sequential one: when pgBackRest delivers what the archive holds
  and fails with status 1 for what it does not, then under every schedule of the goroutines the
  results are those of fetching the segments of the list in turn, and so are the files, apart from
  pgBackRest's own.
\<close>

theorem RestoreList_sequential:
  assumes "archive_get_ok (h_pgbackrest h) own content" "archive_get_available (h_pgbackrest h) content"
    and "archive_get_missing (h_pgbackrest h) content" "int (length options) < MaxInt - 3"
    and "distinct (map (path_clean \<circ> snd) (fetch_plan r dest fetchList))"
    and "own \<inter> path_clean ` snd ` set (fetch_plan r dest fetchList) = {}"
    and "RestoreList h sched r fetchList dest options w = (results, w')"
    and "fetch_in_turn (content (w_remote w)) (fetch_plan r dest fetchList) (w_fs w) = (results', fs')"
  shows "results = results' \<and> same_but own fs' (w_fs w')"
proof -
  let ?n = "length fetchList" and ?order = "fetch_order sched (length fetchList)"
  let ?p = "\<lambda>i. (fetchList ! i, fetch_destination r dest i (fetchList ! i))"
  have plan: "fetch_plan r dest fetchList = map ?p [0..<?n]" by (simp add: fetch_plan_def)
  have set_order: "set ?order = {..<?n}" by (simp add: fetch_order_set)
  have inj: "inj_on (\<lambda>i. path_clean (snd (?p i))) {..<?n}"
    using assms(5) by (simp add: plan distinct_map o_def atLeast0LessThan)
  then have "distinct (map (\<lambda>i. path_clean (fetch_destination r dest i (fetchList ! i))) ?order)"
    by (simp add: distinct_map fetch_order_set)
  moreover have "path_clean (fetch_destination r dest i (fetchList ! i)) \<notin> own" if "i \<in> set ?order" for i
  proof -
    have "path_clean (fetch_destination r dest i (fetchList ! i)) \<in> path_clean ` snd ` set (fetch_plan r dest fetchList)"
      using that by (simp add: plan set_order image_image)
    with assms(6) show ?thesis by blast
  qed
  moreover have "fold (fetch_step h r fetchList dest options) ?order
      (replicate ?n \<lparr>rr_WalName = [], rr_DestinationPath = [], rr_Err = None\<rparr>, w) = (results, w')"
    using assms(7) by (simp add: RestoreList_def)
  ultimately have par: "length results = ?n"
    "\<forall>i < ?n. results ! i = \<lparr>rr_WalName = fetchList ! i, rr_DestinationPath = fetch_destination r dest i (fetchList ! i),
           rr_Err = (if content (w_remote w) (fetchList ! i) = None then Some ErrWALNotFound else None)\<rparr>"
    "written own (content (w_remote w)) (?p ` {..<?n}) (w_fs w) (w_fs w')"
    using fetch_fold_exact [OF assms(1-4), of r dest fetchList ?order
        "replicate ?n \<lparr>rr_WalName = [], rr_DestinationPath = [], rr_Err = None\<rparr>" w results w'] set_order by auto
  note seq = fetch_in_turn_spec [OF assms(5), of "content (w_remote w)" "w_fs w", unfolded assms(8) fst_conv snd_conv]
  have "results = results'"
    using par(1,2) seq by (intro nth_equalityI) (simp_all add: plan)
  moreover have "\<forall>(n, d) \<in> set (fetch_plan r dest fetchList). path_clean d \<notin> own"
  proof (clarify)
    fix n d assume "(n, d) \<in> set (fetch_plan r dest fetchList)" "path_clean d \<in> own"
    then have "path_clean d \<in> own \<inter> path_clean ` snd ` set (fetch_plan r dest fetchList)" by force
    with assms(6) show False by blast
  qed
  moreover have "set (fetch_plan r dest fetchList) = ?p ` {..<?n}" by (auto simp: plan)
  with par(3) have "written own (content (w_remote w)) (set (fetch_plan r dest fetchList)) (w_fs w) (w_fs w')" by simp
  ultimately show ?thesis using written_unique [OF _ conjunct2 [OF seq]] by blast
qed

theorem RestoreList_sequential_witness:
  "\<exists>results w1 w2.
     RestoreList get_host [2, 0, 1] restorer_example
       [''000000010000000000000001'', ''000000010000000000000002'', ''000000010000000000000003''] ''/d/1'' [] get_world
       = (results, w1)
     \<and> RestoreList get_host [] restorer_example
       [''000000010000000000000001'', ''000000010000000000000002'', ''000000010000000000000003''] ''/d/1'' [] get_world
       = (results, w2)
     \<and> map rr_Err results = [None, None, Some ErrWALNotFound] \<and> same_but {} (w_fs w1) (w_fs w2)"
proof -
  let ?fl = "[''000000010000000000000001'', ''000000010000000000000002'', ''000000010000000000000003'']"
  let ?plan = "fetch_plan restorer_example ''/d/1'' ?fl"
  have ok: "archive_get_ok (h_pgbackrest get_host) {} map_of" using restoring_example by (simp add: restoring_setup_def)
  have av: "archive_get_available (h_pgbackrest get_host) map_of" "archive_get_missing (h_pgbackrest get_host) map_of"
    by (auto simp: archive_get_available_def archive_get_missing_def get_host_def get_store_def get_options_def
        split: option.splits)
  have len: "int (length ([] :: string list)) < MaxInt - 3" by (simp add: MaxInt_def)
  have dist: "distinct (map (path_clean \<circ> snd) ?plan)" by code_simp
  have errs: "map rr_Err (fst (fetch_in_turn (map_of (w_remote get_world)) ?plan (w_fs get_world))) = [None, None, Some ErrWALNotFound]"
    by code_simp
  obtain rs w1 where r1: "RestoreList get_host [2, 0, 1] restorer_example ?fl ''/d/1'' [] get_world = (rs, w1)" by fastforce
  obtain rs2 w2 where r2: "RestoreList get_host [] restorer_example ?fl ''/d/1'' [] get_world = (rs2, w2)" by fastforce
  obtain rs' fs' where t: "fetch_in_turn (map_of (w_remote get_world)) ?plan (w_fs get_world) = (rs', fs')" by fastforce
  from RestoreList_sequential [OF ok av len dist _ r1 t] RestoreList_sequential [OF ok av len dist _ r2 t]
  have "rs = rs'" "rs2 = rs'" "same_but {} fs' (w_fs w1)" "same_but {} fs' (w_fs w2)" by simp_all
  with r1 r2 errs t show ?thesis by (auto simp: same_but_def)
qed

end
