(* ===== verification/Spec2Isabelle.thy ===== *)
theory Spec2Isabelle
  imports Operator_Process Rbac Client_Memory Archive_Termination Archive_Progress Restore_Order
begin

text \<open>
  The CloudNativePG plugin for pgBackRest (\<^verbatim>\<open>cnpg-plugin-pgbackrest\<close>), a model of
  its Go code with the theorems that make it correct. The paths below are those of the repository.

  \<^bold>\<open>The program.\<close> An operator process adds a sidecar container to the pods of a PostgreSQL
  cluster and to its recovery jobs, and keeps a role that lets the sidecars read their Archive
  objects and secrets. A sidecar answers the requests of the instance manager: archive a WAL
  segment, fetch one, take a backup, restore a cluster. For each it reads the configuration of the
  cluster and an Archive object, sets up an environment with credentials, builds an argument list
  and runs \<^verbatim>\<open>pgbackrest\<close>. A spool directory remembers segments archived ahead of
  their request and segments fetched ahead.

  \<^bold>\<open>Theories, with the code they model.\<close>
  \<^item> \<open>Go_Prelude\<close>, \<open>Go_Strings\<close>, \<open>Go_Regexp\<close>, \<open>Go_Json\<close>, \<open>Option_Lists\<close>: results (a value, an
    error, a panic) and their sequencing with and without a state; the parts of \<^verbatim>\<open>strings\<close>,
    \<^verbatim>\<open>strconv\<close>, \<^verbatim>\<open>path\<close>, \<^verbatim>\<open>regexp\<close> and
    \<^verbatim>\<open>encoding/json\<close> the code uses; lists of command line options.
  \<^item> \<open>Filesystem\<close>, \<open>Host\<close>: the file system as a map from clean paths to nodes with the calls of
    \<^verbatim>\<open>os\<close>; the world a request changes: the files, the remote side of pgBackRest and the
    list of the processes run so far.
  \<^item> \<open>Wal_Segment\<close>: \<^verbatim>\<open>internal/cnpgi/common/wal_import.go\<close>. Segment names, parsed and
    printed; the segments that follow one, with the counters as 32-bit words.
  \<^item> \<open>Api_Config\<close>: \<^verbatim>\<open>internal/pgbackrest/api/config.go\<close>,
    \<^verbatim>\<open>api/v1/archive_types.go\<close>, \<^verbatim>\<open>api/v1/groupversion_info.go\<close>. The Archive object, and the merge of the user's arguments.
  \<^item> \<open>Command_Builder\<close>: \<^verbatim>\<open>internal/pgbackrest/command/commandbuilder.go\<close> and
    \<^verbatim>\<open>errors.go\<close>, \<^verbatim>\<open>utils/flag_utils.go\<close>. The options of every command.
  \<^item> \<open>Catalog\<close>: \<^verbatim>\<open>internal/pgbackrest/catalog/catalog.go\<close>. Decoding the report of
    \<^verbatim>\<open>pgbackrest info\<close>; the choice of the backup a recovery starts from.
  \<^item> \<open>Credentials\<close>: \<^verbatim>\<open>internal/pgbackrest/credentials/credentials.go\<close>,
    \<^verbatim>\<open>utils/env_utils.go\<close>. The environment of a process.
  \<^item> \<open>Spool\<close>: \<^verbatim>\<open>internal/pgbackrest/spool/spool.go\<close>. The contract of a set of names is the
    locale \<open>wal_spool\<close>, interpreted on the directory operations.
  \<^item> \<open>Plugin_Config\<close>: \<^verbatim>\<open>internal/cnpgi/operator/config/config.go\<close>,
    \<^verbatim>\<open>internal/cnpgi/metadata/constants.go\<close>.
  \<^item> \<open>Backup_Command\<close>: \<^verbatim>\<open>internal/pgbackrest/backup/backup.go\<close>,
    \<^verbatim>\<open>command/backuplist.go\<close>, \<^verbatim>\<open>restorer/backup.go\<close>.
  \<^item> \<open>Wal_Archiver\<close>: \<^verbatim>\<open>internal/pgbackrest/walarchive/cmd.go\<close>,
    \<^verbatim>\<open>archiver/archiver.go\<close> and \<^verbatim>\<open>archiver/command.go\<close>. The batch is pushed by
    one goroutine for each segment; a schedule, a list of the goroutines in the order they take
    their steps, is an argument, and the theorems hold for every schedule.
    \<open>Archive_Termination\<close> shows that the walk of the status directory and the goroutines end.
  \<^item> \<open>Wal_Restorer\<close>: \<^verbatim>\<open>internal/pgbackrest/restorer/wal.go\<close>. The parallel fetch runs each
    fetch as one step, in an order that is an argument.
  \<^item> \<open>Wal_Service\<close>: \<^verbatim>\<open>internal/cnpgi/common/wal.go\<close> and \<^verbatim>\<open>errors.go\<close>. The
    archive, restore and status requests. \<open>Archive_Run\<close> and \<open>Restore_Run\<close> run archive and restore
    requests one after another, as steps between worlds whose invariants are interpretations of the
    locale \<open>step_invariant\<close>; \<open>outcome\<close> is the postcondition of a call that may end with an error.
    \<open>Archive_Progress\<close> shows that a request is acknowledged when its environment behaves;
    \<open>Restore_Order\<close> compares the parallel prefetch with a sequential program.
  \<^item> \<open>Instance_Backup\<close>: \<^verbatim>\<open>internal/cnpgi/instance/backup.go\<close>. The backup request.
  \<^item> \<open>Restore_Job\<close>: \<^verbatim>\<open>internal/cnpgi/restore/restore.go\<close>. The restore of a cluster.
  \<^item> \<open>Extended_Client\<close>: \<^verbatim>\<open>internal/cnpgi/instance/internal/client/client.go\<close>. The cache
    over time, as a step relation on values.
  \<^item> \<open>Go_Memory\<close>, \<open>Deep_Copy\<close>, \<open>Archive_Copy\<close>: the deep copies of
    \<^verbatim>\<open>internal/pgbackrest/api/zz_generated.deepcopy.go\<close> and
    \<^verbatim>\<open>api/v1/zz_generated.deepcopy.go\<close>, over a memory of cells in which pointers, slices
    and maps are addresses. A view reads a struct of the memory as the record of \<open>Api_Config\<close>, which the
    rest of the model works with; the locale \<open>deep_copy\<close> is the contract of a copy, interpreted on the
    copy of every configuration type. \<open>Client_Memory\<close> is the caching client over that memory.
  \<^item> \<open>Rbac\<close>: \<^verbatim>\<open>internal/cnpgi/operator/specs\<close> and \<^verbatim>\<open>operator/reconciler.go\<close>.
  \<^item> \<open>Lifecycle\<close>: \<^verbatim>\<open>internal/cnpgi/operator/lifecycle.go\<close>.
  \<^item> \<open>Processes\<close>, \<open>Operator_Process\<close>: the commands and servers of \<^verbatim>\<open>internal/cmd\<close>,
    \<^verbatim>\<open>internal/controller\<close> and the \<^verbatim>\<open>identity.go\<close>,
    \<^verbatim>\<open>manager.go\<close> and \<^verbatim>\<open>start.go\<close> files. The state of a process that
    starts is the list of what it has asked of the controller manager.

  \<^bold>\<open>What the lemmas show.\<close>
  \<^item> Archiving: an acknowledged segment was pushed by a process that ended with success, or its
    marker was in the spool; under every schedule the marker of a segment is set only after its
    push, and the requested segment never gets one; over any sequence of archive requests every
    acknowledged segment is in the archive; a batch is the requested segment and then
    those announced as ready, within the limit; everything ends; when the processes and the files behave
    a request is acknowledged.
  \<^item> Restoring WAL: a success means that the segment is at its destination, from the spool or from
    a process that ended with success; the flag for the end of the stream is reported once; the
    list of segments fetched ahead is consecutive; over any sequence of restore requests every segment
    handed out has the content the archive holds, and a request for a segment it holds is served.
  \<^item> Backups and restores of a cluster: what is reported was made; what is restored is the backup
    the target chooses, the last admissible one; the argument lists and the outcome of each run.
  \<^item> The spool refines a set of names.
  \<^item> Credentials: each variable is set once; no variable of a Kubernetes service reaches the
    process; the role of a cluster is enough to compute the environment.
  \<^item> The operator: the hook reaches the wanted role and binding and then rests; the sidecar is added
    once, and its environment has what its command requires; an operator that starts is safe by
    default and gives each sidecar an image.
  \<^item> The cache: no answer is older than ten seconds, and a write is not hidden by it; over memory it
    does what it does on values as long as callers do not write to what cached objects reach.
  \<^item> A deep copy reads as the original, in cells that nothing else reaches.
  \<^item> The parallel prefetch has the results and the files of the sequential one.
  \<^item> Data: segment names and catalogs are read back as they were written.

  \<^bold>\<open>Parameters.\<close> The executable \<^verbatim>\<open>pgbackrest\<close>, the file utilities, the LSN and
  time parsers and the plugin helpers of the CloudNativePG libraries, the Kubernetes API, the JSON
  lexer, the patch generator, the controller manager and \<^verbatim>\<open>viper\<close>. What the code relies on of them is a named
  predicate (\<open>fileutils_ok\<close>, \<open>kube_ok\<close>, \<open>answers_ok\<close>, \<open>archiver_ok\<close>, \<open>archive_ok\<close>, \<open>archive_get_ok\<close>,
  \<open>viper_binds\<close>, \<open>viper_flags\<close>, \<open>library_ok\<close>, \<open>get_ok\<close> and others),
  and the witnesses apply the theorems to concrete instances that meet them.

  \<^bold>\<open>Bounds and fuel.\<close> \<open>WalkDir\<close> is given two more units of fuel than the file system has nodes;
  \<open>Archive_Termination\<close> shows that more changes nothing. Every other recursion is structural or on
  a bounded counter. Sizes of slices are compared with \<open>MaxInt\<close>, the largest 64-bit integer.
  After the schedule it is given \<open>Archive_list\<close> lets each goroutine take its three steps, which is
  all it has.

  \<^bold>\<open>Not modelled.\<close> Log messages; contexts, deadlines and cancellation; the gRPC transport and
  the command line parser, which are calls into libraries; the registration of types with a scheme,
  of which only the groups are kept; tests and build scripts. Of Kubernetes
  objects the model has the fields the code reads or writes. Symbolic links appear only where the
  restore makes one.
  Outside of \<open>Go_Memory\<close> and the theories on it, structs are values: the code shares a struct only to read it.
\<close>

end
